(* ===== verification/Skyr_Prelude.thy ===== *)
theory Skyr_Prelude
  imports Main "HOL-Library.Char_ord"
begin

text \<open>
  What every component theory shares: the development's theorem collections, the operations of
  Rust's \<^verbatim>\<open>str\<close> type that the crates use, the early-return sequencing of a fallible stateful
  computation, and the interface \<open>string_codec\<close> of an identifier with a \<^verbatim>\<open>Display\<close> and a
  \<^verbatim>\<open>FromStr\<close> implementation.

  A Rust string is its sequence of UTF-8 bytes, so \<open>string\<close> (a list of 8-bit characters) is the
  byte sequence, \<open>length\<close> is \<^verbatim>\<open>str::len\<close>, and searching for an ASCII pattern works on bytes.
\<close>

named_theorems str_simps \<open>facts about the string operations\<close>
named_theorems codec_simps \<open>round trips of the identifier types\<close>
named_theorems io_simps \<open>unfolding of the sequenced computations\<close>

section \<open>Byte classes\<close>

definition byte_of :: "char \<Rightarrow> nat" where
  "byte_of c = of_char c"

definition is_ascii_lowercase :: "char \<Rightarrow> bool" where
  "is_ascii_lowercase c \<longleftrightarrow> 97 \<le> byte_of c \<and> byte_of c \<le> 122"

definition is_ascii_uppercase :: "char \<Rightarrow> bool" where
  "is_ascii_uppercase c \<longleftrightarrow> 65 \<le> byte_of c \<and> byte_of c \<le> 90"

definition is_ascii_digit :: "char \<Rightarrow> bool" where
  "is_ascii_digit c \<longleftrightarrow> 48 \<le> byte_of c \<and> byte_of c \<le> 57"

definition is_ascii_alphabetic :: "char \<Rightarrow> bool" where
  "is_ascii_alphabetic c \<longleftrightarrow> is_ascii_lowercase c \<or> is_ascii_uppercase c"

definition is_ascii_alphanumeric :: "char \<Rightarrow> bool" where
  "is_ascii_alphanumeric c \<longleftrightarrow> is_ascii_alphabetic c \<or> is_ascii_digit c"

definition is_ascii_hexdigit :: "char \<Rightarrow> bool" where
  "is_ascii_hexdigit c \<longleftrightarrow> is_ascii_digit c
     \<or> (97 \<le> byte_of c \<and> byte_of c \<le> 102) \<or> (65 \<le> byte_of c \<and> byte_of c \<le> 70)"

definition to_ascii_lowercase :: "string \<Rightarrow> string" where
  "to_ascii_lowercase s = map (\<lambda>c. if is_ascii_uppercase c then char_of (byte_of c + 32) else c) s"

lemmas byte_class_defs = is_ascii_lowercase_def is_ascii_uppercase_def is_ascii_digit_def
  is_ascii_alphabetic_def is_ascii_alphanumeric_def is_ascii_hexdigit_def byte_of_def

lemma byte_of_less [simp]: "byte_of c < 256"
  by (simp add: byte_of_def)

section \<open>Searching and splitting strings\<close>

definition starts_with :: "string \<Rightarrow> string \<Rightarrow> bool" where
  "starts_with p s \<longleftrightarrow> take (length p) s = p"

definition strip_prefix :: "string \<Rightarrow> string \<Rightarrow> string option" where
  "strip_prefix p s = (if starts_with p s then Some (drop (length p) s) else None)"

fun split_once :: "string \<Rightarrow> string \<Rightarrow> (string \<times> string) option" where
  "split_once p [] = (if p = [] then Some ([], []) else None)"
| "split_once p (c # cs) =
     (if starts_with p (c # cs) then Some ([], drop (length p) (c # cs))
      else map_option (\<lambda>(a, b). (c # a, b)) (split_once p cs))"

definition rsplit_once :: "string \<Rightarrow> string \<Rightarrow> (string \<times> string) option" where
  "rsplit_once p s = map_option (\<lambda>(b, a). (rev a, rev b)) (split_once (rev p) (rev s))"

definition contains_str :: "string \<Rightarrow> string \<Rightarrow> bool" where
  "contains_str p s \<longleftrightarrow> split_once p s \<noteq> None"

definition find_char :: "char \<Rightarrow> string \<Rightarrow> nat option" where
  "find_char c s = map_option (\<lambda>(a, b). length a) (split_once [c] s)"

function replace_str :: "string \<Rightarrow> string \<Rightarrow> string \<Rightarrow> string" where
  "replace_str p r s =
     (case (if p = [] then None else split_once p s) of
        None \<Rightarrow> s
      | Some (a, b) \<Rightarrow> a @ r @ replace_str p r b)"
  by pat_completeness auto

lemma starts_with_append [simp, str_simps]: "starts_with p (p @ s)"
  by (simp add: starts_with_def)

lemma starts_with_Cons [str_simps]: "starts_with [c] (x # xs) \<longleftrightarrow> c = x"
  by (auto simp: starts_with_def)

lemma strip_prefix_append [simp, str_simps]: "strip_prefix p (p @ s) = Some s"
  by (simp add: strip_prefix_def)

lemma strip_prefix_Some [str_simps]: "strip_prefix p s = Some r \<longleftrightarrow> s = p @ r"
  by (auto simp: strip_prefix_def starts_with_def) (metis append_take_drop_id)

lemma starts_with_iff_append: "starts_with p s \<longleftrightarrow> (\<exists>r. s = p @ r)"
  by (metis starts_with_append starts_with_def append_take_drop_id)

lemma split_once_sound: "split_once p s = Some (a, b) \<Longrightarrow> s = a @ p @ b"
proof (induction p s arbitrary: a b rule: split_once.induct)
  case (2 p c cs)
  show ?case
  proof (cases "starts_with p (c # cs)")
    case True
    with "2.prems" show ?thesis
      by (auto simp: starts_with_def) (metis append_take_drop_id)
  next
    case False
    with "2.prems" obtain a' where "split_once p cs = Some (a', b)" "a = c # a'" by auto
    with "2.IH" False show ?thesis by auto
  qed
qed (simp split: if_splits)

termination replace_str
proof (relation "measure (\<lambda>(p, r, s). length s)")
  fix p r s x and a b :: string
  assume "(if p = [] then None else split_once p s) = Some x" "(a, b) = x"
  then have "p \<noteq> []" "s = a @ p @ b" by (auto split: if_splits dest: split_once_sound)
  then show "((p, r, b), (p, r, s)) \<in> measure (\<lambda>(p, r, s). length s)" by simp
qed simp

declare replace_str.simps [simp del]

lemma split_once_hd_notin:
  assumes "p \<noteq> []" "hd p \<notin> set a"
  shows "split_once p (a @ p @ b) = Some (a, b)"
  using assms
proof (induction a)
  case Nil
  then obtain c cs where "p = c # cs" by (cases p) auto
  then show ?case by (simp add: starts_with_def)
next
  case (Cons x a)
  then have "\<not> starts_with p (x # a @ p @ b)"
    by (cases p) (auto simp: starts_with_def)
  with Cons show ?case by simp
qed

lemma split_once_char [str_simps]:
  "c \<notin> set a \<Longrightarrow> split_once [c] (a @ c # b) = Some (a, b)"
  using split_once_hd_notin [of "[c]" a b] by simp

lemma split_once_char_None [str_simps]: "split_once [c] s = None \<longleftrightarrow> c \<notin> set s"
  by (induction s) (auto simp: starts_with_def)

lemma split_once_char_Some [str_simps]:
  "split_once [c] s = Some (a, b) \<longleftrightarrow> s = a @ c # b \<and> c \<notin> set a"
proof
  assume "split_once [c] s = Some (a, b)"
  then show "s = a @ c # b \<and> c \<notin> set a"
    by (induction s arbitrary: a) (auto simp: starts_with_def split: if_splits)
qed (auto simp: str_simps)

lemma split_once_twice:
  assumes "split_once [c, c] x = None" "x = [] \<or> last x \<noteq> c"
  shows "split_once [c, c] (x @ c # c # y) = Some (x, y)"
  using assms
proof (induction x)
  case (Cons z x)
  then have "\<not> starts_with [c, c] (z # x @ c # c # y)"
    by (cases x) (auto simp: starts_with_def split: if_splits)
  with Cons show ?case by (auto split: if_splits)
qed (simp add: starts_with_def)

lemma rsplit_once_sound: "rsplit_once p s = Some (a, b) \<Longrightarrow> s = a @ p @ b"
  unfolding rsplit_once_def
  by (auto dest!: split_once_sound) (metis append.assoc rev_append rev_rev_ident)

lemma rsplit_once_char [str_simps]:
  "c \<notin> set b \<Longrightarrow> rsplit_once [c] (a @ c # b) = Some (a, b)"
  using split_once_char [of c "rev b" "rev a"] by (simp add: rsplit_once_def)

lemma rsplit_once_char_Some [str_simps]:
  "rsplit_once [c] s = Some (a, b) \<longleftrightarrow> s = a @ c # b \<and> c \<notin> set b"
proof
  assume r: "rsplit_once [c] s = Some (a, b)"
  then have "split_once [c] (rev s) = Some (rev b, rev a)"
    by (auto simp: rsplit_once_def)
  then have "c \<notin> set b" by (simp add: split_once_char_Some)
  then show "s = a @ c # b \<and> c \<notin> set b" using rsplit_once_sound [OF r] by simp
qed (auto simp: str_simps)

lemma split_once_rev_None:
  "split_once [c, c] s = None \<longleftrightarrow> (\<nexists>a b. s = a @ c # c # b)"
proof (induction s)
  case (Cons x s)
  have "(\<exists>a b. x # s = a @ c # c # b) \<longleftrightarrow>
    (\<exists>b. x # s = c # c # b) \<or> (\<exists>a b. s = a @ c # c # b)" (is "?l \<longleftrightarrow> ?r")
  proof
    assume ?l
    then obtain a b where "x # s = a @ c # c # b" by blast
    then show ?r by (cases a) auto
  qed (metis append_Cons append_Nil)
  moreover have "starts_with [c, c] (x # s) \<longleftrightarrow> (\<exists>b. x # s = c # c # b)"
    by (auto simp: starts_with_iff_append)
  ultimately show ?case using Cons by auto
qed simp

lemma rsplit_once_twice:
  assumes "\<not> contains_str [c, c] b" "b = [] \<or> hd b \<noteq> c"
  shows "rsplit_once [c, c] (a @ c # c # b) = Some (a, b)"
proof -
  have "split_once [c, c] (rev b) = None"
    using assms(1) unfolding contains_str_def split_once_rev_None
    by simp (metis append.assoc append_Cons append_Nil rev.simps(2) rev_append rev_rev_ident)
  moreover have "rev b = [] \<or> last (rev b) \<noteq> c" using assms(2) by (auto simp: last_rev)
  ultimately have "split_once [c, c] (rev b @ c # c # rev a) = Some (rev b, rev a)"
    by (rule split_once_twice)
  then show ?thesis by (simp add: rsplit_once_def)
qed

text \<open>
  A piece of text is inert for a pattern when no occurrence of the pattern starts inside it,
  whatever follows it: searching and replacing pass over it.
\<close>

definition inert :: "string \<Rightarrow> string \<Rightarrow> bool" where
  "inert p x \<longleftrightarrow> (\<forall>a b y. x = a @ b \<and> b \<noteq> [] \<longrightarrow> \<not> starts_with p (b @ y))"

lemma inert_hd_notin: "p \<noteq> [] \<Longrightarrow> hd p \<notin> set x \<Longrightarrow> inert p x"
  by (auto simp: inert_def starts_with_def neq_Nil_conv)

lemma inert_ConsD: "inert p (c # x) \<Longrightarrow> inert p x \<and> \<not> starts_with p (c # x @ y)"
proof -
  assume i: "inert p (c # x)"
  have "inert p x"
    unfolding inert_def
  proof clarify
    fix a b y assume "x = a @ b" "b \<noteq> []" "starts_with p (b @ y)"
    then show False using i unfolding inert_def by (metis append_Cons)
  qed
  moreover have "\<not> starts_with p (c # x @ y)"
    using i unfolding inert_def by (metis append_Cons append_Nil list.distinct(1))
  ultimately show ?thesis by simp
qed

lemma split_once_inert:
  "inert p x \<Longrightarrow> split_once p (x @ s) = map_option (\<lambda>(a, b). (x @ a, b)) (split_once p s)"
proof (induction x)
  case (Cons c x)
  then show ?case using inert_ConsD [of p c x s] by (simp add: option.map_comp comp_def split_beta)
qed (simp add: option.map_id)

lemma replace_str_Nil [simp]: "replace_str p r [] = []"
  by (simp add: replace_str.simps)

lemma replace_str_inert: "inert p x \<Longrightarrow> replace_str p r (x @ s) = x @ replace_str p r s"
  by (auto simp: replace_str.simps [of p r "x @ s"] replace_str.simps [of p r s] split_once_inert
      split: option.splits)

lemma replace_str_hit: "p \<noteq> [] \<Longrightarrow> replace_str p r (p @ s) = r @ replace_str p r s"
  using split_once_hd_notin [of p "[]" s] by (subst replace_str.simps) simp

lemma find_char_Some [str_simps]:
  "find_char c s = Some i \<longleftrightarrow> (\<exists>a b. s = a @ c # b \<and> c \<notin> set a \<and> length a = i)"
  by (auto simp: find_char_def split_once_char_Some)

lemma find_char_None [str_simps]: "find_char c s = None \<longleftrightarrow> c \<notin> set s"
  by (simp add: find_char_def split_once_char_None)

section \<open>Lower-case hexadecimal numerals\<close>

definition hex_char :: "nat \<Rightarrow> char" where
  "hex_char d = (if d < 10 then char_of (48 + d) else char_of (87 + d))"

fun hex_digits :: "nat \<Rightarrow> string" where
  "hex_digits n = (if n < 16 then [hex_char n] else hex_digits (n div 16) @ [hex_char (n mod 16)])"

declare hex_digits.simps [simp del]

definition hex_padded :: "nat \<Rightarrow> nat \<Rightarrow> string" where
  "hex_padded w n = (let s = hex_digits n in replicate (w - length s) (CHR ''0'') @ s)"

definition hex_value :: "char \<Rightarrow> nat option" where
  "hex_value c =
     (if is_ascii_digit c then Some (byte_of c - 48)
      else if 97 \<le> byte_of c \<and> byte_of c \<le> 102 then Some (byte_of c - 87)
      else if 65 \<le> byte_of c \<and> byte_of c \<le> 70 then Some (byte_of c - 55)
      else None)"

fun hex_fold :: "nat \<Rightarrow> nat \<Rightarrow> string \<Rightarrow> nat option" where
  "hex_fold limit acc [] = Some acc"
| "hex_fold limit acc (c # cs) =
     (case hex_value c of
        None \<Rightarrow> None
      | Some d \<Rightarrow> if acc * 16 + d < limit then hex_fold limit (acc * 16 + d) cs else None)"

text \<open>
  \<^verbatim>\<open>u64::from_str_radix(s, 16)\<close>: an empty digit sequence, a foreign character and an overflow
  are errors, and one leading \<^verbatim>\<open>+\<close> is skipped.
\<close>

definition u64_from_str_radix_16 :: "string \<Rightarrow> nat option" where
  "u64_from_str_radix_16 s =
     (let digits = (case s of c # cs \<Rightarrow> if c = CHR ''+'' then cs else s | [] \<Rightarrow> s)
      in if digits = [] then None else hex_fold (2 ^ 64) 0 digits)"

definition is_lower_hex :: "char \<Rightarrow> bool" where
  "is_lower_hex c \<longleftrightarrow> is_ascii_hexdigit c \<and> \<not> is_ascii_uppercase c"

lemma hex_value_hex_char [simp]: "d < 16 \<Longrightarrow> hex_value (hex_char d) = Some d"
  by (auto simp: hex_value_def hex_char_def is_ascii_digit_def byte_of_def)

lemma hex_char_zero: "hex_char 0 = CHR ''0''"
  by code_simp

lemma is_lower_hex_hex_char [simp]: "d < 16 \<Longrightarrow> is_lower_hex (hex_char d)"
  by (auto simp: is_lower_hex_def hex_char_def byte_class_defs)

lemma hex_char_hex_value:
  "is_lower_hex c \<Longrightarrow> \<exists>d < 16. hex_value c = Some d \<and> hex_char d = c"
  by (auto simp: is_lower_hex_def hex_value_def hex_char_def byte_class_defs)

lemma hex_digits_small [simp]: "n < 16 \<Longrightarrow> hex_digits n = [hex_char n]"
  by (simp add: hex_digits.simps)

lemma hex_digits_nonempty [simp]: "hex_digits n \<noteq> []"
  by (subst hex_digits.simps) simp

lemma hex_digits_lower: "c \<in> set (hex_digits n) \<Longrightarrow> is_lower_hex c"
proof (induction n rule: hex_digits.induct)
  case (1 n)
  then show ?case
    by (cases "n < 16") (auto simp: hex_digits.simps [of n])
qed

lemma hex_digits_length: "n < 16 ^ Suc k \<Longrightarrow> length (hex_digits n) \<le> Suc k"
proof (induction k arbitrary: n)
  case (Suc k)
  then have "n div 16 < 16 ^ Suc k" by simp
  then have "length (hex_digits (n div 16)) \<le> Suc k" by (rule Suc.IH)
  then show ?case by (simp add: hex_digits.simps [of n])
qed simp

lemma hex_fold_append:
  "hex_fold l a (xs @ ys) = (case hex_fold l a xs of None \<Rightarrow> None | Some a' \<Rightarrow> hex_fold l a' ys)"
  by (induction l a xs rule: hex_fold.induct) (auto split: option.splits)

lemma hex_fold_zeros: "0 < l \<Longrightarrow> hex_fold l 0 (replicate k (CHR ''0'') @ s) = hex_fold l 0 s"
  by (induction k) (auto simp: hex_value_def byte_class_defs)

lemma hex_fold_digits: "n < l \<Longrightarrow> hex_fold l 0 (hex_digits n) = Some n"
proof (induction n rule: hex_digits.induct)
  case (1 n)
  show ?case
  proof (cases "n < 16")
    case False
    with 1 have "hex_fold l 0 (hex_digits (n div 16)) = Some (n div 16)" by simp
    then show ?thesis
      using False "1.prems" by (simp add: hex_digits.simps [of n] hex_fold_append)
  qed (use "1.prems" in simp)
qed

lemma hex_fold_padded: "n < l \<Longrightarrow> hex_fold l 0 (hex_padded w n) = Some n"
  by (simp add: hex_padded_def Let_def hex_fold_zeros hex_fold_digits)

lemma hex_padded_length:
  "n < 16 ^ Suc k \<Longrightarrow> length (hex_padded (Suc k) n) = Suc k"
  using hex_digits_length [of n k] by (simp add: hex_padded_def Let_def)

lemma hex_padded_lower: "c \<in> set (hex_padded w n) \<Longrightarrow> is_lower_hex c"
  by (auto simp: hex_padded_def Let_def is_lower_hex_def byte_class_defs dest: hex_digits_lower)

lemma hex_fold_bound: "hex_fold l a s = Some n \<Longrightarrow> a < l \<Longrightarrow> n < l"
  by (induction l a s rule: hex_fold.induct) (auto split: option.splits if_splits)

text \<open>The reading of a lower-case numeral determines the numeral, up to its leading zeros.\<close>

lemma hex_fold_inverse:
  assumes "s \<noteq> []" "\<forall>c \<in> set s. is_lower_hex c" "hex_fold l 0 s = Some n"
  shows "hex_padded (length s) n = s"
  using assms
proof (induction s arbitrary: n rule: rev_nonempty_induct)
  case (single c)
  then obtain d where "d < 16" "hex_value c = Some d" "hex_char d = c"
    using hex_char_hex_value [of c] by auto
  with single show ?case by (auto simp: hex_padded_def split: if_splits)
next
  case (snoc c s)
  from snoc.prems obtain m where m: "hex_fold l 0 s = Some m"
    by (auto simp: hex_fold_append split: option.splits)
  from snoc.prems(1) obtain d where d: "d < 16" "hex_value c = Some d" "hex_char d = c"
    using hex_char_hex_value [of c] by auto
  from m d snoc.prems(2) have n: "n = m * 16 + d"
    by (auto simp: hex_fold_append split: if_splits)
  from snoc m have IH: "hex_padded (length s) m = s" by simp
  show ?case
  proof (cases "m = 0")
    case False
    then have "hex_digits n = hex_digits m @ [c]"
      by (subst hex_digits.simps) (use n d in simp)
    then show ?thesis using IH by (simp add: hex_padded_def Let_def)
  next
    case True
    from snoc.hyps(1) obtain k where k: "length s = Suc k" by (cases s) auto
    have "s = replicate k (CHR ''0'') @ [CHR ''0'']"
      using IH True k by (simp add: hex_padded_def hex_char_zero)
    then have "s = replicate (Suc k) (CHR ''0'')" by (simp add: replicate_append_same)
    then show ?thesis using n d True k by (simp add: hex_padded_def)
  qed
qed

section \<open>Identifiers that are printed and parsed\<close>

text \<open>
  The contract between an identifier type and the code that stores or sends it as text: printing
  a well-formed value and parsing it again gives the value back, and parsing accepts only the
  text the accepted value prints.
\<close>

locale string_codec =
  fixes valid :: "'a \<Rightarrow> bool"
    and display :: "'a \<Rightarrow> string"
    and parse :: "string \<Rightarrow> 'e + 'a"
  assumes parse_display: "valid a \<Longrightarrow> parse (display a) = Inr a"
    and parse_sound: "parse s = Inr a \<Longrightarrow> valid a \<and> display a = s"
begin

lemma display_inj: "valid a \<Longrightarrow> valid b \<Longrightarrow> display a = display b \<Longrightarrow> a = b"
  by (metis parse_display sum.inject(2))

lemma parse_inj: "parse s = Inr a \<Longrightarrow> parse t = Inr a \<Longrightarrow> s = t"
  by (metis parse_sound)

lemma parse_accepts: "(\<exists>a. parse s = Inr a) \<longleftrightarrow> (\<exists>a. valid a \<and> s = display a)"
  using parse_display parse_sound by metis

lemma parse_Inr_iff: "parse s = Inr a \<longleftrightarrow> valid a \<and> s = display a"
  using parse_display parse_sound by blast

end

text \<open>
  A qualified identifier joins two identifiers with a separator. Its parser splits the text,
  parses both halves and reports one error, about the whole text, for every way this fails.
  The one thing to show for such a type is that its way of splitting finds the separator that
  printing put there.
\<close>

locale joined_codec = left: string_codec valid_l display_l parse_l
    + right: string_codec valid_r display_r parse_r
  for valid_l :: "'a \<Rightarrow> bool" and display_l and parse_l :: "string \<Rightarrow> 'el + 'a"
    and valid_r :: "'b \<Rightarrow> bool" and display_r and parse_r :: "string \<Rightarrow> 'er + 'b" +
  fixes left_of :: "'c \<Rightarrow> 'a"
    and right_of :: "'c \<Rightarrow> 'b"
    and make :: "'a \<Rightarrow> 'b \<Rightarrow> 'c"
    and sep :: string
    and split :: "string \<Rightarrow> (string \<times> string) option"
    and err :: "string \<Rightarrow> 'e"
    and valid :: "'c \<Rightarrow> bool"
    and display :: "'c \<Rightarrow> string"
    and parse :: "string \<Rightarrow> 'e + 'c"
  assumes left_of_make: "left_of (make a b) = a"
    and right_of_make: "right_of (make a b) = b"
    and make_parts: "make (left_of c) (right_of c) = c"
    and valid_joined: "valid c \<longleftrightarrow> valid_l (left_of c) \<and> valid_r (right_of c)"
    and display_joined: "display c = display_l (left_of c) @ sep @ display_r (right_of c)"
    and split_sound: "split s = Some (x, y) \<Longrightarrow> s = x @ sep @ y"
    and split_display: "valid_l a \<Longrightarrow> valid_r b \<Longrightarrow>
      split (display_l a @ sep @ display_r b) = Some (display_l a, display_r b)"
    and parse_joined: "parse s =
      (case split s of
         None \<Rightarrow> Inl (err s)
       | Some (x, y) \<Rightarrow>
           (case parse_l x of
              Inl _ \<Rightarrow> Inl (err s)
            | Inr a \<Rightarrow> (case parse_r y of Inl _ \<Rightarrow> Inl (err s) | Inr b \<Rightarrow> Inr (make a b))))"
begin

lemma parse_joined_display: "valid c \<Longrightarrow> parse (display c) = Inr c"
  by (simp add: valid_joined parse_joined display_joined split_display
      left.parse_display right.parse_display make_parts)

lemma parse_joined_sound: "parse s = Inr c \<Longrightarrow> valid c \<and> display c = s"
  by (auto simp: parse_joined valid_joined display_joined left_of_make right_of_make
      dest!: split_sound left.parse_sound right.parse_sound split: option.splits sum.splits)

end

sublocale joined_codec \<subseteq> joined: string_codec valid display parse
  by unfold_locales (simp_all add: parse_joined_display parse_joined_sound)

section \<open>Sequencing fallible operations on a state\<close>

text \<open>
  An operation on a state that can fail leaves the writes it made before the failure in place,
  so it returns the error or the value together with the new state. \<open>seq\<close> is the \<^verbatim>\<open>?\<close>
  operator: it goes on with the value, or stops with the error.
\<close>

type_synonym ('s, 'e, 'a) op = "'s \<Rightarrow> ('e + 'a) \<times> 's"

definition done_with :: "'a \<Rightarrow> ('s, 'e, 'a) op" where
  "done_with x s = (Inr x, s)"

definition fail_with :: "'e \<Rightarrow> ('s, 'e, 'a) op" where
  "fail_with e s = (Inl e, s)"

definition seq :: "('s, 'e, 'a) op \<Rightarrow> ('a \<Rightarrow> ('s, 'e, 'b) op) \<Rightarrow> ('s, 'e, 'b) op" where
  "seq m k s = (case m s of (Inl e, s') \<Rightarrow> (Inl e, s') | (Inr x, s') \<Rightarrow> k x s')"

definition modify_state :: "('s \<Rightarrow> 's) \<Rightarrow> ('s, 'e, unit) op" where
  "modify_state f s = (Inr (), f s)"

definition read_state :: "('s \<Rightarrow> 'a) \<Rightarrow> ('s, 'e, 'a) op" where
  "read_state f s = (Inr (f s), s)"

fun seq_list :: "('a \<Rightarrow> ('s, 'e, unit) op) \<Rightarrow> 'a list \<Rightarrow> ('s, 'e, unit) op" where
  "seq_list f [] = done_with ()"
| "seq_list f (x # xs) = seq (f x) (\<lambda>_. seq_list f xs)"

definition map_err :: "('e \<Rightarrow> 'f) \<Rightarrow> ('s, 'e, 'a) op \<Rightarrow> ('s, 'f, 'a) op" where
  "map_err f m s = (case m s of (Inl e, s') \<Rightarrow> (Inl (f e), s') | (Inr x, s') \<Rightarrow> (Inr x, s'))"

lemma map_err_Inr: "map_err f m s = (Inr x, s') \<longleftrightarrow> m s = (Inr x, s')"
  by (auto simp: map_err_def split: prod.splits sum.splits)

lemma map_err_state [simp]: "snd (map_err f m s) = snd (m s)"
  by (auto simp: map_err_def split: prod.splits sum.splits)

lemma seq_done [simp, io_simps]: "seq (done_with x) k = k x"
  by (simp add: seq_def done_with_def fun_eq_iff)

lemma seq_fail [simp, io_simps]: "seq (fail_with e) k = fail_with e"
  by (simp add: seq_def fail_with_def fun_eq_iff)

lemma seq_assoc: "seq (seq m k) h = seq m (\<lambda>x. seq (k x) h)"
  by (auto simp: seq_def fun_eq_iff split: prod.splits sum.splits)

lemma seq_Inr: "seq m k s = (Inr y, t) \<longleftrightarrow> (\<exists>x s'. m s = (Inr x, s') \<and> k x s' = (Inr y, t))"
  by (auto simp: seq_def split: prod.splits sum.splits)

lemma seq_Inl: "seq m k s = (Inl e, t) \<longleftrightarrow>
    m s = (Inl e, t) \<or> (\<exists>x s'. m s = (Inr x, s') \<and> k x s' = (Inl e, t))"
  by (auto simp: seq_def split: prod.splits sum.splits)

lemma seq_invariant:
  assumes "\<And>s. I s \<Longrightarrow> I (snd (m s))" "\<And>x s. I s \<Longrightarrow> I (snd (k x s))" "I s"
  shows "I (snd (seq m k s))"
proof -
  from assms(1,3) have "I (snd (m s))" .
  then show ?thesis
    using assms(2) by (auto simp: seq_def split: prod.splits sum.splits)
qed

lemma seq_list_invariant:
  assumes "\<And>x s. x \<in> set xs \<Longrightarrow> I s \<Longrightarrow> I (snd (f x s))" "I s"
  shows "I (snd (seq_list f xs s))"
  using assms
proof (induction xs arbitrary: s)
  case (Cons x xs)
  have "I (snd (seq (f x) (\<lambda>_. seq_list f xs) s))"
    by (rule seq_invariant) (use Cons in auto)
  then show ?case by simp
qed (simp add: done_with_def)

definition of_result :: "'e + 'a \<Rightarrow> ('s, 'e, 'a) op" where
  "of_result r = (case r of Inl e \<Rightarrow> fail_with e | Inr x \<Rightarrow> done_with x)"

definition lift_op :: "('t \<Rightarrow> 's) \<Rightarrow> ('s \<Rightarrow> 't \<Rightarrow> 't) \<Rightarrow> ('s, 'e, 'a) op \<Rightarrow> ('t, 'e, 'a) op" where
  "lift_op get put m t = (case m (get t) of (r, s) \<Rightarrow> (r, put s t))"

text \<open>
  \<open>op_ok P m Q R\<close>: run from a state with \<open>P\<close>, the operation ends with a value and a state that
  satisfy \<open>Q\<close>, or fails in a state with \<open>R\<close>.
\<close>

definition op_ok :: "('s \<Rightarrow> bool) \<Rightarrow> ('s, 'e, 'a) op \<Rightarrow> ('a \<Rightarrow> 's \<Rightarrow> bool) \<Rightarrow> ('s \<Rightarrow> bool) \<Rightarrow> bool" where
  "op_ok P m Q R \<longleftrightarrow> (\<forall>s. P s \<longrightarrow> (case m s of (Inr x, s') \<Rightarrow> Q x s' | (Inl e, s') \<Rightarrow> R s'))"

lemma op_ok_seq:
  assumes "op_ok P m Q R" "\<And>x. op_ok (Q x) (k x) Q' R"
  shows "op_ok P (seq m k) Q' R"
  using assms by (fastforce simp: op_ok_def seq_def split: prod.splits sum.splits)

lemma op_ok_weaken:
  assumes "op_ok P m Q R" "\<And>s. P' s \<Longrightarrow> P s" "\<And>x s. Q x s \<Longrightarrow> Q' x s" "\<And>s. R s \<Longrightarrow> R' s"
  shows "op_ok P' m Q' R'"
  using assms by (fastforce simp: op_ok_def split: prod.splits sum.splits)

lemma op_ok_done: "(\<And>s. P s \<Longrightarrow> Q x s) \<Longrightarrow> op_ok P (done_with x) Q R"
  by (simp add: op_ok_def done_with_def)

lemma op_ok_fail: "(\<And>s. P s \<Longrightarrow> R s) \<Longrightarrow> op_ok P (fail_with e) Q R"
  by (simp add: op_ok_def fail_with_def)

lemma op_ok_of_result: "(\<And>s x. P s \<Longrightarrow> Q x s) \<Longrightarrow> (\<And>s. P s \<Longrightarrow> R s) \<Longrightarrow> op_ok P (of_result r) Q R"
  by (cases r) (simp_all add: of_result_def op_ok_done op_ok_fail)

lemma op_ok_cases_option:
  assumes "x = None \<Longrightarrow> op_ok P m Q R" "\<And>y. x = Some y \<Longrightarrow> op_ok P (k y) Q R"
  shows "op_ok P (case x of None \<Rightarrow> m | Some y \<Rightarrow> k y) Q R"
  using assms by (cases x) auto

lemma op_ok_result:
  assumes "op_ok P m Q R" "\<And>s x s'. m s = (Inr x, s') \<Longrightarrow> T x"
  shows "op_ok P m (\<lambda>x s. Q x s \<and> T x) R"
  using assms by (fastforce simp: op_ok_def split: prod.splits sum.splits)

lemma op_ok_state: "op_ok P m (\<lambda>_. Q) Q \<Longrightarrow> P s \<Longrightarrow> Q (snd (m s))"
  by (cases "m s") (auto simp: op_ok_def split: prod.splits sum.splits)

text \<open>\<open>frames f m\<close>: the operation leaves the part \<open>f\<close> of the state as it is, whether it succeeds or fails.\<close>

definition frames :: "('s \<Rightarrow> 'b) \<Rightarrow> ('s, 'e, 'a) op \<Rightarrow> bool" where
  "frames f m \<longleftrightarrow> (\<forall>s. f (snd (m s)) = f s)"

lemma framesD: "frames f m \<Longrightarrow> f (snd (m s)) = f s"
  by (simp add: frames_def)

lemma frames_seq: "frames f m \<Longrightarrow> (\<And>x. frames f (k x)) \<Longrightarrow> frames f (seq m k)"
  by (auto simp: frames_def seq_def split: prod.splits sum.splits) (metis snd_conv)+

lemma frames_done: "frames f (done_with x)"
  by (simp add: frames_def done_with_def)

lemma frames_fail: "frames f (fail_with e)"
  by (simp add: frames_def fail_with_def)

lemma frames_of_result: "frames f (of_result r)"
  by (cases r) (simp_all add: of_result_def frames_done frames_fail)

lemma frames_read: "frames f (read_state g)"
  by (simp add: frames_def read_state_def)

lemma frames_modify: "(\<And>s. f (g s) = f s) \<Longrightarrow> frames f (modify_state g)"
  by (simp add: frames_def modify_state_def)

lemma frames_map_err: "frames f m \<Longrightarrow> frames f (map_err g m)"
  by (simp add: frames_def)

lemma frames_lift: "(\<And>x s. f (put x s) = f s) \<Longrightarrow> frames f (lift_op get put m)"
  by (simp add: frames_def lift_op_def split: prod.splits)

lemma frames_if: "frames f m \<Longrightarrow> frames f m' \<Longrightarrow> frames f (if b then m else m')"
  by simp

lemma frames_option: "frames f m \<Longrightarrow> (\<And>y. frames f (k y)) \<Longrightarrow> frames f (case x of None \<Rightarrow> m | Some y \<Rightarrow> k y)"
  by (cases x) auto

lemma frames_sum: "(\<And>e. frames f (m e)) \<Longrightarrow> (\<And>y. frames f (k y)) \<Longrightarrow> frames f (case x of Inl e \<Rightarrow> m e | Inr y \<Rightarrow> k y)"
  by (cases x) auto

lemma frames_prod: "(\<And>a b. frames f (k a b)) \<Longrightarrow> frames f (case x of (a, b) \<Rightarrow> k a b)"
  by (cases x) auto

lemma frames_seq_list: "(\<And>x. frames f (m x)) \<Longrightarrow> frames f (seq_list m xs)"
  by (induction xs) (auto intro: frames_done frames_seq)

lemmas frames_intros = frames_seq frames_done frames_fail frames_of_result frames_read frames_modify frames_map_err
  frames_lift frames_if frames_option frames_sum frames_prod frames_seq_list

end
