(* ===== verification/Ids.thy ===== *)
theory Ids
  imports Skyr_Prelude "HOL-Library.Word"
begin

text \<open>
  The identifier types of \<^verbatim>\<open>crates/ids/src/lib.rs\<close>, in the order of the source: the validation
  predicates, the parse errors, and for each type its constructor, its \<^verbatim>\<open>Display\<close> text and its
  \<^verbatim>\<open>FromStr\<close> parser. Each type is shown to satisfy the \<open>string_codec\<close> contract of the prelude,
  the qualified ones through \<open>joined_codec\<close>.

  \<^verbatim>\<open>ObjId\<close> wraps \<^verbatim>\<open>gix_hash::ObjectId\<close>, an opaque 20-byte value whose text form is its 40
  lower-case hexadecimal digits; it is represented here by that text. A \<^verbatim>\<open>DeploymentNonce\<close> is its
  64-bit word.
\<close>

section \<open>Validation\<close>

definition is_valid_symbol :: "string \<Rightarrow> bool" where
  "is_valid_symbol s =
     (case s of
        [] \<Rightarrow> False
      | first # rest \<Rightarrow>
          (is_ascii_alphabetic first \<or> first = CHR ''_'')
          \<and> list_all (\<lambda>b. is_ascii_alphanumeric b \<or> b = CHR ''_'') rest)"

definition is_valid_region :: "string \<Rightarrow> bool" where
  "is_valid_region s \<longleftrightarrow> s \<noteq> [] \<and> list_all is_ascii_lowercase s"

definition is_valid_oid_hex :: "string \<Rightarrow> bool" where
  "is_valid_oid_hex s \<longleftrightarrow> length s = 40
     \<and> list_all (\<lambda>b. is_ascii_hexdigit b \<and> \<not> is_ascii_uppercase b) s"

definition is_valid_nonce_hex :: "string \<Rightarrow> bool" where
  "is_valid_nonce_hex s \<longleftrightarrow> length s = 16
     \<and> list_all (\<lambda>b. is_ascii_hexdigit b \<and> \<not> is_ascii_uppercase b) s"

text \<open>The SHA-1 digest comes from the \<^verbatim>\<open>sha1\<close> crate and is a parameter.\<close>

definition name_hash :: "(string \<Rightarrow> 'digest) \<Rightarrow> string \<Rightarrow> 'digest" where
  "name_hash sha1_digest name = sha1_digest (to_ascii_lowercase name)"

datatype ParseIdError =
    InvalidOrgId string
  | InvalidRepoId string
  | InvalidRepoQid string
  | InvalidEnvironmentId string
  | InvalidEnvironmentQid string
  | InvalidObjId string
  | InvalidDeploymentId string
  | InvalidDeploymentNonce string
  | InvalidDeploymentQid string
  | InvalidRegionId string
  | InvalidServiceAddressTemplate string string
  | InvalidResourceId string
  | InvalidResourceQid string
  | InvalidGitRef string

record SourceFrame =
  sf_module_id :: string
  sf_span :: string
  sf_name :: string

type_synonym SourceTrace = "SourceFrame list"

section \<open>Organisations, repositories and regions\<close>

datatype OrgId = OrgId (org_str: string)

definition OrgId_from_str :: "string \<Rightarrow> ParseIdError + OrgId" where
  "OrgId_from_str s = (if \<not> is_valid_symbol s then Inl (InvalidOrgId s) else Inr (OrgId s))"

datatype RepoId = RepoId (repo_str: string)

definition RepoId_from_str :: "string \<Rightarrow> ParseIdError + RepoId" where
  "RepoId_from_str s = (if \<not> is_valid_symbol s then Inl (InvalidRepoId s) else Inr (RepoId s))"

datatype RegionId = RegionId (region_str: string)

definition RegionId_from_str :: "string \<Rightarrow> ParseIdError + RegionId" where
  "RegionId_from_str s = (if \<not> is_valid_region s then Inl (InvalidRegionId s) else Inr (RegionId s))"

interpretation org_codec: string_codec "\<lambda>i. is_valid_symbol (org_str i)" org_str OrgId_from_str
  by unfold_locales (auto simp: OrgId_from_str_def split: if_splits)

interpretation repo_codec: string_codec "\<lambda>i. is_valid_symbol (repo_str i)" repo_str RepoId_from_str
  by unfold_locales (auto simp: RepoId_from_str_def split: if_splits)

interpretation region_codec: string_codec "\<lambda>i. is_valid_region (region_str i)" region_str RegionId_from_str
  by unfold_locales (auto simp: RegionId_from_str_def split: if_splits)

text \<open>None of the separators of the qualified forms is a character of a symbol or a region.\<close>

lemma symbol_chars:
  "is_valid_symbol s \<Longrightarrow> c \<in> set s \<Longrightarrow> is_ascii_alphanumeric c \<or> c = CHR ''_''"
  by (auto simp: is_valid_symbol_def is_ascii_alphanumeric_def list_all_iff split: list.splits)

lemma symbol_no_separator:
  assumes "is_valid_symbol s"
  shows "CHR ''/'' \<notin> set s" "CHR '':'' \<notin> set s" "CHR ''@'' \<notin> set s"
proof -
  have "\<not> (is_ascii_alphanumeric c \<or> c = CHR ''_'')" if "c \<in> set ''/:@''" for c
    using that by (auto simp: byte_class_defs)
  then show "CHR ''/'' \<notin> set s" "CHR '':'' \<notin> set s" "CHR ''@'' \<notin> set s"
    using symbol_chars [OF assms] by auto
qed

lemma symbol_nonempty: "is_valid_symbol s \<Longrightarrow> s \<noteq> []"
  by (auto simp: is_valid_symbol_def)

lemma region_nonempty: "is_valid_region s \<Longrightarrow> s \<noteq> []"
  by (simp add: is_valid_region_def)

lemma region_no_colon: "is_valid_region s \<Longrightarrow> CHR '':'' \<notin> set s"
  by (auto simp: is_valid_region_def list_all_iff byte_class_defs dest: bspec)

section \<open>Service-address templates\<close>

definition DEFAULT_SERVICE_ADDRESS_TEMPLATE :: string where
  "DEFAULT_SERVICE_ADDRESS_TEMPLATE = ''{service}.{region}.int.skyr.cloud''"

datatype ServiceAddressTemplate = ServiceAddressTemplate (template_str: string)

definition default_template :: ServiceAddressTemplate where
  "default_template = ServiceAddressTemplate DEFAULT_SERVICE_ADDRESS_TEMPLATE"

definition template_format :: "ServiceAddressTemplate \<Rightarrow> string \<Rightarrow> RegionId \<Rightarrow> string" where
  "template_format t service region =
     replace_str ''{region}'' (region_str region)
       (replace_str ''{service}'' service (template_str t))"

text \<open>
  The scanning loop of \<^verbatim>\<open>validate_service_address_template\<close>: the bytes from position \<open>i\<close> on and
  whether \<^verbatim>\<open>{service}\<close> was seen.
\<close>

function template_scan :: "string \<Rightarrow> bool \<Rightarrow> string \<Rightarrow> ParseIdError + bool" where
  "template_scan template saw_service [] = Inr saw_service"
| "template_scan template saw_service (c # cs) =
     (if c = CHR ''{'' then
        (case find_char (CHR ''}'') cs of
           None \<Rightarrow> Inl (InvalidServiceAddressTemplate template ''unmatched `{`'')
         | Some end \<Rightarrow>
             let placeholder = take end cs in
             if placeholder = ''service'' then template_scan template True (drop (end + 1) cs)
             else if placeholder = ''region'' then
               template_scan template saw_service (drop (end + 1) cs)
             else Inl (InvalidServiceAddressTemplate template
                   (''unknown placeholder `{'' @ placeholder @ ''}`'')))
      else if c = CHR ''}'' then
        Inl (InvalidServiceAddressTemplate template ''unmatched `}`'')
      else template_scan template saw_service cs)"
  by pat_completeness auto
termination
  by (relation "measure (\<lambda>(t, saw, s). length s)") auto

definition validate_service_address_template :: "string \<Rightarrow> ParseIdError + unit" where
  "validate_service_address_template s =
     (if s = [] then Inl (InvalidServiceAddressTemplate s ''template is empty'')
      else (case template_scan s False s of
              Inl e \<Rightarrow> Inl e
            | Inr saw_service \<Rightarrow>
                if \<not> saw_service then
                  Inl (InvalidServiceAddressTemplate s ''missing required `{service}` placeholder'')
                else Inr ()))"

definition ServiceAddressTemplate_from_str :: "string \<Rightarrow> ParseIdError + ServiceAddressTemplate" where
  "ServiceAddressTemplate_from_str s =
     (case validate_service_address_template s of
        Inl e \<Rightarrow> Inl e
      | Inr _ \<Rightarrow> Inr (ServiceAddressTemplate s))"

section \<open>Repositories and environments\<close>

record RepoQid =
  qid_org :: OrgId
  qid_repo :: RepoId

definition RepoQid_display :: "RepoQid \<Rightarrow> string" where
  "RepoQid_display q = org_str (qid_org q) @ ''/'' @ repo_str (qid_repo q)"

definition RepoQid_from_str :: "string \<Rightarrow> ParseIdError + RepoQid" where
  "RepoQid_from_str s =
     (case split_once ''/'' s of
        None \<Rightarrow> Inl (InvalidRepoQid s)
      | Some (o_part, r_part) \<Rightarrow>
          (case OrgId_from_str o_part of
             Inl _ \<Rightarrow> Inl (InvalidRepoQid s)
           | Inr o_id \<Rightarrow>
               (case RepoId_from_str r_part of
                  Inl _ \<Rightarrow> Inl (InvalidRepoQid s)
                | Inr r_id \<Rightarrow> Inr \<lparr>qid_org = o_id, qid_repo = r_id\<rparr>)))"

datatype EnvironmentId = EnvironmentId (env_str: string)

definition is_tag :: "EnvironmentId \<Rightarrow> bool" where
  "is_tag e \<longleftrightarrow> starts_with ''tag:'' (env_str e)"

definition from_git_ref :: "string \<Rightarrow> ParseIdError + EnvironmentId" where
  "from_git_ref full_ref =
     (case strip_prefix ''refs/heads/'' full_ref of
        Some name \<Rightarrow>
          if name = [] then Inl (InvalidGitRef full_ref) else Inr (EnvironmentId name)
      | None \<Rightarrow>
          (case strip_prefix ''refs/tags/'' full_ref of
             Some name \<Rightarrow>
               if name = [] then Inl (InvalidGitRef full_ref)
               else Inr (EnvironmentId (''tag:'' @ name))
           | None \<Rightarrow> Inl (InvalidGitRef full_ref)))"

definition to_git_ref :: "EnvironmentId \<Rightarrow> string" where
  "to_git_ref e =
     (case strip_prefix ''tag:'' (env_str e) of
        Some tag_name \<Rightarrow> ''refs/tags/'' @ tag_name
      | None \<Rightarrow> ''refs/heads/'' @ env_str e)"

definition EnvironmentId_from_str :: "string \<Rightarrow> ParseIdError + EnvironmentId" where
  "EnvironmentId_from_str s =
     (if s = [] then Inl (InvalidEnvironmentId s) else Inr (EnvironmentId s))"

record EnvironmentQid =
  env_repo :: RepoQid
  env_id :: EnvironmentId

definition EnvironmentQid_display :: "EnvironmentQid \<Rightarrow> string" where
  "EnvironmentQid_display q = RepoQid_display (env_repo q) @ ''::'' @ env_str (env_id q)"

definition EnvironmentQid_from_str :: "string \<Rightarrow> ParseIdError + EnvironmentQid" where
  "EnvironmentQid_from_str s =
     (case split_once ''::'' s of
        None \<Rightarrow> Inl (InvalidEnvironmentQid s)
      | Some (repo_part, env_part) \<Rightarrow>
          (case RepoQid_from_str repo_part of
             Inl _ \<Rightarrow> Inl (InvalidEnvironmentQid s)
           | Inr r \<Rightarrow>
               (case EnvironmentId_from_str env_part of
                  Inl _ \<Rightarrow> Inl (InvalidEnvironmentQid s)
                | Inr e \<Rightarrow> Inr \<lparr>env_repo = r, env_id = e\<rparr>)))"

section \<open>Object hashes, nonces and deployments\<close>

datatype ObjId = ObjId (oid_hex: string)

definition ObjId_from_str :: "string \<Rightarrow> ParseIdError + ObjId" where
  "ObjId_from_str s = (if \<not> is_valid_oid_hex s then Inl (InvalidObjId s) else Inr (ObjId s))"

datatype DeploymentNonce = DeploymentNonce (as_u64: "64 word")

definition DeploymentNonce_zero :: DeploymentNonce where
  "DeploymentNonce_zero = DeploymentNonce 0"

definition DeploymentNonce_display :: "DeploymentNonce \<Rightarrow> string" where
  "DeploymentNonce_display n = hex_padded 16 (unat (as_u64 n))"

definition DeploymentNonce_from_str :: "string \<Rightarrow> ParseIdError + DeploymentNonce" where
  "DeploymentNonce_from_str s =
     (if \<not> is_valid_nonce_hex s then Inl (InvalidDeploymentNonce s)
      else (case u64_from_str_radix_16 s of
              None \<Rightarrow> Inl (InvalidDeploymentNonce s)
            | Some v \<Rightarrow> Inr (DeploymentNonce (of_nat v))))"

record DeploymentId =
  did_commit :: ObjId
  did_nonce :: DeploymentNonce

definition DeploymentId_short :: "DeploymentId \<Rightarrow> string" where
  "DeploymentId_short d =
     take 6 (oid_hex (did_commit d)) @ ''.'' @ take 2 (DeploymentNonce_display (did_nonce d))"

definition DeploymentId_display :: "DeploymentId \<Rightarrow> string" where
  "DeploymentId_display d = oid_hex (did_commit d) @ ''.'' @ DeploymentNonce_display (did_nonce d)"

definition DeploymentId_from_str :: "string \<Rightarrow> ParseIdError + DeploymentId" where
  "DeploymentId_from_str s =
     (case rsplit_once ''.'' s of
        None \<Rightarrow> Inl (InvalidDeploymentId s)
      | Some (commit_part, nonce_part) \<Rightarrow>
          (case ObjId_from_str commit_part of
             Inl _ \<Rightarrow> Inl (InvalidDeploymentId s)
           | Inr c \<Rightarrow>
               (case DeploymentNonce_from_str nonce_part of
                  Inl _ \<Rightarrow> Inl (InvalidDeploymentId s)
                | Inr n \<Rightarrow> Inr \<lparr>did_commit = c, did_nonce = n\<rparr>)))"

section \<open>Resources and qualified identifiers\<close>

record ResourceId =
  rid_region :: RegionId
  rid_typ :: string
  rid_name :: string

definition ResourceId_display :: "ResourceId \<Rightarrow> string" where
  "ResourceId_display r = region_str (rid_region r) @ '':'' @ rid_typ r @ '':'' @ rid_name r"

definition ResourceId_from_str :: "string \<Rightarrow> ParseIdError + ResourceId" where
  "ResourceId_from_str s =
     (case find_char (CHR '':'') s of
        None \<Rightarrow> Inl (InvalidResourceId s)
      | Some first \<Rightarrow>
          let region_part = take first s; rest = drop (first + 1) s in
          (case RegionId_from_str region_part of
             Inl _ \<Rightarrow> Inl (InvalidResourceId s)
           | Inr r \<Rightarrow>
               (case find_char (CHR '':'') rest of
                  None \<Rightarrow> Inl (InvalidResourceId s)
                | Some sep \<Rightarrow>
                    if sep = 0 \<or> sep = length rest - 1 then Inl (InvalidResourceId s)
                    else
                      let t = take sep rest; n = drop (sep + 1) rest in
                      if starts_with '':'' n \<or> contains_str ''::'' n
                      then Inl (InvalidResourceId s)
                      else Inr \<lparr>rid_region = r, rid_typ = t, rid_name = n\<rparr>)))"

record ResourceQid =
  res_env :: EnvironmentQid
  res_id :: ResourceId

definition ResourceQid_display :: "ResourceQid \<Rightarrow> string" where
  "ResourceQid_display q = EnvironmentQid_display (res_env q) @ ''::'' @ ResourceId_display (res_id q)"

definition ResourceQid_from_str :: "string \<Rightarrow> ParseIdError + ResourceQid" where
  "ResourceQid_from_str s =
     (case rsplit_once ''::'' s of
        None \<Rightarrow> Inl (InvalidResourceQid s)
      | Some (env_part, resource_part) \<Rightarrow>
          (case EnvironmentQid_from_str env_part of
             Inl _ \<Rightarrow> Inl (InvalidResourceQid s)
           | Inr e \<Rightarrow>
               (case ResourceId_from_str resource_part of
                  Inl _ \<Rightarrow> Inl (InvalidResourceQid s)
                | Inr r \<Rightarrow> Inr \<lparr>res_env = e, res_id = r\<rparr>)))"

record DeploymentQid =
  dep_env :: EnvironmentQid
  dep_id :: DeploymentId

definition DeploymentQid_display :: "DeploymentQid \<Rightarrow> string" where
  "DeploymentQid_display q = EnvironmentQid_display (dep_env q) @ ''@'' @ DeploymentId_display (dep_id q)"

definition DeploymentQid_from_str :: "string \<Rightarrow> ParseIdError + DeploymentQid" where
  "DeploymentQid_from_str s =
     (case rsplit_once ''@'' s of
        None \<Rightarrow> Inl (InvalidDeploymentQid s)
      | Some (env_part, deploy_part) \<Rightarrow>
          (case EnvironmentQid_from_str env_part of
             Inl _ \<Rightarrow> Inl (InvalidDeploymentQid s)
           | Inr e \<Rightarrow>
               (case DeploymentId_from_str deploy_part of
                  Inl _ \<Rightarrow> Inl (InvalidDeploymentQid s)
                | Inr d \<Rightarrow> Inr \<lparr>dep_env = e, dep_id = d\<rparr>)))"

section \<open>Well-formed identifiers and their round trips\<close>

definition RepoQid_wf :: "RepoQid \<Rightarrow> bool" where
  "RepoQid_wf q \<longleftrightarrow> is_valid_symbol (org_str (qid_org q)) \<and> is_valid_symbol (repo_str (qid_repo q))"

definition EnvironmentQid_wf :: "EnvironmentQid \<Rightarrow> bool" where
  "EnvironmentQid_wf q \<longleftrightarrow> RepoQid_wf (env_repo q) \<and> env_str (env_id q) \<noteq> []"

definition DeploymentId_wf :: "DeploymentId \<Rightarrow> bool" where
  "DeploymentId_wf d \<longleftrightarrow> is_valid_oid_hex (oid_hex (did_commit d))"

definition ResourceId_wf :: "ResourceId \<Rightarrow> bool" where
  "ResourceId_wf r \<longleftrightarrow> is_valid_region (region_str (rid_region r))
     \<and> rid_typ r \<noteq> [] \<and> CHR '':'' \<notin> set (rid_typ r)
     \<and> rid_name r \<noteq> [] \<and> hd (rid_name r) \<noteq> CHR '':'' \<and> \<not> contains_str ''::'' (rid_name r)"

definition ResourceQid_wf :: "ResourceQid \<Rightarrow> bool" where
  "ResourceQid_wf q \<longleftrightarrow> EnvironmentQid_wf (res_env q) \<and> ResourceId_wf (res_id q)"

definition DeploymentQid_wf :: "DeploymentQid \<Rightarrow> bool" where
  "DeploymentQid_wf q \<longleftrightarrow> EnvironmentQid_wf (dep_env q) \<and> DeploymentId_wf (dep_id q)"

interpretation env_codec: string_codec "\<lambda>e. env_str e \<noteq> []" env_str EnvironmentId_from_str
  by unfold_locales (auto simp: EnvironmentId_from_str_def split: if_splits)

interpretation oid_codec: string_codec "\<lambda>i. is_valid_oid_hex (oid_hex i)" oid_hex ObjId_from_str
  by unfold_locales (auto simp: ObjId_from_str_def split: if_splits)

interpretation repo_qid: joined_codec "\<lambda>i. is_valid_symbol (org_str i)" org_str OrgId_from_str
  "\<lambda>i. is_valid_symbol (repo_str i)" repo_str RepoId_from_str
  qid_org qid_repo "\<lambda>a b. \<lparr>qid_org = a, qid_repo = b\<rparr>" "''/''" "split_once ''/''"
  InvalidRepoQid RepoQid_wf RepoQid_display RepoQid_from_str
  by unfold_locales
    (auto simp: RepoQid_wf_def RepoQid_display_def RepoQid_from_str_def str_simps symbol_no_separator)

lemma RepoQid_display_no_colon:
  "RepoQid_wf q \<Longrightarrow> CHR '':'' \<notin> set (RepoQid_display q)"
  by (auto simp: RepoQid_wf_def RepoQid_display_def dest: symbol_no_separator)

interpretation env_qid: joined_codec RepoQid_wf RepoQid_display RepoQid_from_str
  "\<lambda>e. env_str e \<noteq> []" env_str EnvironmentId_from_str
  env_repo env_id "\<lambda>a b. \<lparr>env_repo = a, env_id = b\<rparr>" "''::''" "split_once ''::''"
  InvalidEnvironmentQid EnvironmentQid_wf EnvironmentQid_display EnvironmentQid_from_str
proof unfold_locales
  fix s x y show "split_once ''::'' s = Some (x, y) \<Longrightarrow> s = x @ ''::'' @ y"
    by (rule split_once_sound)
next
  fix a b assume "RepoQid_wf a"
  then show "split_once ''::'' (RepoQid_display a @ ''::'' @ env_str b) = Some (RepoQid_display a, env_str b)"
    by (intro split_once_hd_notin) (auto dest: RepoQid_display_no_colon)
qed (auto simp: EnvironmentQid_wf_def EnvironmentQid_display_def EnvironmentQid_from_str_def)

lemma nonce_hex_of_u64: "is_valid_nonce_hex (hex_padded 16 (unat (w :: 64 word)))"
proof -
  have "unat w < 16 ^ Suc 15" using unsigned_less [of w] by simp
  then have "length (hex_padded (Suc 15) (unat w)) = Suc 15" by (rule hex_padded_length)
  then show ?thesis
    using hex_padded_lower [of _ 16 "unat w"]
    by (auto simp: is_valid_nonce_hex_def list_all_iff is_lower_hex_def)
qed

lemma nonce_hex_reads:
  assumes "is_valid_nonce_hex s" "u64_from_str_radix_16 s = Some v"
  shows "v < 2 ^ 64 \<and> hex_padded 16 v = s"
proof -
  from assms(1) have lower: "\<forall>c \<in> set s. is_lower_hex c" and len: "length s = 16"
    by (auto simp: is_valid_nonce_hex_def list_all_iff is_lower_hex_def)
  then obtain c cs where s: "s = c # cs" by (cases s) auto
  then have "c \<noteq> CHR ''+''" using lower by (auto simp: is_lower_hex_def byte_class_defs)
  then have f: "hex_fold (2 ^ 64) 0 s = Some v"
    using assms(2) s by (simp add: u64_from_str_radix_16_def Let_def)
  have "hex_padded (length s) v = s" by (rule hex_fold_inverse) (use s lower f in auto)
  moreover have "v < 2 ^ 64" using hex_fold_bound [OF f] by simp
  ultimately show ?thesis using len by simp
qed

lemma u64_radix_padded: "u64_from_str_radix_16 (hex_padded 16 (unat (w :: 64 word))) = Some (unat w)"
proof -
  let ?s = "hex_padded 16 (unat w)"
  have "?s \<noteq> []" by (simp add: hex_padded_def Let_def)
  then obtain c cs where s: "?s = c # cs" by (cases ?s) auto
  then have "is_lower_hex c" using hex_padded_lower [of c 16 "unat w"] by simp
  then have "c \<noteq> CHR ''+''" by (auto simp: is_lower_hex_def byte_class_defs)
  moreover have "hex_fold (2 ^ 64) 0 ?s = Some (unat w)"
    using unsigned_less [of w] by (intro hex_fold_padded) simp
  ultimately show ?thesis using s by (simp add: u64_from_str_radix_16_def Let_def)
qed

interpretation nonce_codec: string_codec "\<lambda>_. True" DeploymentNonce_display DeploymentNonce_from_str
proof unfold_locales
  fix a show "DeploymentNonce_from_str (DeploymentNonce_display a) = Inr a"
    by (simp add: DeploymentNonce_from_str_def DeploymentNonce_display_def nonce_hex_of_u64
        u64_radix_padded)
next
  fix s a assume "DeploymentNonce_from_str s = Inr a"
  then obtain v where v: "is_valid_nonce_hex s" "u64_from_str_radix_16 s = Some v"
    "a = DeploymentNonce (of_nat v)"
    by (auto simp: DeploymentNonce_from_str_def split: if_splits option.splits)
  with nonce_hex_reads show "True \<and> DeploymentNonce_display a = s"
    by (auto simp: DeploymentNonce_display_def unat_of_nat)
qed

lemma lower_hex_no_separator:
  "is_lower_hex c \<Longrightarrow> c \<noteq> CHR ''.'' \<and> c \<noteq> CHR ''@'' \<and> c \<noteq> CHR '':''"
  by (auto simp: is_lower_hex_def byte_class_defs)

lemma nonce_display_no_separator:
  "CHR ''.'' \<notin> set (DeploymentNonce_display n)" "CHR ''@'' \<notin> set (DeploymentNonce_display n)"
  by (auto simp: DeploymentNonce_display_def dest: hex_padded_lower lower_hex_no_separator)

interpretation deployment_id: joined_codec "\<lambda>i. is_valid_oid_hex (oid_hex i)" oid_hex ObjId_from_str
  "\<lambda>_. True" DeploymentNonce_display DeploymentNonce_from_str
  did_commit did_nonce "\<lambda>a b. \<lparr>did_commit = a, did_nonce = b\<rparr>" "''.''" "rsplit_once ''.''"
  InvalidDeploymentId DeploymentId_wf DeploymentId_display DeploymentId_from_str
  by unfold_locales
    (auto simp: DeploymentId_wf_def DeploymentId_display_def DeploymentId_from_str_def
      nonce_display_no_separator str_simps)

lemma DeploymentId_display_no_at:
  "DeploymentId_wf d \<Longrightarrow> CHR ''@'' \<notin> set (DeploymentId_display d)"
  by (auto simp: DeploymentId_wf_def DeploymentId_display_def is_valid_oid_hex_def list_all_iff
      nonce_display_no_separator byte_class_defs dest: bspec)

interpretation deployment_qid: joined_codec EnvironmentQid_wf EnvironmentQid_display EnvironmentQid_from_str
  DeploymentId_wf DeploymentId_display DeploymentId_from_str
  dep_env dep_id "\<lambda>a b. \<lparr>dep_env = a, dep_id = b\<rparr>" "''@''" "rsplit_once ''@''"
  InvalidDeploymentQid DeploymentQid_wf DeploymentQid_display DeploymentQid_from_str
  by unfold_locales
    (auto simp: DeploymentQid_wf_def DeploymentQid_display_def DeploymentQid_from_str_def
      DeploymentId_display_no_at str_simps)

text \<open>
  A resource identifier is printed as three colon-separated parts and parsed by looking for the
  first two colons, so it is not an instance of the two-part interface.
\<close>

lemma ResourceId_from_str_parts:
  assumes "CHR '':'' \<notin> set r" "CHR '':'' \<notin> set t"
  shows "ResourceId_from_str (r @ '':'' @ t @ '':'' @ n) =
    (if is_valid_region r \<and> t \<noteq> [] \<and> n \<noteq> [] \<and> \<not> starts_with '':'' n \<and> \<not> contains_str ''::'' n
     then Inr \<lparr>rid_region = RegionId r, rid_typ = t, rid_name = n\<rparr>
     else Inl (InvalidResourceId (r @ '':'' @ t @ '':'' @ n)))"
proof -
  have "find_char (CHR '':'') (r @ CHR '':'' # x) = Some (length r)" for x
    using assms(1) by (simp add: find_char_def str_simps)
  moreover have "find_char (CHR '':'') (t @ CHR '':'' # x) = Some (length t)" for x
    using assms(2) by (simp add: find_char_def str_simps)
  ultimately show ?thesis
    by (auto simp: ResourceId_from_str_def RegionId_from_str_def Let_def)
qed

lemma ResourceId_from_str_Inr:
  assumes "ResourceId_from_str s = Inr r"
  shows "ResourceId_wf r \<and> ResourceId_display r = s"
proof -
  from assms obtain i where "find_char (CHR '':'') s = Some i"
    by (auto simp: ResourceId_from_str_def split: option.splits)
  then obtain a b where s: "s = a @ CHR '':'' # b" "CHR '':'' \<notin> set a" "length a = i"
    by (auto simp: find_char_Some)
  have "find_char (CHR '':'') b \<noteq> None"
  proof
    assume "find_char (CHR '':'') b = None"
    with assms s \<open>find_char _ s = Some i\<close> show False
      by (auto simp: ResourceId_from_str_def Let_def split: sum.splits)
  qed
  then obtain t n where b: "b = t @ CHR '':'' # n" "CHR '':'' \<notin> set t"
    by (auto simp: find_char_Some)
  have "s = a @ '':'' @ t @ '':'' @ n" using s b by simp
  with assms ResourceId_from_str_parts [OF s(2) b(2), of n] show ?thesis
    by (cases n) (auto simp: ResourceId_wf_def ResourceId_display_def b starts_with_def
        split: if_splits)
qed

interpretation resource_id: string_codec ResourceId_wf ResourceId_display ResourceId_from_str
proof unfold_locales
  fix r assume wf: "ResourceId_wf r"
  then have "\<not> starts_with '':'' (rid_name r)"
    by (cases "rid_name r") (auto simp: ResourceId_wf_def starts_with_def)
  with wf show "ResourceId_from_str (ResourceId_display r) = Inr r"
    using ResourceId_from_str_parts [of "region_str (rid_region r)" "rid_typ r" "rid_name r"]
    by (simp add: ResourceId_wf_def ResourceId_display_def region_no_colon)
qed (rule ResourceId_from_str_Inr)

lemma contains_twice_append:
  assumes "CHR '':'' \<notin> set x" "y = [] \<or> hd y \<noteq> CHR '':''"
  shows "contains_str ''::'' (x @ CHR '':'' # y) \<longleftrightarrow> contains_str ''::'' y"
proof -
  have "(\<exists>a b. x @ CHR '':'' # y = a @ CHR '':'' # CHR '':'' # b) \<longleftrightarrow>
    (\<exists>a b. y = a @ CHR '':'' # CHR '':'' # b)" (is "?l \<longleftrightarrow> ?r")
  proof
    assume ?l
    then obtain a b where "x @ CHR '':'' # y = a @ CHR '':'' # CHR '':'' # b" by blast
    then obtain c where "a = x @ CHR '':'' # c \<and> y = c @ CHR '':'' # CHR '':'' # b \<or>
      a = x \<and> y = CHR '':'' # b"
      using assms(1)
      by (fastforce simp: append_eq_append_conv2 append_eq_Cons_conv Cons_eq_append_conv)
    then show ?r using assms(2) by auto
  next
    assume ?r
    then show ?l by (metis append.assoc append_Cons)
  qed
  then show ?thesis by (simp add: contains_str_def split_once_rev_None)
qed

lemma ResourceId_display_split:
  assumes "ResourceId_wf r"
  shows "\<not> contains_str ''::'' (ResourceId_display r)" "ResourceId_display r \<noteq> []"
    "hd (ResourceId_display r) \<noteq> CHR '':''"
proof -
  let ?g = "region_str (rid_region r)"
  have g: "?g \<noteq> []" "CHR '':'' \<notin> set ?g"
    using assms region_no_colon by (auto simp: ResourceId_wf_def is_valid_region_def)
  then have g': "hd ?g \<noteq> CHR '':''" by (metis list.set_sel(1))
  have t: "hd (rid_typ r) \<noteq> CHR '':''" using assms by (metis ResourceId_wf_def list.set_sel(1))
  show "\<not> contains_str ''::'' (ResourceId_display r)"
    using assms g t contains_twice_append [of ?g "rid_typ r @ CHR '':'' # rid_name r"]
      contains_twice_append [of "rid_typ r" "rid_name r"]
    by (simp add: ResourceId_wf_def ResourceId_display_def)
  show "ResourceId_display r \<noteq> []" by (simp add: ResourceId_display_def)
  show "hd (ResourceId_display r) \<noteq> CHR '':''" using g g' by (simp add: ResourceId_display_def)
qed

interpretation resource_qid: joined_codec EnvironmentQid_wf EnvironmentQid_display EnvironmentQid_from_str
  ResourceId_wf ResourceId_display ResourceId_from_str
  res_env res_id "\<lambda>a b. \<lparr>res_env = a, res_id = b\<rparr>" "''::''" "rsplit_once ''::''"
  InvalidResourceQid ResourceQid_wf ResourceQid_display ResourceQid_from_str
proof unfold_locales
  fix s x y show "rsplit_once ''::'' s = Some (x, y) \<Longrightarrow> s = x @ ''::'' @ y"
    by (rule rsplit_once_sound)
next
  fix a :: EnvironmentQid and b assume "ResourceId_wf b"
  then show "rsplit_once ''::'' (EnvironmentQid_display a @ ''::'' @ ResourceId_display b) =
      Some (EnvironmentQid_display a, ResourceId_display b)"
    using rsplit_once_twice [of "CHR '':''" "ResourceId_display b"] ResourceId_display_split [of b]
    by simp
qed (auto simp: ResourceQid_wf_def ResourceQid_display_def ResourceQid_from_str_def)

section \<open>Example values\<close>

text \<open>A deployment and a resource of one environment, used to instantiate statements.\<close>

definition example_env :: EnvironmentQid where
  "example_env = \<lparr>env_repo = \<lparr>qid_org = OrgId ''acme'', qid_repo = RepoId ''shop''\<rparr>, env_id = EnvironmentId ''main''\<rparr>"

definition example_did :: "64 word \<Rightarrow> DeploymentId" where
  "example_did n = \<lparr>did_commit = ObjId (replicate 40 (CHR ''a'')), did_nonce = DeploymentNonce n\<rparr>"

definition example_dep :: DeploymentQid where
  "example_dep = \<lparr>dep_env = example_env, dep_id = example_did 7\<rparr>"

lemma example_dep_wf: "DeploymentQid_wf (example_dep\<lparr>dep_id := example_did n\<rparr>)"
  by (simp add: DeploymentQid_wf_def EnvironmentQid_wf_def RepoQid_wf_def DeploymentId_wf_def example_dep_def example_env_def
      example_did_def is_valid_symbol_def is_valid_oid_hex_def list_all_iff byte_class_defs byte_of_def)

definition example_rid :: "string \<Rightarrow> ResourceId" where
  "example_rid n = \<lparr>rid_region = RegionId ''stockholm'', rid_typ = ''Std/Random.Int'', rid_name = n\<rparr>"

definition example_res :: "string \<Rightarrow> ResourceQid" where
  "example_res n = \<lparr>res_env = example_env, res_id = example_rid n\<rparr>"

section \<open>Properties of the identifier types\<close>

text \<open>
  The grammar the template scan accepts: literal bytes other than braces, and the two
  placeholders.
\<close>

datatype template_piece = Lit char | Service_Hole | Region_Hole

fun piece_text :: "template_piece \<Rightarrow> string" where
  "piece_text (Lit c) = [c]"
| "piece_text Service_Hole = ''{service}''"
| "piece_text Region_Hole = ''{region}''"

fun piece_filled :: "string \<Rightarrow> string \<Rightarrow> template_piece \<Rightarrow> string" where
  "piece_filled service r (Lit c) = [c]"
| "piece_filled service r Service_Hole = service"
| "piece_filled service r Region_Hole = r"

definition pieces_ok :: "template_piece list \<Rightarrow> bool" where
  "pieces_ok ps \<longleftrightarrow> (\<forall>c. Lit c \<in> set ps \<longrightarrow> c \<noteq> CHR ''{'' \<and> c \<noteq> CHR ''}'')"

lemma template_scan_pieces:
  "template_scan t saw s = Inr saw' \<Longrightarrow>
   \<exists>ps. s = concat (map piece_text ps) \<and> pieces_ok ps \<and> (saw' \<longleftrightarrow> saw \<or> Service_Hole \<in> set ps)"
proof (induction t saw s rule: template_scan.induct)
  case (1 t saw)
  then show ?case by (intro exI [of _ "[]"]) (simp add: pieces_ok_def)
next
  case (2 t saw c cs)
  have step: "\<exists>ps. c # cs = concat (map piece_text ps) \<and> pieces_ok ps
      \<and> (saw' \<longleftrightarrow> saw \<or> Service_Hole \<in> set ps)"
    if "c # cs = piece_text p @ rest" "pieces_ok [p]"
      "\<exists>ps. rest = concat (map piece_text ps) \<and> pieces_ok ps
         \<and> (saw' \<longleftrightarrow> (saw \<or> p = Service_Hole) \<or> Service_Hole \<in> set ps)" for p rest
  proof -
    from that(3) obtain ps where "rest = concat (map piece_text ps)" "pieces_ok ps"
      "saw' \<longleftrightarrow> (saw \<or> p = Service_Hole) \<or> Service_Hole \<in> set ps" by blast
    with that(1,2) show ?thesis
      by (intro exI [of _ "p # ps"]) (auto simp: pieces_ok_def)
  qed
  show ?case
  proof (cases "c = CHR ''{''")
    case True
    with "2.prems" obtain i where i: "find_char (CHR ''}'') cs = Some i"
      by (auto split: option.splits)
    then have cs: "cs = take i cs @ CHR ''}'' # drop (i + 1) cs"
      by (auto simp: find_char_Some)
    consider "take i cs = ''service''" | "take i cs = ''region''"
      using "2.prems" True i by (auto simp: Let_def split: if_splits)
    then show ?thesis
    proof cases
      case 1
      have "template_scan t True (drop (i + 1) cs) = Inr saw'"
        using "2.prems" True i 1 by simp
      then have "\<exists>ps. drop (i + 1) cs = concat (map piece_text ps) \<and> pieces_ok ps
          \<and> (saw' \<longleftrightarrow> True \<or> Service_Hole \<in> set ps)"
        using "2.IH"(1) [OF True i refl 1] by simp
      then show ?thesis
        using True cs 1 by (intro step [of Service_Hole "drop (i + 1) cs"]) (auto simp: pieces_ok_def)
    next
      case 2
      have "template_scan t saw (drop (i + 1) cs) = Inr saw'"
        using "2.prems" True i 2 by simp
      then have "\<exists>ps. drop (i + 1) cs = concat (map piece_text ps) \<and> pieces_ok ps
          \<and> (saw' \<longleftrightarrow> saw \<or> Service_Hole \<in> set ps)"
        using "2.IH"(2) [OF True i refl] 2 by simp
      then show ?thesis
        using True cs 2 by (intro step [of Region_Hole "drop (i + 1) cs"]) (auto simp: pieces_ok_def)
    qed
  next
    case False
    with "2.prems" have "c \<noteq> CHR ''}''" "template_scan t saw cs = Inr saw'"
      by (auto split: if_splits)
    with "2.IH"(3) False show ?thesis
      by (intro step [of "Lit c" cs]) (auto simp: pieces_ok_def)
  qed
qed

lemma inert_region_hole: "inert ''{service}'' ''{region}''"
proof -
  have "\<not> starts_with ''{service}'' (b @ y)" if "''{region}'' = a @ b" "b \<noteq> []" for a b y
    using that by (cases a) (auto simp: starts_with_def Cons_eq_append_conv append_eq_Cons_conv)
  then show ?thesis by (auto simp: inert_def)
qed

lemma fill_service:
  "pieces_ok ps \<Longrightarrow>
   replace_str ''{service}'' service (concat (map piece_text ps)) =
   concat (map (piece_filled service ''{region}'') ps)"
proof (induction ps)
  case (Cons p ps)
  then have ok: "pieces_ok ps" by (simp add: pieces_ok_def)
  show ?case
  proof (cases p)
    case (Lit c)
    with Cons.prems have "inert ''{service}'' [c]"
      by (intro inert_hd_notin) (auto simp: pieces_ok_def)
    with Lit ok Cons.IH show ?thesis using replace_str_inert [of "''{service}''" "[c]"] by simp
  next
    case Service_Hole
    with ok Cons.IH show ?thesis using replace_str_hit [of "''{service}''"] by simp
  next
    case Region_Hole
    with ok Cons.IH show ?thesis
      using replace_str_inert [OF inert_region_hole] by simp
  qed
qed simp

lemma fill_region:
  "pieces_ok ps \<Longrightarrow> CHR ''{'' \<notin> set service \<Longrightarrow>
   replace_str ''{region}'' r (concat (map (piece_filled service ''{region}'') ps)) =
   concat (map (piece_filled service r) ps)"
proof (induction ps)
  case (Cons p ps)
  then have ok: "pieces_ok ps" by (simp add: pieces_ok_def)
  show ?case
  proof (cases p)
    case (Lit c)
    with Cons.prems have "inert ''{region}'' [c]"
      by (intro inert_hd_notin) (auto simp: pieces_ok_def)
    with Lit ok Cons show ?thesis using replace_str_inert [of "''{region}''" "[c]"] by simp
  next
    case Service_Hole
    have "inert ''{region}'' service" by (rule inert_hd_notin) (use Cons.prems in auto)
    with Service_Hole ok Cons show ?thesis using replace_str_inert by simp
  next
    case Region_Hole
    with ok Cons show ?thesis using replace_str_hit [of "''{region}''"] by simp
  qed
qed simp

lemma template_format_pieces:
  assumes "ServiceAddressTemplate_from_str s = Inr t" "CHR ''{'' \<notin> set service"
  obtains ps where "pieces_ok ps" "Service_Hole \<in> set ps" "s = concat (map piece_text ps)"
    "template_format t service r = concat (map (piece_filled service (region_str r)) ps)"
proof -
  from assms(1) have t: "t = ServiceAddressTemplate s" and "template_scan s False s = Inr True"
    by (auto simp: ServiceAddressTemplate_from_str_def validate_service_address_template_def
        split: sum.splits if_splits)
  with template_scan_pieces [of s False s True] obtain ps where
    "s = concat (map piece_text ps)" "pieces_ok ps" "Service_Hole \<in> set ps" by auto
  with t assms(2) show thesis
    by (intro that [of ps]) (auto simp: template_format_def fill_service fill_region)
qed


text \<open>
  The text of a deployment QID identifies it: parsing accepts exactly the texts that
  well-formed deployment QIDs print, with the 64-bit nonce written as 16 hexadecimal digits, and
  returns the value printed.
\<close>

theorem DeploymentQid_round_trip:
  "DeploymentQid_from_str s = Inr q \<longleftrightarrow> DeploymentQid_wf q \<and> s = DeploymentQid_display q"
  by (rule deployment_qid.joined.parse_Inr_iff)


text \<open>
  A service-address template that validation accepts is a sequence of literal bytes and
  \<^verbatim>\<open>{service}\<close> and \<^verbatim>\<open>{region}\<close> placeholders with at least one \<^verbatim>\<open>{service}\<close>, and formatting it for a
  service name without an opening brace fills every placeholder and changes nothing else.
\<close>

theorem template_format_fills:
  assumes "ServiceAddressTemplate_from_str s = Inr t" "CHR ''{'' \<notin> set service"
  shows "\<exists>ps. pieces_ok ps \<and> Service_Hole \<in> set ps \<and> s = concat (map piece_text ps)
    \<and> template_format t service r = concat (map (piece_filled service (region_str r)) ps)"
  using template_format_pieces [OF assms] by metis

theorem template_format_fills_witness:
  "\<exists>ps. pieces_ok ps \<and> Service_Hole \<in> set ps
     \<and> DEFAULT_SERVICE_ADDRESS_TEMPLATE = concat (map piece_text ps)
     \<and> template_format default_template ''rq'' (RegionId ''stockholm'')
       = concat (map (piece_filled ''rq'' ''stockholm'') ps)"
proof -
  have "ServiceAddressTemplate_from_str DEFAULT_SERVICE_ADDRESS_TEMPLATE = Inr default_template"
    by code_simp
  from template_format_fills [OF this, of "''rq''" "RegionId ''stockholm''"]
  show ?thesis by simp
qed

end
