(* ===== verification/Amqp.thy ===== *)
theory Amqp
  imports Ids
begin

text \<open>
  What the two sharded queues of the system (\<^verbatim>\<open>crates/rq\<close> and \<^verbatim>\<open>crates/rtq\<close>) share: the calls they make
  to the message broker, decimal formatting, the \<^verbatim>\<open>SipHasher\<close> of the Rust standard library, and
  the contract of a sharded queue. The broker itself is a parameter: a function from the calls
  made so far (the last one included) to the error of the last call, if it fails.
\<close>

section \<open>Workers and deliveries\<close>

text \<open>How a delivery is settled, and how the arguments of a worker process can be wrong.\<close>

datatype Settlement = Ack | Nack bool

datatype StartError = NoLocalWorkers | NoWorkers | IndexTooLarge | TooManyLocalWorkers

definition u16_saturating_add :: "16 word \<Rightarrow> 16 word \<Rightarrow> 16 word" where
  "u16_saturating_add a b = of_nat (min (unat a + unat b) (2 ^ 16 - 1))"

section \<open>Calls to the broker\<close>

datatype BrokerCall =
    Connect string
  | CreateChannel
  | ExchangeDeclare string
  | BasicQos "16 word"
  | QueueDeclare string
  | QueueBind string string string
  | BasicConsume string string
  | BasicPublish string string string
  | ConfirmPublish

type_synonym 'e amqp = "BrokerCall list \<Rightarrow> 'e option"

definition amqp_call :: "'e amqp \<Rightarrow> BrokerCall \<Rightarrow> (BrokerCall list, 'e, unit) op" where
  "amqp_call amqp c log =
    (let log' = log @ [c] in (case amqp log' of Some e \<Rightarrow> Inl e | None \<Rightarrow> Inr (), log'))"

lemma amqp_call_Inr: "amqp_call amqp c log = (Inr u, log') \<longleftrightarrow> amqp (log @ [c]) = None \<and> log' = log @ [c]"
  by (auto simp: amqp_call_def Let_def split: option.splits)

lemma amqp_call_log [simp]: "snd (amqp_call amqp c log) = log @ [c]"
  by (simp add: amqp_call_def Let_def)

lemma map_err_amqp_call_Inr:
  "map_err f (amqp_call amqp c) log = (Inr u, log') \<longleftrightarrow> amqp (log @ [c]) = None \<and> log' = log @ [c]"
  by (auto simp: map_err_Inr amqp_call_Inr)

text \<open>The shards \<^verbatim>\<open>0..shard_count\<close>.\<close>

definition shard_range :: "16 word \<Rightarrow> 16 word list" where
  "shard_range n = map of_nat [0..<unat n]"

lemma set_shard_range [simp]: "set (shard_range n) = {s. s < n}"
proof -
  have "s \<in> of_nat ` {0..<unat n}" if "s < n" for s :: "16 word"
    using that by (intro image_eqI [of _ _ "unat s"]) (auto simp: word_less_nat_alt)
  moreover have "of_nat k < n" if "k < unat n" for k
    using that unsigned_less [of n] by (simp add: word_less_nat_alt unat_of_nat)
  ultimately show ?thesis by (auto simp: shard_range_def)
qed

section \<open>Decimal numbers\<close>

text \<open>The \<^verbatim>\<open>Display\<close> text of an unsigned integer.\<close>

fun dec_digits :: "nat \<Rightarrow> string" where
  "dec_digits n = (if n < 10 then [char_of (48 + n)] else dec_digits (n div 10) @ [char_of (48 + n mod 10)])"

declare dec_digits.simps [simp del]

definition u16_display :: "16 word \<Rightarrow> string" where
  "u16_display w = dec_digits (unat w)"

definition dec_value :: "string \<Rightarrow> nat" where
  "dec_value = foldl (\<lambda>n c. n * 10 + (of_char c - 48)) 0"

lemma dec_value_digits [simp]: "dec_value (dec_digits n) = n"
proof (induction n rule: dec_digits.induct)
  case (1 n)
  have "of_char (char_of (48 + n mod 10) :: char) = 48 + n mod 10"
    using mod_less_divisor [of 10 n] by (simp only: of_char_of) simp
  moreover have "n < 10 \<Longrightarrow> of_char (char_of (48 + n) :: char) = 48 + n"
    by (simp only: of_char_of) simp
  ultimately show ?case
    using 1 by (subst dec_digits.simps) (simp add: dec_value_def)
qed

lemma dec_digits_inj: "dec_digits m = dec_digits n \<longleftrightarrow> m = n"
  by (metis dec_value_digits)

lemma u16_display_inj [simp]: "u16_display v = u16_display w \<longleftrightarrow> v = w"
  by (simp add: u16_display_def dec_digits_inj word_unat_eq_iff)

lemma dec_digits_range: "c \<in> set (dec_digits n) \<Longrightarrow> 48 \<le> byte_of c \<and> byte_of c < 58"
proof (induction n rule: dec_digits.induct)
  case (1 n)
  have "m < 10 \<Longrightarrow> byte_of (char_of (48 + m)) = 48 + m" for m
    by (simp add: byte_of_def)
  then show ?case
    using 1 by (subst (asm) (2) dec_digits.simps) (auto split: if_splits)
qed

lemma dot_notin_u16 [simp]: "CHR ''.'' \<notin> set (u16_display w)"
  using dec_digits_range [of "CHR ''.''" "unat w"] by (auto simp: u16_display_def byte_of_def)

section \<open>SipHash\<close>

text \<open>
  \<^verbatim>\<open>std::hash::SipHasher\<close> is SipHash with two compression and four finalisation rounds over
  64-bit words. The message is read as little-endian words; the last one holds the remaining
  bytes and the length of the message. Hashing a \<^verbatim>\<open>str\<close> feeds its bytes and one byte 255.
\<close>

type_synonym sip_state = "64 word \<times> 64 word \<times> 64 word \<times> 64 word"

definition sip_round :: "sip_state \<Rightarrow> sip_state" where
  "sip_round = (\<lambda>(v0, v1, v2, v3).
    let v0 = v0 + v1; v2 = v2 + v3;
        v1 = word_rotl 13 v1; v1 = xor v1 v0; v0 = word_rotl 32 v0;
        v3 = word_rotl 16 v3; v3 = xor v3 v2;
        v0 = v0 + v3; v3 = word_rotl 21 v3; v3 = xor v3 v0;
        v2 = v2 + v1; v1 = word_rotl 17 v1; v1 = xor v1 v2; v2 = word_rotl 32 v2
    in (v0, v1, v2, v3))"

definition sip_block :: "64 word \<Rightarrow> sip_state \<Rightarrow> sip_state" where
  "sip_block m = (\<lambda>(v0, v1, v2, v3).
    (\<lambda>(v0, v1, v2, v3). (xor v0 m, v1, v2, v3)) ((sip_round ^^ 2) (v0, v1, v2, xor v3 m)))"

fun le_bytes :: "nat list \<Rightarrow> 64 word" where
  "le_bytes [] = 0"
| "le_bytes (b # bs) = of_nat b + 256 * le_bytes bs"

function sip_blocks :: "nat list \<Rightarrow> sip_state \<Rightarrow> nat list \<times> sip_state" where
  "sip_blocks bs v =
    (if length bs < 8 then (bs, v) else sip_blocks (drop 8 bs) (sip_block (le_bytes (take 8 bs)) v))"
  by pat_completeness auto
termination by (relation "measure (\<lambda>(bs, v). length bs)") auto

declare sip_blocks.simps [simp del]

definition sip_hash :: "64 word \<Rightarrow> 64 word \<Rightarrow> nat list \<Rightarrow> 64 word" where
  "sip_hash k0 k1 msg =
    (let (rest, v) = sip_blocks msg
           (xor k0 0x736f6d6570736575, xor k1 0x646f72616e646f6d,
            xor k0 0x6c7967656e657261, xor k1 0x7465646279746573);
         last = le_bytes rest + of_nat (length msg mod 256) * 2 ^ 56;
         (v0, v1, v2, v3) = sip_block last v;
         (w0, w1, w2, w3) = (sip_round ^^ 4) (v0, v1, xor v2 255, v3)
     in xor (xor (xor w0 w1) w2) w3)"

definition str_sip_hash :: "string \<Rightarrow> 64 word" where
  "str_sip_hash s = sip_hash 0 0 (map byte_of s @ [255])"

lemma shard_mod_less:
  assumes "n \<noteq> (0 :: 16 word)"
  shows "(ucast (h mod ucast n :: 64 word) :: 16 word) < n"
proof -
  have "unat n < 2 ^ 16" using unsigned_less [of n] by simp
  moreover from this have "unat (ucast n :: 64 word) = unat n"
    by (simp add: unsigned_ucast_eq take_bit_nat_eq_self)
  moreover have "0 < unat n" using assms by (simp add: unat_gt_0)
  ultimately have "unat (h mod ucast n) < unat n" and "unat n < 2 ^ 16"
    using mod_less_divisor [of "unat n" "unat h"] by (simp_all add: unat_mod_distrib)
  moreover from this have "unat (h mod ucast n) < 2 ^ 16" by linarith
  ultimately show ?thesis
    by (simp add: word_less_nat_alt unsigned_ucast_eq take_bit_nat_eq_self)
qed

section \<open>The contract of a sharded queue\<close>

text \<open>
  A publisher maps the key of a message to a shard and publishes with the routing key of the
  shard; each worker binds its queue to the routing keys of the shards it owns.
\<close>

locale sharded_queue =
  fixes worker :: "16 word \<Rightarrow> 16 word \<Rightarrow> 'w"
    and owns :: "'w \<Rightarrow> 16 word \<Rightarrow> bool"
    and shard_for :: "string \<Rightarrow> 16 word \<Rightarrow> 16 word option"
    and routing_key :: "16 word \<Rightarrow> string"
    and queue_name :: "'w \<Rightarrow> string"
    and bound :: "'w \<Rightarrow> 16 word \<Rightarrow> (string \<times> string) set"
  assumes owns_worker: "owns (worker i m) s \<longleftrightarrow> s mod m = i"
    and shard_in_range: "n \<noteq> 0 \<Longrightarrow> \<exists>s. shard_for k n = Some s \<and> s < n"
    and no_shard: "shard_for k 0 = None"
    and routing_key_inj: "routing_key s = routing_key t \<Longrightarrow> s = t"
    and queue_name_inj: "queue_name (worker i m) = queue_name (worker j m) \<Longrightarrow> i = j"
    and bound_iff: "i < m \<Longrightarrow> (q, key) \<in> bound (worker i m) n \<longleftrightarrow>
      q = queue_name (worker i m) \<and> (\<exists>s<n. owns (worker i m) s \<and> key = routing_key s)"
begin

lemma shard_owner_unique: "m \<noteq> 0 \<Longrightarrow> \<exists>!i. i < m \<and> owns (worker i m) s"
  by (auto simp: owns_worker word_mod_less_divisor word_gt_0)

lemma key_bound_iff:
  assumes "s < n" "i < m"
  shows "(q, routing_key s) \<in> bound (worker i m) n \<longleftrightarrow> q = queue_name (worker i m) \<and> owns (worker i m) s"
  using assms by (auto simp: bound_iff dest: routing_key_inj)

lemma delivered_to_one_queue:
  assumes "m \<noteq> 0" "shard_for k n = Some s"
  shows "\<exists>!q. \<exists>i<m. (q, routing_key s) \<in> bound (worker i m) n"
proof -
  from assms(2) have n: "n \<noteq> 0" by (auto simp: no_shard)
  with assms(2) have s: "s < n" using shard_in_range [of n k] by auto
  from shard_owner_unique [OF assms(1), of s] obtain i where i: "i < m" "owns (worker i m) s"
    and uniq: "\<And>j. j < m \<Longrightarrow> owns (worker j m) s \<Longrightarrow> j = i" by metis
  have "(\<exists>j<m. (q, routing_key s) \<in> bound (worker j m) n) \<longleftrightarrow> q = queue_name (worker i m)" for q
    using i uniq key_bound_iff [OF s] by metis
  then show ?thesis by simp
qed

lemma published_or_no_shards: "shard_for k n = None \<longleftrightarrow> n = 0"
  by (metis no_shard option.distinct(1) shard_in_range)

end

end
