(* ===== verification/Rq.thy ===== *)
theory Rq
  imports Amqp
begin

text \<open>
  The report queue, \<^verbatim>\<open>crates/rq/src/lib.rs\<close>: incident categories, entity QIDs, outcomes, reports
  and their entity-scoped extensions, worker configurations, and the publisher and the consumer
  builder as the calls they make to the broker. JSON encoding (\<^verbatim>\<open>serde_json\<close>) is a parameter.
\<close>

section \<open>Incident categories\<close>

datatype IncidentCategory = BadConfiguration | CannotProgress | InconsistentState | SystemError | Crash

definition category_ALL :: "IncidentCategory list" where
  "category_ALL = [BadConfiguration, CannotProgress, InconsistentState, SystemError, Crash]"

fun category_rank :: "IncidentCategory \<Rightarrow> nat" where
  "category_rank BadConfiguration = 0"
| "category_rank CannotProgress = 1"
| "category_rank InconsistentState = 2"
| "category_rank SystemError = 3"
| "category_rank Crash = 4"

text \<open>The derived \<^verbatim>\<open>Ord\<close> follows the order of declaration.\<close>

instantiation IncidentCategory :: linorder
begin

definition less_eq_IncidentCategory :: "IncidentCategory \<Rightarrow> IncidentCategory \<Rightarrow> bool" where
  "c \<le> d \<longleftrightarrow> category_rank c \<le> category_rank d"

definition less_IncidentCategory :: "IncidentCategory \<Rightarrow> IncidentCategory \<Rightarrow> bool" where
  "c < d \<longleftrightarrow> category_rank c < category_rank d"

instance
proof
  fix c d :: IncidentCategory
  show "c \<le> d \<Longrightarrow> d \<le> c \<Longrightarrow> c = d"
    by (cases c; cases d) (simp_all add: less_eq_IncidentCategory_def)
qed (auto simp: less_eq_IncidentCategory_def less_IncidentCategory_def)

end

fun category_as_str :: "IncidentCategory \<Rightarrow> string" where
  "category_as_str BadConfiguration = ''BAD_CONFIGURATION''"
| "category_as_str CannotProgress = ''CANNOT_PROGRESS''"
| "category_as_str InconsistentState = ''INCONSISTENT_STATE''"
| "category_as_str SystemError = ''SYSTEM_ERROR''"
| "category_as_str Crash = ''CRASH''"

datatype InvalidCategory = InvalidCategory string

definition category_from_str :: "string \<Rightarrow> InvalidCategory + IncidentCategory" where
  "category_from_str s =
    (if s = ''BAD_CONFIGURATION'' then Inr BadConfiguration
     else if s = ''CANNOT_PROGRESS'' then Inr CannotProgress
     else if s = ''INCONSISTENT_STATE'' then Inr InconsistentState
     else if s = ''SYSTEM_ERROR'' then Inr SystemError
     else if s = ''CRASH'' then Inr Crash
     else Inl (InvalidCategory s))"

interpretation category_codec: string_codec "\<lambda>_. True" category_as_str category_from_str
proof
  fix a :: IncidentCategory and s
  show "category_from_str (category_as_str a) = Inr a"
    by (cases a) (simp_all add: category_from_str_def)
  show "category_from_str s = Inr a \<Longrightarrow> True \<and> category_as_str a = s"
    by (auto simp: category_from_str_def split: if_splits)
qed

section \<open>Entities\<close>

datatype EntityQid = EDeployment DeploymentQid | EResource ResourceQid

fun shard_key :: "EntityQid \<Rightarrow> string" where
  "shard_key (EDeployment qid) = DeploymentQid_display qid"
| "shard_key (EResource qid) = ResourceQid_display qid"

definition entity_as_string :: "EntityQid \<Rightarrow> string" where
  "entity_as_string q = shard_key q"

fun entity_wf :: "EntityQid \<Rightarrow> bool" where
  "entity_wf (EDeployment qid) \<longleftrightarrow> DeploymentQid_wf qid"
| "entity_wf (EResource qid) \<longleftrightarrow> ResourceQid_wf qid"

text \<open>The wire form is a struct with a \<^verbatim>\<open>kind\<close> and a \<^verbatim>\<open>qid\<close> field.\<close>

fun entity_serialize :: "EntityQid \<Rightarrow> string \<times> string" where
  "entity_serialize (EDeployment qid) = (''deployment'', DeploymentQid_display qid)"
| "entity_serialize (EResource qid) = (''resource'', ResourceQid_display qid)"

datatype EntityDecodeError = BadQid ParseIdError | UnknownEntityKind string

definition entity_deserialize :: "string \<times> string \<Rightarrow> EntityDecodeError + EntityQid" where
  "entity_deserialize raw =
    (if fst raw = ''deployment'' then
       (case DeploymentQid_from_str (snd raw) of Inl e \<Rightarrow> Inl (BadQid e) | Inr q \<Rightarrow> Inr (EDeployment q))
     else if fst raw = ''resource'' then
       (case ResourceQid_from_str (snd raw) of Inl e \<Rightarrow> Inl (BadQid e) | Inr q \<Rightarrow> Inr (EResource q))
     else Inl (UnknownEntityKind (fst raw)))"

lemma entity_wire_iff:
  "entity_deserialize raw = Inr e \<longleftrightarrow> entity_wf e \<and> raw = entity_serialize e"
proof
  show "entity_deserialize raw = Inr e \<Longrightarrow> entity_wf e \<and> raw = entity_serialize e"
    by (cases raw) (auto simp: entity_deserialize_def dest: deployment_qid.joined.parse_sound
        resource_qid.joined.parse_sound split: sum.splits if_splits)
  show "entity_wf e \<and> raw = entity_serialize e \<Longrightarrow> entity_deserialize raw = Inr e"
    by (cases e) (auto simp: entity_deserialize_def deployment_qid.joined.parse_display
        resource_qid.joined.parse_display)
qed

section \<open>Outcomes, metrics, extensions and reports\<close>

datatype Outcome = Success | Failure IncidentCategory string

fun is_success :: "Outcome \<Rightarrow> bool" where
  "is_success Success = True"
| "is_success (Failure c m) = False"

fun outcome_category :: "Outcome \<Rightarrow> IncidentCategory option" where
  "outcome_category Success = None"
| "outcome_category (Failure c m) = Some c"

fun outcome_error_message :: "Outcome \<Rightarrow> string option" where
  "outcome_error_message Success = None"
| "outcome_error_message (Failure c m) = Some m"

record 'v Metrics =
  wall_time_ms :: "64 word"
  extra :: "string \<rightharpoonup> 'v"

definition wall_time :: "64 word \<Rightarrow> 'v Metrics" where
  "wall_time ms = \<lparr>wall_time_ms = ms, extra = Map.empty\<rparr>"

datatype DeploymentOperationalState = OpDesired | OpUndesired | OpLingering | OpDown

datatype ResourceOperationalState = OpPending | OpLive | OpDestroyed

record DeploymentExtension =
  dep_state :: DeploymentOperationalState
  dep_terminal :: bool

record ResourceExtension =
  res_state :: ResourceOperationalState
  res_terminal :: bool
  res_volatile :: bool

datatype EntityExtension = XDeployment DeploymentExtension | XResource ResourceExtension

fun is_terminal :: "EntityExtension \<Rightarrow> bool" where
  "is_terminal (XDeployment x) = dep_terminal x"
| "is_terminal (XResource x) = res_terminal x"

fun is_volatile :: "EntityExtension \<Rightarrow> bool" where
  "is_volatile (XDeployment x) = False"
| "is_volatile (XResource x) = res_volatile x"

text \<open>Timestamps are milliseconds since the epoch.\<close>

record 'v Report =
  entity_qid :: EntityQid
  timestamp :: int
  outcome :: Outcome
  metrics :: "'v Metrics"
  extension :: EntityExtension

section \<open>Workers, shards and queue names\<close>

datatype ConfigError = InvalidWorkerCount | InvalidWorkerIndex

record WorkerConfig =
  worker_index :: "16 word"
  worker_count :: "16 word"

definition worker_validate :: "WorkerConfig \<Rightarrow> ConfigError + unit" where
  "worker_validate w =
    (if worker_count w = 0 then Inl InvalidWorkerCount
     else if worker_index w \<ge> worker_count w then Inl InvalidWorkerIndex
     else Inr ())"

definition owns_shard :: "WorkerConfig \<Rightarrow> 16 word \<Rightarrow> bool" where
  "owns_shard w shard \<longleftrightarrow> shard mod worker_count w = worker_index w"

definition RQ_EXCHANGE_NAME :: string where
  "RQ_EXCHANGE_NAME = ''rq.v1''"

definition RQ_DEFAULT_SHARD_COUNT :: "16 word" where
  "RQ_DEFAULT_SHARD_COUNT = 32"

definition RQ_DEFAULT_PREFETCH :: "16 word" where
  "RQ_DEFAULT_PREFETCH = 1"

definition RQ_DEFAULT_URI :: string where
  "RQ_DEFAULT_URI = ''amqp://127.0.0.1:5672/%2f''"

text \<open>\<open>None\<close> is the panic of a remainder by zero.\<close>

definition shard_for_entity_key :: "string \<Rightarrow> 16 word \<Rightarrow> 16 word option" where
  "shard_for_entity_key key shard_count =
    (if shard_count = 0 then None else Some (ucast (str_sip_hash key mod ucast shard_count)))"

definition shard_routing_key :: "16 word \<Rightarrow> string" where
  "shard_routing_key shard = ''shard.'' @ u16_display shard"

definition worker_queue_name :: "WorkerConfig \<Rightarrow> string" where
  "worker_queue_name w =
    RQ_EXCHANGE_NAME @ ''.worker.'' @ u16_display (worker_index w) @ ''.of.'' @ u16_display (worker_count w)"

section \<open>The consumer builder\<close>

record ClientBuilder =
  cb_uri :: string
  cb_shard_count :: "16 word"
  cb_prefetch :: "16 word"

definition ClientBuilder_new :: ClientBuilder where
  "ClientBuilder_new =
    \<lparr>cb_uri = RQ_DEFAULT_URI, cb_shard_count = RQ_DEFAULT_SHARD_COUNT, cb_prefetch = RQ_DEFAULT_PREFETCH\<rparr>"

datatype ('a, 'j) ConsumerError = ConsumerConfig ConfigError | ConsumerAmqp 'a | ConsumerJson 'j

record Consumer =
  owned_shards :: "16 word list"

abbreviation rq_call :: "'a amqp \<Rightarrow> BrokerCall \<Rightarrow> (BrokerCall list, ('a, 'j) ConsumerError, unit) op" where
  "rq_call amqp c \<equiv> map_err ConsumerAmqp (amqp_call amqp c)"

fun bind_shards ::
  "'a amqp \<Rightarrow> WorkerConfig \<Rightarrow> 16 word list \<Rightarrow> (BrokerCall list, ('a, 'j) ConsumerError, 16 word list) op" where
  "bind_shards amqp w [] = done_with []"
| "bind_shards amqp w (shard # rest) =
    (if owns_shard w shard then
       seq (rq_call amqp (QueueBind (worker_queue_name w) RQ_EXCHANGE_NAME (shard_routing_key shard)))
         (\<lambda>_. seq (bind_shards amqp w rest) (\<lambda>owned. done_with (shard # owned)))
     else bind_shards amqp w rest)"

definition build_consumer ::
  "'a amqp \<Rightarrow> ClientBuilder \<Rightarrow> WorkerConfig \<Rightarrow> (BrokerCall list, ('a, 'j) ConsumerError, Consumer) op" where
  "build_consumer amqp b w =
    (case worker_validate w of
       Inl e \<Rightarrow> fail_with (ConsumerConfig e)
     | Inr _ \<Rightarrow>
         seq (rq_call amqp (Connect (cb_uri b))) (\<lambda>_.
         seq (rq_call amqp CreateChannel) (\<lambda>_.
         seq (rq_call amqp (ExchangeDeclare RQ_EXCHANGE_NAME)) (\<lambda>_.
         seq (rq_call amqp (BasicQos (cb_prefetch b))) (\<lambda>_.
         seq (rq_call amqp (QueueDeclare (worker_queue_name w))) (\<lambda>_.
         seq (bind_shards amqp w (shard_range (cb_shard_count b))) (\<lambda>owned.
         seq (rq_call amqp (BasicConsume (worker_queue_name w)
                (''rq-worker-'' @ u16_display (worker_index w) @ ''-of-'' @ u16_display (worker_count w)))) (\<lambda>_.
         done_with \<lparr>owned_shards = owned\<rparr>))))))))"

text \<open>
  The next delivery: what the stream of the broker yields is the argument, \<open>None\<close> at its end.
\<close>

definition consumer_next ::
  "(string \<Rightarrow> 'j + 'r) \<Rightarrow> ('a + string) option \<Rightarrow> ('a, 'j) ConsumerError + 'r option" where
  "consumer_next decode_json item =
    (case item of
       Some (Inr payload) \<Rightarrow> (case decode_json payload of Inl e \<Rightarrow> Inl (ConsumerJson e) | Inr r \<Rightarrow> Inr (Some r))
     | Some (Inl err) \<Rightarrow> Inl (ConsumerAmqp err)
     | None \<Rightarrow> Inr None)"

section \<open>The publisher\<close>

datatype ('a, 'j) PublishError = PublishJson 'j | PublishAmqp 'a | PublishPanic

record Publisher =
  pub_template :: ServiceAddressTemplate
  pub_shard_count :: "16 word"

text \<open>The state is the set of regions with an open channel, and the calls made.\<close>

record PublisherState =
  connections :: "RegionId set"
  calls :: "BrokerCall list"

definition pub_call :: "'a amqp \<Rightarrow> BrokerCall \<Rightarrow> (PublisherState, ('a, 'j) PublishError, unit) op" where
  "pub_call amqp c s =
    (case amqp_call amqp c (calls s) of (r, log) \<Rightarrow>
       (case r of Inl e \<Rightarrow> Inl (PublishAmqp e) | Inr _ \<Rightarrow> Inr (), s\<lparr>calls := log\<rparr>))"

definition channel_for ::
  "'a amqp \<Rightarrow> Publisher \<Rightarrow> RegionId \<Rightarrow> (PublisherState, ('a, 'j) PublishError, unit) op" where
  "channel_for amqp p region s =
    (if region \<in> connections s then (Inr (), s)
     else
       seq (pub_call amqp (Connect (''amqp://'' @ template_format (pub_template p) ''rq'' region @ '':5672/%2f''))) (\<lambda>_.
       seq (pub_call amqp CreateChannel) (\<lambda>_.
       seq (pub_call amqp (ExchangeDeclare RQ_EXCHANGE_NAME)) (\<lambda>_.
       modify_state (\<lambda>s. s\<lparr>connections := insert region (connections s)\<rparr>)))) s)"

definition enqueue ::
  "'a amqp \<Rightarrow> ('v Report \<Rightarrow> 'j + string) \<Rightarrow> Publisher \<Rightarrow> RegionId \<Rightarrow> 'v Report
    \<Rightarrow> (PublisherState, ('a, 'j) PublishError, unit) op" where
  "enqueue amqp encode_json p region r =
    seq (channel_for amqp p region) (\<lambda>_.
    case shard_for_entity_key (shard_key (entity_qid r)) (pub_shard_count p) of
      None \<Rightarrow> fail_with PublishPanic
    | Some shard \<Rightarrow>
        (case encode_json r of
           Inl e \<Rightarrow> fail_with (PublishJson e)
         | Inr payload \<Rightarrow>
             seq (pub_call amqp (BasicPublish RQ_EXCHANGE_NAME (shard_routing_key shard) payload)) (\<lambda>_.
             pub_call amqp ConfirmPublish)))"

section \<open>The queue as a sharded queue\<close>

definition bind_call :: "WorkerConfig \<Rightarrow> 16 word \<Rightarrow> BrokerCall" where
  "bind_call w shard = QueueBind (worker_queue_name w) RQ_EXCHANGE_NAME (shard_routing_key shard)"

lemma bind_shards_Inr:
  "bind_shards amqp w shards log = (Inr owned, log') \<Longrightarrow>
    owned = filter (owns_shard w) shards \<and> log' = log @ map (bind_call w) owned"
proof (induction shards arbitrary: log owned log')
  case (Cons shard rest)
  then show ?case
    by (fastforce simp: seq_Inr map_err_amqp_call_Inr done_with_def bind_call_def split: if_splits)
qed (simp add: done_with_def)

lemma build_consumer_Inr:
  assumes "build_consumer amqp b w log = (Inr c, log')"
  shows "worker_validate w = Inr ()"
    and "owned_shards c = filter (owns_shard w) (shard_range (cb_shard_count b))"
    and "\<exists>tag. log' = log @ [Connect (cb_uri b), CreateChannel, ExchangeDeclare RQ_EXCHANGE_NAME,
        BasicQos (cb_prefetch b), QueueDeclare (worker_queue_name w)]
      @ map (bind_call w) (owned_shards c) @ [BasicConsume (worker_queue_name w) tag]"
proof -
  show "worker_validate w = Inr ()"
    using assms by (simp add: build_consumer_def fail_with_def split: sum.splits)
  then show "owned_shards c = filter (owns_shard w) (shard_range (cb_shard_count b))"
    "\<exists>tag. log' = log @ [Connect (cb_uri b), CreateChannel, ExchangeDeclare RQ_EXCHANGE_NAME,
        BasicQos (cb_prefetch b), QueueDeclare (worker_queue_name w)]
      @ map (bind_call w) (owned_shards c) @ [BasicConsume (worker_queue_name w) tag]"
    using assms
    by (auto simp: build_consumer_def seq_Inr map_err_amqp_call_Inr done_with_def dest!: bind_shards_Inr)
qed

lemma bind_shards_total: "\<exists>owned log'. bind_shards (\<lambda>_. None) w shards log = (Inr owned, log')"
proof (induction shards arbitrary: log)
  case (Cons shard rest)
  from Cons.IH show ?case
    by (fastforce simp: seq_Inr map_err_amqp_call_Inr done_with_def)
qed (simp add: done_with_def)

lemma build_consumer_total:
  assumes "worker_validate w = Inr ()"
  shows "\<exists>c log'. build_consumer (\<lambda>_. None) b w log = (Inr c, log')"
  using assms bind_shards_total
  by (fastforce simp: build_consumer_def seq_Inr map_err_amqp_call_Inr done_with_def)

lemma shard_routing_key_inj [simp]: "shard_routing_key s = shard_routing_key t \<longleftrightarrow> s = t"
  by (simp add: shard_routing_key_def)

lemma worker_queue_name_inj:
  assumes "worker_queue_name v = worker_queue_name w"
  shows "v = w"
proof -
  have "split_once ''.of.'' (u16_display i @ ''.of.'' @ u16_display n) = Some (u16_display i, u16_display n)"
    for i n by (rule split_once_hd_notin) simp_all
  moreover from assms have
    "u16_display (worker_index v) @ ''.of.'' @ u16_display (worker_count v) =
     u16_display (worker_index w) @ ''.of.'' @ u16_display (worker_count w)"
    by (simp add: worker_queue_name_def)
  ultimately have "u16_display (worker_index v) = u16_display (worker_index w) \<and>
      u16_display (worker_count v) = u16_display (worker_count w)"
    by (metis option.inject prod.inject)
  then show ?thesis by simp
qed

definition rq_bound :: "WorkerConfig \<Rightarrow> 16 word \<Rightarrow> (string \<times> string) set" where
  "rq_bound w n = {(worker_queue_name w, shard_routing_key s) | s. s < n \<and> owns_shard w s}"

lemma build_consumer_binds:
  assumes "build_consumer amqp b w [] = (Inr c, log)"
  shows "QueueBind q RQ_EXCHANGE_NAME key \<in> set log \<longleftrightarrow> (q, key) \<in> rq_bound w (cb_shard_count b)"
  using build_consumer_Inr [OF assms] by (auto simp: bind_call_def rq_bound_def)

interpretation rq: sharded_queue "\<lambda>i m. \<lparr>worker_index = i, worker_count = m\<rparr>" owns_shard
  shard_for_entity_key shard_routing_key worker_queue_name rq_bound
proof
  fix i j m n s t :: "16 word" and k q key
  show "owns_shard \<lparr>worker_index = i, worker_count = m\<rparr> s \<longleftrightarrow> s mod m = i"
    by (simp add: owns_shard_def)
  show "n \<noteq> 0 \<Longrightarrow> \<exists>s. shard_for_entity_key k n = Some s \<and> s < n"
    by (simp add: shard_for_entity_key_def shard_mod_less)
  show "shard_for_entity_key k 0 = None"
    by (simp add: shard_for_entity_key_def)
  show "shard_routing_key s = shard_routing_key t \<Longrightarrow> s = t" by simp
  show "worker_queue_name \<lparr>worker_index = i, worker_count = m\<rparr> =
      worker_queue_name \<lparr>worker_index = j, worker_count = m\<rparr> \<Longrightarrow> i = j"
    by (drule worker_queue_name_inj) simp
qed (auto simp: rq_bound_def)

lemma pub_call_Inr: "pub_call amqp c s = (Inr u, s') \<longleftrightarrow>
    amqp (calls s @ [c]) = None \<and> s' = s\<lparr>calls := calls s @ [c]\<rparr>"
  by (auto simp: pub_call_def amqp_call_def Let_def split: option.splits)

lemma channel_for_Inr:
  assumes "channel_for amqp p region s = (Inr u, s')"
  shows "\<exists>pre. calls s' = calls s @ pre \<and> region \<in> connections s'"
  using assms by (auto simp: channel_for_def seq_Inr pub_call_Inr modify_state_def split: if_splits)

lemma enqueue_Inr:
  assumes "enqueue amqp encode_json p region r s = (Inr u, s')"
  shows "\<exists>shard payload pre.
    shard_for_entity_key (shard_key (entity_qid r)) (pub_shard_count p) = Some shard \<and>
    encode_json r = Inr payload \<and> region \<in> connections s' \<and>
    calls s' = calls s @ pre @ [BasicPublish RQ_EXCHANGE_NAME (shard_routing_key shard) payload, ConfirmPublish]"
  using assms
  by (fastforce simp: enqueue_def seq_Inr pub_call_Inr fail_with_def
      dest!: channel_for_Inr split: option.splits sum.splits)

section \<open>Properties of the report queue\<close>

text \<open>
  C24. In a cluster whose workers are all set up with the publisher's number of shards, a report
  that is published goes to the queue of exactly one worker, and the routing key it is
  published with depends on the entity alone, so all reports about one entity go there.
\<close>

theorem report_reaches_one_queue:
  assumes "m \<noteq> 0"
    and "\<forall>i<m. build_consumer (amqp i) b \<lparr>worker_index = i, worker_count = m\<rparr> [] = (Inr (c i), log i)"
    and "pub_shard_count p = cb_shard_count b"
    and "enqueue pub_amqp encode_json p region r s = (Inr (), s')"
  shows "\<exists>shard payload pre.
    shard_for_entity_key (shard_key (entity_qid r)) (cb_shard_count b) = Some shard \<and>
    encode_json r = Inr payload \<and>
    calls s' = calls s @ pre @ [BasicPublish RQ_EXCHANGE_NAME (shard_routing_key shard) payload, ConfirmPublish] \<and>
    (\<exists>!q. \<exists>i<m. QueueBind q RQ_EXCHANGE_NAME (shard_routing_key shard) \<in> set (log i))"
proof -
  from enqueue_Inr [OF assms(4)] assms(3) obtain shard payload pre where
    pub: "shard_for_entity_key (shard_key (entity_qid r)) (cb_shard_count b) = Some shard"
    "encode_json r = Inr payload"
    "calls s' = calls s @ pre @ [BasicPublish RQ_EXCHANGE_NAME (shard_routing_key shard) payload, ConfirmPublish]"
    by auto
  have "QueueBind q RQ_EXCHANGE_NAME key \<in> set (log i) \<longleftrightarrow>
      (q, key) \<in> rq_bound \<lparr>worker_index = i, worker_count = m\<rparr> (cb_shard_count b)" if "i < m" for q key i
    using assms(2) that by (intro build_consumer_binds) auto
  with rq.delivered_to_one_queue [OF assms(1) pub(1)]
  have "\<exists>!q. \<exists>i<m. QueueBind q RQ_EXCHANGE_NAME (shard_routing_key shard) \<in> set (log i)"
    by (simp cong: conj_cong)
  with pub show ?thesis by blast
qed

theorem report_reaches_one_queue_witness:
  "\<exists>shard. shard_for_entity_key (shard_key (EDeployment example_dep)) 2 = Some shard \<and>
    (\<exists>!q. \<exists>i<2. QueueBind q RQ_EXCHANGE_NAME (shard_routing_key shard) \<in>
      set (snd (build_consumer (\<lambda>_. None :: unit option) (ClientBuilder_new\<lparr>cb_shard_count := 2\<rparr>)
        \<lparr>worker_index = i, worker_count = 2\<rparr> [] :: ((unit, unit) ConsumerError + Consumer) \<times> _)))"
proof -
  let ?r = "\<lparr>entity_qid = EDeployment example_dep, timestamp = 0, outcome = Success, metrics = wall_time 5,
    extension = XDeployment \<lparr>dep_state = OpDesired, dep_terminal = False\<rparr>\<rparr> :: unit Report"
  let ?p = "\<lparr>pub_template = default_template, pub_shard_count = 2\<rparr>"
  let ?s = "\<lparr>connections = {}, calls = []\<rparr>"
  let ?run = "\<lambda>i. build_consumer (\<lambda>_. None :: unit option) (ClientBuilder_new\<lparr>cb_shard_count := 2\<rparr>)
        \<lparr>worker_index = i, worker_count = 2\<rparr> [] :: ((unit, unit) ConsumerError + Consumer) \<times> _"
  let ?pub = "enqueue (\<lambda>_. None :: unit option) (\<lambda>_. Inr ''{}'' :: unit + string) ?p (RegionId ''stockholm'') ?r ?s"
  have "\<forall>i<2. \<exists>c. ?run i = (Inr c, snd (?run i))"
  proof (intro allI impI)
    fix i :: "16 word"
    assume "i < 2"
    then have "worker_validate \<lparr>worker_index = i, worker_count = 2\<rparr> = Inr ()"
      by (simp add: worker_validate_def)
    then have "\<exists>c log'. ?run i = (Inr c, log')" by (rule build_consumer_total)
    then show "\<exists>c. ?run i = (Inr c, snd (?run i))" by fastforce
  qed
  then obtain c where runs: "\<forall>i<2. ?run i = (Inr (c i), snd (?run i))" by metis
  have pub: "?pub = (Inr (), snd ?pub)"
    by (simp add: enqueue_def channel_for_def seq_def pub_call_def amqp_call_def modify_state_def
        shard_for_entity_key_def)
  from report_reaches_one_queue [OF _ runs _ pub] show ?thesis
    by (auto simp: ClientBuilder_new_def)
qed

end
