(* ===== verification/Rtq.thy ===== *)
theory Rtq
  imports Amqp
begin

text \<open>
  The resource transition queue, \<^verbatim>\<open>crates/rtq/src/lib.rs\<close>: the transition messages, the reference to
  a resource with its wire form, worker configurations, and the publisher and the consumer
  builder as the calls they make to the broker. JSON encoding (\<^verbatim>\<open>serde_json\<close>) is a parameter and
  \<open>'v\<close> is the type of its values.
\<close>

section \<open>Messages\<close>

record ResourceRef =
  ref_env :: EnvironmentQid
  ref_id :: ResourceId

record 'v CreateMessage =
  cm_resource :: ResourceRef
  cm_deployment_id :: DeploymentId
  cm_home_region :: RegionId
  cm_inputs :: 'v
  cm_dependencies :: "ResourceRef list"
  cm_source_trace :: SourceTrace

record 'v RestoreMessage =
  rm_resource :: ResourceRef
  rm_deployment_id :: DeploymentId
  rm_home_region :: RegionId
  rm_desired_inputs :: 'v
  rm_dependencies :: "ResourceRef list"
  rm_source_trace :: SourceTrace

record 'v AdoptMessage =
  am_resource :: ResourceRef
  am_from_deployment_id :: DeploymentId
  am_to_deployment_id :: DeploymentId
  am_home_region :: RegionId
  am_desired_inputs :: 'v
  am_dependencies :: "ResourceRef list"
  am_source_trace :: SourceTrace

record DestroyMessage =
  dm_resource :: ResourceRef
  dm_deployment_id :: DeploymentId
  dm_home_region :: RegionId

record CheckMessage =
  km_resource :: ResourceRef
  km_deployment_id :: DeploymentId
  km_home_region :: RegionId

datatype 'v Message =
    Create "'v CreateMessage"
  | Restore "'v RestoreMessage"
  | Adopt "'v AdoptMessage"
  | Destroy DestroyMessage
  | Check CheckMessage

fun message_resource :: "'v Message \<Rightarrow> ResourceRef" where
  "message_resource (Create msg) = cm_resource msg"
| "message_resource (Restore msg) = rm_resource msg"
| "message_resource (Adopt msg) = am_resource msg"
| "message_resource (Destroy msg) = dm_resource msg"
| "message_resource (Check msg) = km_resource msg"

fun message_home_region :: "'v Message \<Rightarrow> RegionId" where
  "message_home_region (Create msg) = cm_home_region msg"
| "message_home_region (Restore msg) = rm_home_region msg"
| "message_home_region (Adopt msg) = am_home_region msg"
| "message_home_region (Destroy msg) = dm_home_region msg"
| "message_home_region (Check msg) = km_home_region msg"

section \<open>Resource references\<close>

text \<open>
  The wire form has the environment QID, the region, the type and the name as separate strings;
  the first two are parsed, the last two are taken as they are.
\<close>

record RawResourceRef =
  raw_environment_qid :: string
  raw_region :: string
  raw_resource_type :: string
  raw_resource_name :: string

definition resource_ref_serialize :: "ResourceRef \<Rightarrow> RawResourceRef" where
  "resource_ref_serialize r =
    \<lparr>raw_environment_qid = EnvironmentQid_display (ref_env r),
     raw_region = region_str (rid_region (ref_id r)),
     raw_resource_type = rid_typ (ref_id r),
     raw_resource_name = rid_name (ref_id r)\<rparr>"

definition resource_ref_deserialize :: "RawResourceRef \<Rightarrow> ParseIdError + ResourceRef" where
  "resource_ref_deserialize raw =
    (case EnvironmentQid_from_str (raw_environment_qid raw) of
       Inl e \<Rightarrow> Inl e
     | Inr env \<Rightarrow>
         (case RegionId_from_str (raw_region raw) of
            Inl e \<Rightarrow> Inl e
          | Inr region \<Rightarrow>
              Inr \<lparr>ref_env = env,
                   ref_id = \<lparr>rid_region = region, rid_typ = raw_resource_type raw, rid_name = raw_resource_name raw\<rparr>\<rparr>))"

definition resource_uid :: "ResourceRef \<Rightarrow> string" where
  "resource_uid r = EnvironmentQid_display (ref_env r) @ ''::'' @ ResourceId_display (ref_id r)"

definition resource_ref_qid :: "ResourceRef \<Rightarrow> ResourceQid" where
  "resource_ref_qid r = \<lparr>res_env = ref_env r, res_id = ref_id r\<rparr>"

lemma resource_uid_qid: "resource_uid r = ResourceQid_display (resource_ref_qid r)"
  by (simp add: resource_uid_def resource_ref_qid_def ResourceQid_display_def)

lemma resource_uid_inj:
  assumes "ResourceQid_wf (resource_ref_qid r)" "ResourceQid_wf (resource_ref_qid r')"
    "resource_uid r = resource_uid r'"
  shows "r = r'"
  using resource_qid.joined.display_inj [OF assms(1,2)] assms(3)
  by (simp add: resource_uid_qid) (simp add: resource_ref_qid_def)

section \<open>Workers, shards and queue names\<close>

datatype RtqConfigError = RtqInvalidWorkerCount | RtqInvalidWorkerIndex

record RtqWorkerConfig =
  rtq_worker_index :: "16 word"
  rtq_worker_count :: "16 word"

definition rtq_worker_validate :: "RtqWorkerConfig \<Rightarrow> RtqConfigError + unit" where
  "rtq_worker_validate w =
    (if rtq_worker_count w = 0 then Inl RtqInvalidWorkerCount
     else if rtq_worker_index w \<ge> rtq_worker_count w then Inl RtqInvalidWorkerIndex
     else Inr ())"

definition rtq_owns_shard :: "RtqWorkerConfig \<Rightarrow> 16 word \<Rightarrow> bool" where
  "rtq_owns_shard w shard \<longleftrightarrow> shard mod rtq_worker_count w = rtq_worker_index w"

definition RTQ_EXCHANGE_NAME :: string where
  "RTQ_EXCHANGE_NAME = ''rtq.v1''"

definition RTQ_DEFAULT_SHARD_COUNT :: "16 word" where
  "RTQ_DEFAULT_SHARD_COUNT = 32"

definition RTQ_DEFAULT_PREFETCH :: "16 word" where
  "RTQ_DEFAULT_PREFETCH = 1"

definition RTQ_DEFAULT_URI :: string where
  "RTQ_DEFAULT_URI = ''amqp://127.0.0.1:5672/%2f''"

text \<open>\<open>None\<close> is the panic of a remainder by zero.\<close>

definition shard_for_resource_uid :: "string \<Rightarrow> 16 word \<Rightarrow> 16 word option" where
  "shard_for_resource_uid key shard_count =
    (if shard_count = 0 then None else Some (ucast (str_sip_hash key mod ucast shard_count)))"

definition rtq_shard_routing_key :: "16 word \<Rightarrow> string" where
  "rtq_shard_routing_key shard = ''shard.'' @ u16_display shard"

definition rtq_worker_queue_name :: "RtqWorkerConfig \<Rightarrow> string" where
  "rtq_worker_queue_name w =
    RTQ_EXCHANGE_NAME @ ''.worker.'' @ u16_display (rtq_worker_index w) @ ''.of.'' @ u16_display (rtq_worker_count w)"

section \<open>The consumer builder\<close>

record RtqClientBuilder =
  rtq_cb_uri :: string
  rtq_cb_shard_count :: "16 word"
  rtq_cb_prefetch :: "16 word"

definition RtqClientBuilder_new :: RtqClientBuilder where
  "RtqClientBuilder_new =
    \<lparr>rtq_cb_uri = RTQ_DEFAULT_URI, rtq_cb_shard_count = RTQ_DEFAULT_SHARD_COUNT, rtq_cb_prefetch = RTQ_DEFAULT_PREFETCH\<rparr>"

datatype ('a, 'j) RtqConsumerError = RtqConsumerConfig RtqConfigError | RtqConsumerAmqp 'a | RtqConsumerJson 'j

record RtqConsumer =
  rtq_owned_shards :: "16 word list"

abbreviation rtq_call :: "'a amqp \<Rightarrow> BrokerCall \<Rightarrow> (BrokerCall list, ('a, 'j) RtqConsumerError, unit) op" where
  "rtq_call amqp c \<equiv> map_err RtqConsumerAmqp (amqp_call amqp c)"

fun rtq_bind_shards ::
  "'a amqp \<Rightarrow> RtqWorkerConfig \<Rightarrow> 16 word list \<Rightarrow> (BrokerCall list, ('a, 'j) RtqConsumerError, 16 word list) op" where
  "rtq_bind_shards amqp w [] = done_with []"
| "rtq_bind_shards amqp w (shard # rest) =
    (if rtq_owns_shard w shard then
       seq (rtq_call amqp (QueueBind (rtq_worker_queue_name w) RTQ_EXCHANGE_NAME (rtq_shard_routing_key shard)))
         (\<lambda>_. seq (rtq_bind_shards amqp w rest) (\<lambda>owned. done_with (shard # owned)))
     else rtq_bind_shards amqp w rest)"

definition rtq_build_consumer ::
  "'a amqp \<Rightarrow> RtqClientBuilder \<Rightarrow> RtqWorkerConfig \<Rightarrow> (BrokerCall list, ('a, 'j) RtqConsumerError, RtqConsumer) op" where
  "rtq_build_consumer amqp b w =
    (case rtq_worker_validate w of
       Inl e \<Rightarrow> fail_with (RtqConsumerConfig e)
     | Inr _ \<Rightarrow>
         seq (rtq_call amqp (Connect (rtq_cb_uri b))) (\<lambda>_.
         seq (rtq_call amqp CreateChannel) (\<lambda>_.
         seq (rtq_call amqp (ExchangeDeclare RTQ_EXCHANGE_NAME)) (\<lambda>_.
         seq (rtq_call amqp (BasicQos (rtq_cb_prefetch b))) (\<lambda>_.
         seq (rtq_call amqp (QueueDeclare (rtq_worker_queue_name w))) (\<lambda>_.
         seq (rtq_bind_shards amqp w (shard_range (rtq_cb_shard_count b))) (\<lambda>owned.
         seq (rtq_call amqp (BasicConsume (rtq_worker_queue_name w)
                (''rtq-worker-'' @ u16_display (rtq_worker_index w) @ ''-of-'' @ u16_display (rtq_worker_count w)))) (\<lambda>_.
         done_with \<lparr>rtq_owned_shards = owned\<rparr>))))))))"

text \<open>
  The next delivery: what the stream of the broker yields is the argument, \<open>None\<close> at its end.
\<close>

definition rtq_consumer_next ::
  "(string \<Rightarrow> 'j + 'r) \<Rightarrow> ('a + string) option \<Rightarrow> ('a, 'j) RtqConsumerError + 'r option" where
  "rtq_consumer_next decode_json item =
    (case item of
       Some (Inr payload) \<Rightarrow> (case decode_json payload of Inl e \<Rightarrow> Inl (RtqConsumerJson e) | Inr r \<Rightarrow> Inr (Some r))
     | Some (Inl err) \<Rightarrow> Inl (RtqConsumerAmqp err)
     | None \<Rightarrow> Inr None)"

section \<open>The publisher\<close>

datatype ('a, 'j) RtqPublishError = RtqPublishJson 'j | RtqPublishAmqp 'a | RtqPublishPanic

record RtqPublisher =
  rtq_pub_template :: ServiceAddressTemplate
  rtq_pub_shard_count :: "16 word"

text \<open>The state is the set of regions with an open channel, and the rtq_calls made.\<close>

record RtqPublisherState =
  rtq_connections :: "RegionId set"
  rtq_calls :: "BrokerCall list"

definition rtq_pub_call :: "'a amqp \<Rightarrow> BrokerCall \<Rightarrow> (RtqPublisherState, ('a, 'j) RtqPublishError, unit) op" where
  "rtq_pub_call amqp c s =
    (case amqp_call amqp c (rtq_calls s) of (r, log) \<Rightarrow>
       (case r of Inl e \<Rightarrow> Inl (RtqPublishAmqp e) | Inr _ \<Rightarrow> Inr (), s\<lparr>rtq_calls := log\<rparr>))"

definition rtq_channel_for ::
  "'a amqp \<Rightarrow> RtqPublisher \<Rightarrow> RegionId \<Rightarrow> (RtqPublisherState, ('a, 'j) RtqPublishError, unit) op" where
  "rtq_channel_for amqp p region s =
    (if region \<in> rtq_connections s then (Inr (), s)
     else
       seq (rtq_pub_call amqp (Connect (''amqp://'' @ template_format (rtq_pub_template p) ''rtq'' region @ '':5672/%2f''))) (\<lambda>_.
       seq (rtq_pub_call amqp CreateChannel) (\<lambda>_.
       seq (rtq_pub_call amqp (ExchangeDeclare RTQ_EXCHANGE_NAME)) (\<lambda>_.
       modify_state (\<lambda>s. s\<lparr>rtq_connections := insert region (rtq_connections s)\<rparr>)))) s)"

definition rtq_enqueue ::
  "'a amqp \<Rightarrow> ('v Message \<Rightarrow> 'j + string) \<Rightarrow> RtqPublisher \<Rightarrow> RegionId \<Rightarrow> 'v Message
    \<Rightarrow> (RtqPublisherState, ('a, 'j) RtqPublishError, unit) op" where
  "rtq_enqueue amqp encode_json p region r =
    seq (rtq_channel_for amqp p region) (\<lambda>_.
    case shard_for_resource_uid (resource_uid (message_resource r)) (rtq_pub_shard_count p) of
      None \<Rightarrow> fail_with RtqPublishPanic
    | Some shard \<Rightarrow>
        (case encode_json r of
           Inl e \<Rightarrow> fail_with (RtqPublishJson e)
         | Inr payload \<Rightarrow>
             seq (rtq_pub_call amqp (BasicPublish RTQ_EXCHANGE_NAME (rtq_shard_routing_key shard) payload)) (\<lambda>_.
             rtq_pub_call amqp ConfirmPublish)))"

section \<open>The queue as a sharded queue\<close>

definition rtq_bind_call :: "RtqWorkerConfig \<Rightarrow> 16 word \<Rightarrow> BrokerCall" where
  "rtq_bind_call w shard = QueueBind (rtq_worker_queue_name w) RTQ_EXCHANGE_NAME (rtq_shard_routing_key shard)"

lemma rtq_bind_shards_Inr:
  "rtq_bind_shards amqp w shards log = (Inr owned, log') \<Longrightarrow>
    owned = filter (rtq_owns_shard w) shards \<and> log' = log @ map (rtq_bind_call w) owned"
proof (induction shards arbitrary: log owned log')
  case (Cons shard rest)
  then show ?case
    by (fastforce simp: seq_Inr map_err_amqp_call_Inr done_with_def rtq_bind_call_def split: if_splits)
qed (simp add: done_with_def)

lemma rtq_build_consumer_Inr:
  assumes "rtq_build_consumer amqp b w log = (Inr c, log')"
  shows "rtq_worker_validate w = Inr ()"
    and "rtq_owned_shards c = filter (rtq_owns_shard w) (shard_range (rtq_cb_shard_count b))"
    and "\<exists>tag. log' = log @ [Connect (rtq_cb_uri b), CreateChannel, ExchangeDeclare RTQ_EXCHANGE_NAME,
        BasicQos (rtq_cb_prefetch b), QueueDeclare (rtq_worker_queue_name w)]
      @ map (rtq_bind_call w) (rtq_owned_shards c) @ [BasicConsume (rtq_worker_queue_name w) tag]"
proof -
  show "rtq_worker_validate w = Inr ()"
    using assms by (simp add: rtq_build_consumer_def fail_with_def split: sum.splits)
  then show "rtq_owned_shards c = filter (rtq_owns_shard w) (shard_range (rtq_cb_shard_count b))"
    "\<exists>tag. log' = log @ [Connect (rtq_cb_uri b), CreateChannel, ExchangeDeclare RTQ_EXCHANGE_NAME,
        BasicQos (rtq_cb_prefetch b), QueueDeclare (rtq_worker_queue_name w)]
      @ map (rtq_bind_call w) (rtq_owned_shards c) @ [BasicConsume (rtq_worker_queue_name w) tag]"
    using assms
    by (auto simp: rtq_build_consumer_def seq_Inr map_err_amqp_call_Inr done_with_def dest!: rtq_bind_shards_Inr)
qed

lemma rtq_bind_shards_total: "\<exists>owned log'. rtq_bind_shards (\<lambda>_. None) w shards log = (Inr owned, log')"
proof (induction shards arbitrary: log)
  case (Cons shard rest)
  from Cons.IH show ?case
    by (fastforce simp: seq_Inr map_err_amqp_call_Inr done_with_def)
qed (simp add: done_with_def)

lemma rtq_build_consumer_total:
  assumes "rtq_worker_validate w = Inr ()"
  shows "\<exists>c log'. rtq_build_consumer (\<lambda>_. None) b w log = (Inr c, log')"
  using assms rtq_bind_shards_total
  by (fastforce simp: rtq_build_consumer_def seq_Inr map_err_amqp_call_Inr done_with_def)

lemma rtq_shard_routing_key_inj [simp]: "rtq_shard_routing_key s = rtq_shard_routing_key t \<longleftrightarrow> s = t"
  by (simp add: rtq_shard_routing_key_def)

lemma rtq_worker_queue_name_inj:
  assumes "rtq_worker_queue_name v = rtq_worker_queue_name w"
  shows "v = w"
proof -
  have "split_once ''.of.'' (u16_display i @ ''.of.'' @ u16_display n) = Some (u16_display i, u16_display n)"
    for i n by (rule split_once_hd_notin) simp_all
  moreover from assms have
    "u16_display (rtq_worker_index v) @ ''.of.'' @ u16_display (rtq_worker_count v) =
     u16_display (rtq_worker_index w) @ ''.of.'' @ u16_display (rtq_worker_count w)"
    by (simp add: rtq_worker_queue_name_def)
  ultimately have "u16_display (rtq_worker_index v) = u16_display (rtq_worker_index w) \<and>
      u16_display (rtq_worker_count v) = u16_display (rtq_worker_count w)"
    by (metis option.inject prod.inject)
  then show ?thesis by simp
qed

definition rtq_bound :: "RtqWorkerConfig \<Rightarrow> 16 word \<Rightarrow> (string \<times> string) set" where
  "rtq_bound w n = {(rtq_worker_queue_name w, rtq_shard_routing_key s) | s. s < n \<and> rtq_owns_shard w s}"

lemma rtq_build_consumer_binds:
  assumes "rtq_build_consumer amqp b w [] = (Inr c, log)"
  shows "QueueBind q RTQ_EXCHANGE_NAME key \<in> set log \<longleftrightarrow> (q, key) \<in> rtq_bound w (rtq_cb_shard_count b)"
  using rtq_build_consumer_Inr [OF assms] by (auto simp: rtq_bind_call_def rtq_bound_def)

interpretation rtq: sharded_queue "\<lambda>i m. \<lparr>rtq_worker_index = i, rtq_worker_count = m\<rparr>" rtq_owns_shard
  shard_for_resource_uid rtq_shard_routing_key rtq_worker_queue_name rtq_bound
proof
  fix i j m n s t :: "16 word" and k q key
  show "rtq_owns_shard \<lparr>rtq_worker_index = i, rtq_worker_count = m\<rparr> s \<longleftrightarrow> s mod m = i"
    by (simp add: rtq_owns_shard_def)
  show "n \<noteq> 0 \<Longrightarrow> \<exists>s. shard_for_resource_uid k n = Some s \<and> s < n"
    by (simp add: shard_for_resource_uid_def shard_mod_less)
  show "shard_for_resource_uid k 0 = None"
    by (simp add: shard_for_resource_uid_def)
  show "rtq_shard_routing_key s = rtq_shard_routing_key t \<Longrightarrow> s = t" by simp
  show "rtq_worker_queue_name \<lparr>rtq_worker_index = i, rtq_worker_count = m\<rparr> =
      rtq_worker_queue_name \<lparr>rtq_worker_index = j, rtq_worker_count = m\<rparr> \<Longrightarrow> i = j"
    by (drule rtq_worker_queue_name_inj) simp
qed (auto simp: rtq_bound_def)

lemma rtq_pub_call_Inr: "rtq_pub_call amqp c s = (Inr u, s') \<longleftrightarrow>
    amqp (rtq_calls s @ [c]) = None \<and> s' = s\<lparr>rtq_calls := rtq_calls s @ [c]\<rparr>"
  by (auto simp: rtq_pub_call_def amqp_call_def Let_def split: option.splits)

lemma rtq_channel_for_Inr:
  assumes "rtq_channel_for amqp p region s = (Inr u, s')"
  shows "\<exists>pre. rtq_calls s' = rtq_calls s @ pre \<and> region \<in> rtq_connections s'"
  using assms by (auto simp: rtq_channel_for_def seq_Inr rtq_pub_call_Inr modify_state_def split: if_splits)

lemma rtq_enqueue_Inr:
  assumes "rtq_enqueue amqp encode_json p region r s = (Inr u, s')"
  shows "\<exists>shard payload pre.
    shard_for_resource_uid (resource_uid (message_resource r)) (rtq_pub_shard_count p) = Some shard \<and>
    encode_json r = Inr payload \<and> region \<in> rtq_connections s' \<and>
    rtq_calls s' = rtq_calls s @ pre @ [BasicPublish RTQ_EXCHANGE_NAME (rtq_shard_routing_key shard) payload, ConfirmPublish]"
  using assms
  by (fastforce simp: rtq_enqueue_def seq_Inr rtq_pub_call_Inr fail_with_def
      dest!: rtq_channel_for_Inr split: option.splits sum.splits)

section \<open>Properties of the transition queue\<close>

text \<open>
  In a cluster whose workers are all set up with the publisher's number of shards, any two
  transition messages about one resource, of whatever kinds and whichever publishers send them,
  are published with one routing key, and it is bound to the queue of exactly one worker: a
  resource has a single worker that sees its transitions.
\<close>

theorem messages_of_resource_reach_one_queue:
  assumes "m \<noteq> 0"
    and "\<forall>i<m. rtq_build_consumer (amqp i) b \<lparr>rtq_worker_index = i, rtq_worker_count = m\<rparr> [] = (Inr (c i), log i)"
    and "rtq_pub_shard_count p = rtq_cb_shard_count b" "rtq_pub_shard_count p' = rtq_cb_shard_count b"
    and "rtq_enqueue amqp1 encode_json p region msg s = (Inr (), t)"
    and "rtq_enqueue amqp2 encode_json p' region' msg' s' = (Inr (), t')"
    and "message_resource msg = message_resource msg'"
  shows "\<exists>key payload payload' pre pre'.
    rtq_calls t = rtq_calls s @ pre @ [BasicPublish RTQ_EXCHANGE_NAME key payload, ConfirmPublish] \<and>
    rtq_calls t' = rtq_calls s' @ pre' @ [BasicPublish RTQ_EXCHANGE_NAME key payload', ConfirmPublish] \<and>
    encode_json msg = Inr payload \<and> encode_json msg' = Inr payload' \<and>
    (\<exists>!q. \<exists>i<m. QueueBind q RTQ_EXCHANGE_NAME key \<in> set (log i))"
proof -
  from rtq_enqueue_Inr [OF assms(5)] rtq_enqueue_Inr [OF assms(6)] assms(3,4,7)
  obtain shard payload pre payload' pre' where
    pub: "shard_for_resource_uid (resource_uid (message_resource msg)) (rtq_cb_shard_count b) = Some shard"
    "encode_json msg = Inr payload" "encode_json msg' = Inr payload'"
    "rtq_calls t = rtq_calls s @ pre @ [BasicPublish RTQ_EXCHANGE_NAME (rtq_shard_routing_key shard) payload, ConfirmPublish]"
    "rtq_calls t' = rtq_calls s' @ pre' @ [BasicPublish RTQ_EXCHANGE_NAME (rtq_shard_routing_key shard) payload', ConfirmPublish]"
    by auto
  have "QueueBind q RTQ_EXCHANGE_NAME key \<in> set (log i) \<longleftrightarrow>
      (q, key) \<in> rtq_bound \<lparr>rtq_worker_index = i, rtq_worker_count = m\<rparr> (rtq_cb_shard_count b)" if "i < m" for q key i
    using assms(2) that by (intro rtq_build_consumer_binds) auto
  with rtq.delivered_to_one_queue [OF assms(1) pub(1)]
  have "\<exists>!q. \<exists>i<m. QueueBind q RTQ_EXCHANGE_NAME (rtq_shard_routing_key shard) \<in> set (log i)"
    by (simp cong: conj_cong)
  with pub show ?thesis by blast
qed

definition example_ref :: "string \<Rightarrow> ResourceRef" where
  "example_ref n = \<lparr>ref_env = example_env, ref_id = example_rid n\<rparr>"

theorem messages_of_resource_reach_one_queue_witness:
  "\<exists>key. (\<exists>!q. \<exists>i<2. QueueBind q RTQ_EXCHANGE_NAME key \<in>
      set (snd (rtq_build_consumer (\<lambda>_. None :: unit option) (RtqClientBuilder_new\<lparr>rtq_cb_shard_count := 2\<rparr>)
        \<lparr>rtq_worker_index = i, rtq_worker_count = 2\<rparr> [] :: ((unit, unit) RtqConsumerError + RtqConsumer) \<times> _)))"
proof -
  let ?d = "Destroy \<lparr>dm_resource = example_ref ''seed'', dm_deployment_id = example_did 7,
    dm_home_region = RegionId ''stockholm''\<rparr> :: unit Message"
  let ?k = "Check \<lparr>km_resource = example_ref ''seed'', km_deployment_id = example_did 7,
    km_home_region = RegionId ''stockholm''\<rparr> :: unit Message"
  let ?p = "\<lparr>rtq_pub_template = default_template, rtq_pub_shard_count = 2\<rparr>"
  let ?s = "\<lparr>rtq_connections = {}, rtq_calls = []\<rparr>"
  let ?b = "RtqClientBuilder_new\<lparr>rtq_cb_shard_count := 2\<rparr>"
  let ?run = "\<lambda>i. rtq_build_consumer (\<lambda>_. None :: unit option) ?b
        \<lparr>rtq_worker_index = i, rtq_worker_count = 2\<rparr> [] :: ((unit, unit) RtqConsumerError + RtqConsumer) \<times> _"
  let ?pub = "\<lambda>m. rtq_enqueue (\<lambda>_. None :: unit option) (\<lambda>_. Inr ''{}'' :: unit + string) ?p
        (RegionId ''stockholm'') m ?s"
  have "\<forall>i<2. \<exists>c. ?run i = (Inr c, snd (?run i))"
  proof (intro allI impI)
    fix i :: "16 word"
    assume "i < 2"
    then have "rtq_worker_validate \<lparr>rtq_worker_index = i, rtq_worker_count = 2\<rparr> = Inr ()"
      by (simp add: rtq_worker_validate_def)
    then have "\<exists>c log'. ?run i = (Inr c, log')" by (rule rtq_build_consumer_total)
    then show "\<exists>c. ?run i = (Inr c, snd (?run i))" by fastforce
  qed
  then obtain c where runs: "\<forall>i<2. ?run i = (Inr (c i), snd (?run i))" by metis
  have pub: "?pub m = (Inr (), snd (?pub m))" for m
    by (simp add: rtq_enqueue_def rtq_channel_for_def seq_def rtq_pub_call_def amqp_call_def
        modify_state_def shard_for_resource_uid_def)
  have "(2 :: 16 word) \<noteq> 0" "rtq_pub_shard_count ?p = rtq_cb_shard_count ?b"
    "message_resource ?d = message_resource ?k" by simp_all
  from messages_of_resource_reach_one_queue [OF this(1) runs this(2,2) pub pub this(3)] show ?thesis by blast
qed

text \<open>
  The type and the name of a resource reference are not checked when a message is decoded,
  so separators can be injected: there are two wire forms that are accepted and stand for
  different resources with one uid, the text that routing uses.
\<close>

theorem resource_ref_separator_injection:
  "\<exists>raw raw' r r'. resource_ref_deserialize raw = Inr r \<and> resource_ref_deserialize raw' = Inr r' \<and>
    r \<noteq> r' \<and> resource_uid r = resource_uid r'"
proof -
  let ?raw = "\<lambda>t n. \<lparr>raw_environment_qid = ''acme/shop::main'', raw_region = ''stockholm'',
    raw_resource_type = t, raw_resource_name = n\<rparr>"
  let ?r = "\<lambda>t n. \<lparr>ref_env = example_env, ref_id = \<lparr>rid_region = RegionId ''stockholm'', rid_typ = t, rid_name = n\<rparr>\<rparr>"
  have "resource_ref_deserialize (?raw t n) = Inr (?r t n)" for t n
    by (simp add: resource_ref_deserialize_def) code_simp
  moreover have "?r ''A'' ''B:c'' \<noteq> ?r ''A:B'' ''c''"
    by simp
  moreover have "resource_uid (?r ''A'' ''B:c'') = resource_uid (?r ''A:B'' ''c'')"
    by (simp add: resource_uid_def ResourceId_display_def)
  ultimately show ?thesis by blast
qed

end
