(* ===== verification/Cql.thy ===== *)
theory Cql
  imports Skyr_Prelude
begin

text \<open>
  What the database clients (\<^verbatim>\<open>crates/sdb\<close>, \<^verbatim>\<open>crates/cdb\<close>, \<^verbatim>\<open>crates/rdb\<close>) share: running a CQL statement
  on a session, and partitions whose rows are kept in clustering order. The network and the
  database cluster are a parameter that says how each statement ends.
\<close>

section \<open>Running a statement\<close>

text \<open>
  A statement succeeds, or it fails before it takes effect, or it takes effect and its answer is
  lost, which the client sees as a failure too.
\<close>

datatype Exec = ExecOk | ExecLost | ExecApplied

type_synonym network = "nat \<Rightarrow> Exec"

record 't Db =
  executed :: nat
  tables :: 't

definition exec :: "network \<Rightarrow> 'e \<Rightarrow> ('t \<Rightarrow> 'a \<times> 't) \<Rightarrow> ('t Db, 'e, 'a) op" where
  "exec net e f d =
    (let (x, t) = f (tables d); d' = d\<lparr>executed := Suc (executed d)\<rparr>
     in (case net (executed d) of
           ExecOk \<Rightarrow> (Inr x, d'\<lparr>tables := t\<rparr>)
         | ExecLost \<Rightarrow> (Inl e, d')
         | ExecApplied \<Rightarrow> (Inl e, d'\<lparr>tables := t\<rparr>)))"

definition cql_read :: "network \<Rightarrow> 'e \<Rightarrow> ('t \<Rightarrow> 'a) \<Rightarrow> ('t Db, 'e, 'a) op" where
  "cql_read net e f = exec net e (\<lambda>t. (f t, t))"

definition cql_write :: "network \<Rightarrow> 'e \<Rightarrow> ('t \<Rightarrow> 't) \<Rightarrow> ('t Db, 'e, unit) op" where
  "cql_write net e f = exec net e (\<lambda>t. ((), f t))"

abbreviation up :: network where
  "up \<equiv> \<lambda>_. ExecOk"

lemma exec_up [simp]:
  "exec up e f d = (Inr (fst (f (tables d))), \<lparr>executed = Suc (executed d), tables = snd (f (tables d))\<rparr>)"
  by (cases d) (simp add: exec_def Let_def split: prod.splits)

lemma cql_read_up [simp]:
  "cql_read up e f d = (Inr (f (tables d)), \<lparr>executed = Suc (executed d), tables = tables d\<rparr>)"
  by (simp add: cql_read_def)

lemma cql_write_up [simp]:
  "cql_write up e f d = (Inr (), \<lparr>executed = Suc (executed d), tables = f (tables d)\<rparr>)"
  by (simp add: cql_write_def)

lemma seq_up [simp]:
  "seq (exec up e f) k d = k (fst (f (tables d))) \<lparr>executed = Suc (executed d), tables = snd (f (tables d))\<rparr>"
  "seq (cql_read up e g) k' d = k' (g (tables d)) \<lparr>executed = Suc (executed d), tables = tables d\<rparr>"
  "seq (cql_write up e h) k'' d = k'' () \<lparr>executed = Suc (executed d), tables = h (tables d)\<rparr>"
  by (simp_all add: seq_def)

lemma cql_read_tables [simp]: "tables (snd (cql_read net e f d)) = tables d"
  by (simp add: cql_read_def exec_def Let_def split: Exec.splits)

lemma cql_read_result: "fst (cql_read net e f d) = Inr x \<Longrightarrow> x = f (tables d)"
  by (auto simp: cql_read_def exec_def Let_def split: Exec.splits)

lemma cql_read_executed [simp]: "executed (snd (cql_read net e f d)) = Suc (executed d)"
  by (simp add: cql_read_def exec_def Let_def split: Exec.splits)

lemma cql_write_executed [simp]: "executed (snd (cql_write net e f d)) = Suc (executed d)"
  by (simp add: cql_write_def exec_def Let_def split: Exec.splits)

lemma cql_write_tables: "tables (snd (cql_write net e f d)) \<in> {tables d, f (tables d)}"
  by (simp add: cql_write_def exec_def Let_def split: Exec.splits)

lemma cql_write_ok: "fst (cql_write net e f d) = Inr u \<Longrightarrow> tables (snd (cql_write net e f d)) = f (tables d)"
  by (simp add: cql_write_def exec_def Let_def split: Exec.splits)

lemma cql_write_invariant:
  assumes "I (tables d)" "I (f (tables d))"
  shows "I (tables (snd (cql_write net e f d)))"
  using cql_write_tables [of net e f d] assms by auto

lemma exec_invariant:
  assumes "I (tables d)" "I (snd (f (tables d)))"
  shows "I (tables (snd (exec net e f d)))"
  using assms by (auto simp: exec_def Let_def split: prod.splits Exec.splits)

text \<open>How a statement fits an invariant of the tables that may mention the statement counter.\<close>

lemma op_ok_read:
  assumes "\<And>n t. P n t \<Longrightarrow> Q (f t) (Suc n) t" "\<And>n t. P n t \<Longrightarrow> R (Suc n) t"
  shows "op_ok (\<lambda>d. P (executed d) (tables d)) (cql_read net e f)
    (\<lambda>x d. Q x (executed d) (tables d)) (\<lambda>d. R (executed d) (tables d))"
  using assms by (simp add: op_ok_def cql_read_def exec_def Let_def split: Exec.splits)

lemma op_ok_exec:
  assumes "\<And>n t. P n t \<Longrightarrow> Q (fst (f t)) (Suc n) (snd (f t))"
    "\<And>n t. P n t \<Longrightarrow> R (Suc n) t" "\<And>n t. P n t \<Longrightarrow> R (Suc n) (snd (f t))"
  shows "op_ok (\<lambda>d. P (executed d) (tables d)) (exec net e f)
    (\<lambda>x d. Q x (executed d) (tables d)) (\<lambda>d. R (executed d) (tables d))"
  using assms by (simp add: op_ok_def exec_def Let_def case_prod_beta split: Exec.splits)

lemma op_ok_write:
  assumes "\<And>n t. P n t \<Longrightarrow> Q (Suc n) (f t)"
    "\<And>n t. P n t \<Longrightarrow> R (Suc n) t" "\<And>n t. P n t \<Longrightarrow> R (Suc n) (f t)"
  shows "op_ok (\<lambda>d. P (executed d) (tables d)) (cql_write net e f)
    (\<lambda>x d. Q (executed d) (tables d)) (\<lambda>d. R (executed d) (tables d))"
  using assms by (simp add: op_ok_def cql_write_def exec_def Let_def split: Exec.splits)

text \<open>\<open>keeps I m\<close>: the operation keeps the invariant, whether it succeeds or fails.\<close>

definition keeps :: "(nat \<Rightarrow> 't \<Rightarrow> bool) \<Rightarrow> ('t Db, 'e, 'a) op \<Rightarrow> bool" where
  "keeps I m \<longleftrightarrow> op_ok (\<lambda>d. I (executed d) (tables d)) m
    (\<lambda>_ d. I (executed d) (tables d)) (\<lambda>d. I (executed d) (tables d))"

lemma keeps_seq: "keeps I m \<Longrightarrow> (\<And>x. keeps I (k x)) \<Longrightarrow> keeps I (seq m k)"
  unfolding keeps_def by (rule op_ok_seq)

lemma keeps_read: "(\<And>n t. I n t \<Longrightarrow> I (Suc n) t) \<Longrightarrow> keeps I (cql_read net e f)"
  unfolding keeps_def by (rule op_ok_read)

lemma keeps_write: "(\<And>n t. I n t \<Longrightarrow> I (Suc n) t) \<Longrightarrow> (\<And>n t. I n t \<Longrightarrow> I (Suc n) (f t)) \<Longrightarrow> keeps I (cql_write net e f)"
  unfolding keeps_def by (rule op_ok_write)

lemma keeps_done: "keeps I (done_with x)"
  unfolding keeps_def by (rule op_ok_done)

lemma keeps_fail: "keeps I (fail_with e)"
  unfolding keeps_def by (rule op_ok_fail)

lemma keeps_of_result: "keeps I (of_result r)"
  unfolding keeps_def by (rule op_ok_of_result)

lemma keeps_option: "keeps I m \<Longrightarrow> (\<And>y. keeps I (k y)) \<Longrightarrow> keeps I (case x of None \<Rightarrow> m | Some y \<Rightarrow> k y)"
  by (cases x) auto

lemmas keeps_intros = keeps_seq keeps_read keeps_write keeps_done keeps_fail keeps_of_result keeps_option

lemma keeps_state:
  "keeps I m \<Longrightarrow> I (executed d) (tables d) \<Longrightarrow> I (executed (snd (m d))) (tables (snd (m d)))"
  unfolding keeps_def by (rule op_ok_state)

section \<open>Rows in clustering order\<close>

text \<open>
  A partition is the list of its rows in clustering order, by a strict order on the clustering
  key. Writing a row replaces the row with its key.
\<close>

fun put_row :: "('k \<Rightarrow> 'k \<Rightarrow> bool) \<Rightarrow> 'k \<Rightarrow> 'v \<Rightarrow> ('k \<times> 'v) list \<Rightarrow> ('k \<times> 'v) list" where
  "put_row before k v [] = [(k, v)]"
| "put_row before k v (r # rows) =
    (if fst r = k then (k, v) # rows
     else if before k (fst r) then (k, v) # r # rows
     else r # put_row before k v rows)"

definition get_row :: "'k \<Rightarrow> ('k \<times> 'v) list \<Rightarrow> 'v option" where
  "get_row k rows = map_of rows k"

definition delete_row :: "'k \<Rightarrow> ('k \<times> 'v) list \<Rightarrow> ('k \<times> 'v) list" where
  "delete_row k rows = filter (\<lambda>r. fst r \<noteq> k) rows"

definition clustered :: "('k \<Rightarrow> 'k \<Rightarrow> bool) \<Rightarrow> ('k \<times> 'v) list \<Rightarrow> bool" where
  "clustered before rows \<longleftrightarrow> sorted_wrt before (map fst rows)"

lemma get_put_row [simp]: "get_row k' (put_row before k v rows) = (if k' = k then Some v else get_row k' rows)"
  by (induction rows) (auto simp: get_row_def)

lemma get_delete_row [simp]: "get_row k' (delete_row k rows) = (if k' = k then None else get_row k' rows)"
  by (induction rows) (auto simp: get_row_def delete_row_def)

lemma get_row_Nil [simp]: "get_row k [] = None"
  by (simp add: get_row_def)

lemma get_row_Cons [simp]: "get_row k (r # rows) = (if fst r = k then Some (snd r) else get_row k rows)"
  by (cases r) (simp add: get_row_def)

lemma get_row_None: "get_row k rows = None \<longleftrightarrow> k \<notin> fst ` set rows"
  by (simp add: get_row_def map_of_eq_None_iff)

lemma fst_put_row: "fst ` set (put_row before k v rows) = insert k (fst ` set rows)"
  by (induction rows) auto

locale clustering_order =
  fixes before :: "'k \<Rightarrow> 'k \<Rightarrow> bool"
  assumes irrefl: "\<not> before k k"
    and trans: "before a b \<Longrightarrow> before b c \<Longrightarrow> before a c"
    and total: "a \<noteq> b \<Longrightarrow> before a b \<or> before b a"
begin

lemma clustered_put_row: "clustered before rows \<Longrightarrow> clustered before (put_row before k v rows)"
proof (induction rows)
  case (Cons r rows)
  have "before (fst r) k \<or> fst r = k \<or> before k (fst r)" using total by blast
  moreover have "before (fst r) k \<Longrightarrow> x \<in> fst ` set (put_row before k v rows) \<Longrightarrow> before (fst r) x" for x
    using Cons.prems by (auto simp: fst_put_row clustered_def)
  ultimately show ?case
    using Cons trans [of k "fst r"] unfolding clustered_def by auto
qed (simp add: clustered_def)

lemma clustered_distinct: "clustered before rows \<Longrightarrow> distinct (map fst rows)"
  unfolding clustered_def by (induction rows) (auto simp: irrefl)

lemma clustered_get_row: "clustered before rows \<Longrightarrow> (k, v) \<in> set rows \<longleftrightarrow> get_row k rows = Some v"
  using clustered_distinct [of rows] by (simp add: get_row_def)

end

lemma clustered_delete_row: "clustered before rows \<Longrightarrow> clustered before (delete_row k rows)"
  by (induction rows) (auto simp: clustered_def delete_row_def)

end
