(* ===== verification/Sdb.thy ===== *)
theory Sdb
  imports Rq Cql "HOL-Library.Char_ord" "HOL-Library.List_Lexorder" "HOL-Library.Multiset"
begin

text \<open>
  The status database client, \<^verbatim>\<open>crates/sdb/src\<close>: per-entity status summaries, incidents, the
  registry of open incidents that a conditional insert guards, and the report stream of an
  incident with the summary projected from it. Tables are rows in clustering order, columns are
  optional where a partial write can leave them unset, and integers have the width of their
  column. Generating a ULID is a parameter: a function of the timestamp and of a counter.
\<close>

section \<open>Data\<close>

datatype IncidentId = IncidentId (ulid_str: string)

type_synonym ulid_source = "int \<Rightarrow> nat \<Rightarrow> IncidentId"

record Incident =
  inc_id :: IncidentId
  inc_entity_qid :: string
  inc_category :: IncidentCategory
  inc_opened_at :: int
  inc_closed_at :: "int option"
  inc_last_report_at :: int
  inc_report_count :: "64 word"
  inc_summary :: string

definition is_open :: "Incident \<Rightarrow> bool" where
  "is_open i \<longleftrightarrow> inc_closed_at i = None"

record IncidentReport =
  report_at :: int
  error_message :: string

record StatusSummary =
  ss_entity_qid :: string
  ss_last_report_at :: int
  ss_last_report_succeeded :: bool
  ss_open_incident_count :: "32 word"
  ss_worst_open_category :: "IncidentCategory option"
  ss_consecutive_failure_count :: "32 word"
  ss_operational_state :: "string option"

datatype SdbError =
    SdbExecute
  | SdbPager
  | SdbIntoRows
  | SdbTypeCheck
  | SdbNextRow
  | SdbSingleRow
  | SdbFirstRow
  | SdbMaybeFirstRow
  | SdbRows
  | SdbInvalidCategory InvalidCategory
  | SdbInvalidIncidentId

section \<open>Tables\<close>

record SummaryRow =
  sr_last_report_at :: int
  sr_last_report_succeeded :: bool
  sr_open_incident_count :: "32 word"
  sr_worst_open_category :: "string option"
  sr_consecutive_failure_count :: "32 word"
  sr_operational_state :: "string option"

record IncidentRow =
  ir_entity_qid :: "string option"
  ir_category :: "string option"
  ir_opened_at :: "int option"
  ir_closed_at :: "int option"
  ir_last_report_at :: "int option"
  ir_report_count :: "64 word option"
  ir_summary :: "string option"

definition empty_incident_row :: IncidentRow where
  "empty_incident_row = \<lparr>ir_entity_qid = None, ir_category = None, ir_opened_at = None, ir_closed_at = None,
    ir_last_report_at = None, ir_report_count = None, ir_summary = None\<rparr>"

record SdbTables =
  summaries :: "string \<rightharpoonup> SummaryRow"
  incidents :: "string \<Rightarrow> (IncidentId \<times> IncidentRow) list"
  open_slots :: "string \<Rightarrow> (string \<times> IncidentId) list"
  incident_reports :: "IncidentId \<Rightarrow> (int \<times> string) list"

text \<open>Incidents cluster by identifier and reports by time, newest first; slots by category.\<close>

definition newer_id :: "IncidentId \<Rightarrow> IncidentId \<Rightarrow> bool" where
  "newer_id i j \<longleftrightarrow> ulid_str i > ulid_str j"

abbreviation newer :: "int \<Rightarrow> int \<Rightarrow> bool" where
  "newer a b \<equiv> a > b"

abbreviation text_before :: "string \<Rightarrow> string \<Rightarrow> bool" where
  "text_before a b \<equiv> a < b"

interpretation newer_id: clustering_order newer_id
  by unfold_locales (auto simp: newer_id_def, metis IncidentId.expand linorder_neq_iff)

interpretation newer: clustering_order newer
  by unfold_locales auto

interpretation text_before: clustering_order text_before
  by unfold_locales auto

section \<open>Summaries of report streams\<close>

definition REPORT_MESSAGE_MAX_CHARS :: nat where
  "REPORT_MESSAGE_MAX_CHARS = 512"

definition SUMMARY_JOINER :: string where
  "SUMMARY_JOINER = [CHR 0x0A, CHR 0x0A]"

text \<open>A string is its UTF-8 bytes; a byte that is not a continuation byte starts a character.\<close>

definition is_continuation :: "char \<Rightarrow> bool" where
  "is_continuation c \<longleftrightarrow> 128 \<le> byte_of c \<and> byte_of c < 192"

definition chars_count :: "string \<Rightarrow> nat" where
  "chars_count s = length (filter (\<lambda>c. \<not> is_continuation c) s)"

fun take_chars :: "nat \<Rightarrow> string \<Rightarrow> string" where
  "take_chars n [] = []"
| "take_chars n (c # cs) =
    (if is_continuation c then c # take_chars n cs
     else (case n of 0 \<Rightarrow> [] | Suc m \<Rightarrow> c # take_chars m cs))"

definition truncate_for_summary :: "string \<Rightarrow> string" where
  "truncate_for_summary message =
    (if chars_count message \<le> REPORT_MESSAGE_MAX_CHARS then message
     else take_chars REPORT_MESSAGE_MAX_CHARS message @ ''...'')"

fun join :: "string \<Rightarrow> string list \<Rightarrow> string" where
  "join sep [] = []"
| "join sep [s] = s"
| "join sep (s # t # ts) = s @ sep @ join sep (t # ts)"

fun summary_loop :: "IncidentReport list \<Rightarrow> string list \<Rightarrow> string list" where
  "summary_loop [] seen = seen"
| "summary_loop (r # rs) seen =
    (let truncated = truncate_for_summary (error_message r) in
     if truncated = [] then summary_loop rs seen
     else if truncated \<notin> set seen then summary_loop rs (seen @ [truncated])
     else summary_loop rs seen)"

definition compute_summary :: "IncidentReport list \<Rightarrow> string" where
  "compute_summary reports = join SUMMARY_JOINER (summary_loop (sort_key report_at reports) [])"

section \<open>Status summaries\<close>

text \<open>An \<^verbatim>\<open>i32\<close> column read with \<^verbatim>\<open>max(0) as u32\<close>, and the cast that writes it.\<close>

definition i32_max0 :: "32 word \<Rightarrow> 32 word" where
  "i32_max0 w = (if sint w < 0 then 0 else w)"

definition status_summary :: "network \<Rightarrow> string \<Rightarrow> (SdbTables Db, SdbError, StatusSummary option) op" where
  "status_summary net entity =
    seq (cql_read net SdbExecute (\<lambda>t. summaries t entity)) (\<lambda>row.
    case row of
      None \<Rightarrow> done_with None
    | Some r \<Rightarrow>
        (case (case sr_worst_open_category r of
                 None \<Rightarrow> Inr None
               | Some s \<Rightarrow> (case category_from_str s of Inl e \<Rightarrow> Inl (SdbInvalidCategory e) | Inr c \<Rightarrow> Inr (Some c))) of
           Inl e \<Rightarrow> fail_with e
         | Inr worst \<Rightarrow>
             done_with (Some \<lparr>ss_entity_qid = entity,
               ss_last_report_at = sr_last_report_at r,
               ss_last_report_succeeded = sr_last_report_succeeded r,
               ss_open_incident_count = i32_max0 (sr_open_incident_count r),
               ss_worst_open_category = worst,
               ss_consecutive_failure_count = i32_max0 (sr_consecutive_failure_count r),
               ss_operational_state = sr_operational_state r\<rparr>)))"

definition upsert_status_summary :: "network \<Rightarrow> StatusSummary \<Rightarrow> (SdbTables Db, SdbError, unit) op" where
  "upsert_status_summary net s =
    cql_write net SdbExecute (\<lambda>t. t\<lparr>summaries := (summaries t)(ss_entity_qid s \<mapsto>
      \<lparr>sr_last_report_at = ss_last_report_at s,
       sr_last_report_succeeded = ss_last_report_succeeded s,
       sr_open_incident_count = ss_open_incident_count s,
       sr_worst_open_category = map_option category_as_str (ss_worst_open_category s),
       sr_consecutive_failure_count = ss_consecutive_failure_count s,
       sr_operational_state = ss_operational_state s\<rparr>)\<rparr>)"

definition delete_status_summary :: "network \<Rightarrow> string \<Rightarrow> (SdbTables Db, SdbError, unit) op" where
  "delete_status_summary net entity =
    cql_write net SdbExecute (\<lambda>t. t\<lparr>summaries := (summaries t)(entity := None)\<rparr>)"

section \<open>Incidents\<close>

datatype OpenIncidentOutcome = Opened Incident | AlreadyOpen IncidentId

datatype CloseIncidentOutcome = Closed Incident | NotOpen

text \<open>\<^verbatim>\<open>i64::try_from(n).unwrap_or(i64::MAX)\<close>, and the \<^verbatim>\<open>max(0) as u64\<close> that reads it back.\<close>

definition i64_saturate :: "64 word \<Rightarrow> 64 word" where
  "i64_saturate n = (if n \<le> 0x7FFFFFFFFFFFFFFF then n else 0x7FFFFFFFFFFFFFFF)"

definition i64_max0 :: "64 word \<Rightarrow> 64 word" where
  "i64_max0 w = (if sint w < 0 then 0 else w)"

definition row_incident :: "SdbError \<Rightarrow> IncidentId \<Rightarrow> IncidentRow \<Rightarrow> SdbError + Incident" where
  "row_incident row_error i row =
    (case (ir_entity_qid row, ir_category row, ir_opened_at row, ir_last_report_at row, ir_report_count row) of
       (Some entity, Some category, Some opened, Some latest, Some n) \<Rightarrow>
         (case category_from_str category of
            Inl e \<Rightarrow> Inl (SdbInvalidCategory e)
          | Inr c \<Rightarrow> Inr \<lparr>inc_id = i, inc_entity_qid = entity, inc_category = c, inc_opened_at = opened,
              inc_closed_at = ir_closed_at row, inc_last_report_at = latest, inc_report_count = i64_max0 n,
              inc_summary = (case ir_summary row of None \<Rightarrow> [] | Some s \<Rightarrow> s)\<rparr>)
     | _ \<Rightarrow> Inl row_error)"

definition incident_in_env :: "network \<Rightarrow> string \<Rightarrow> IncidentId \<Rightarrow> (SdbTables Db, SdbError, Incident option) op" where
  "incident_in_env net env i =
    seq (cql_read net SdbExecute (\<lambda>t. get_row i (incidents t env))) (\<lambda>row.
    case row of
      None \<Rightarrow> done_with None
    | Some r \<Rightarrow> seq (of_result (row_incident SdbMaybeFirstRow i r)) (\<lambda>inc. done_with (Some inc)))"

fun parse_incidents :: "(IncidentId \<times> IncidentRow) list \<Rightarrow> SdbError + Incident list" where
  "parse_incidents [] = Inr []"
| "parse_incidents ((i, row) # rows) =
    (case row_incident SdbNextRow i row of
       Inl e \<Rightarrow> Inl e
     | Inr inc \<Rightarrow> (case parse_incidents rows of Inl e \<Rightarrow> Inl e | Inr out \<Rightarrow> Inr (inc # out)))"

definition incidents_in_env :: "network \<Rightarrow> string \<Rightarrow> (SdbTables Db, SdbError, Incident list) op" where
  "incidents_in_env net env =
    seq (cql_read net SdbPager (\<lambda>t. incidents t env)) (\<lambda>rows. of_result (parse_incidents rows))"

definition find_open_incident_id ::
  "network \<Rightarrow> string \<Rightarrow> IncidentCategory \<Rightarrow> (SdbTables Db, SdbError, IncidentId option) op" where
  "find_open_incident_id net entity category =
    cql_read net SdbExecute (\<lambda>t. get_row (category_as_str category) (open_slots t entity))"

fun parse_slots :: "(string \<times> IncidentId) list \<Rightarrow> SdbError + (IncidentCategory \<times> IncidentId) list" where
  "parse_slots [] = Inr []"
| "parse_slots ((category, i) # rows) =
    (case category_from_str category of
       Inl e \<Rightarrow> Inl (SdbInvalidCategory e)
     | Inr c \<Rightarrow> (case parse_slots rows of Inl e \<Rightarrow> Inl e | Inr out \<Rightarrow> Inr ((c, i) # out)))"

definition list_open_incidents_for_entity ::
  "network \<Rightarrow> string \<Rightarrow> (SdbTables Db, SdbError, (IncidentCategory \<times> IncidentId) list) op" where
  "list_open_incidents_for_entity net entity =
    seq (cql_read net SdbPager (\<lambda>t. open_slots t entity)) (\<lambda>rows. of_result (parse_slots rows))"

fun collect_incidents ::
  "network \<Rightarrow> string \<Rightarrow> (IncidentCategory \<times> IncidentId) list \<Rightarrow> (SdbTables Db, SdbError, Incident list) op" where
  "collect_incidents net env [] = done_with []"
| "collect_incidents net env ((c, i) # slots) =
    seq (incident_in_env net env i) (\<lambda>found.
    seq (collect_incidents net env slots) (\<lambda>out.
    done_with (case found of None \<Rightarrow> out | Some inc \<Rightarrow> inc # out)))"

definition open_incidents_for_entity ::
  "network \<Rightarrow> string \<Rightarrow> string \<Rightarrow> (SdbTables Db, SdbError, Incident list) op" where
  "open_incidents_for_entity net entity env =
    seq (list_open_incidents_for_entity net entity) (collect_incidents net env)"

definition list_reports_for_incident ::
  "network \<Rightarrow> IncidentId \<Rightarrow> (SdbTables Db, SdbError, IncidentReport list) op" where
  "list_reports_for_incident net i =
    cql_read net SdbPager (\<lambda>t. map (\<lambda>(at, msg). \<lparr>report_at = at, error_message = msg\<rparr>) (incident_reports t i))"

definition insert_incident_report :: "IncidentId \<Rightarrow> int \<Rightarrow> string \<Rightarrow> SdbTables \<Rightarrow> SdbTables" where
  "insert_incident_report i at msg t =
    t\<lparr>incident_reports := (incident_reports t)(i := put_row newer at msg (incident_reports t i))\<rparr>"

definition claim_open_slot :: "string \<Rightarrow> string \<Rightarrow> IncidentId \<Rightarrow> SdbTables \<Rightarrow> IncidentId option \<times> SdbTables" where
  "claim_open_slot entity category i t =
    (case get_row category (open_slots t entity) of
       Some existing \<Rightarrow> (Some existing, t)
     | None \<Rightarrow> (None, t\<lparr>open_slots := (open_slots t)(entity := put_row text_before category i (open_slots t entity))\<rparr>))"

definition release_open_slot :: "string \<Rightarrow> string \<Rightarrow> SdbTables \<Rightarrow> SdbTables" where
  "release_open_slot entity category t =
    t\<lparr>open_slots := (open_slots t)(entity := delete_row category (open_slots t entity))\<rparr>"

definition put_incident :: "string \<Rightarrow> IncidentId \<Rightarrow> IncidentRow \<Rightarrow> SdbTables \<Rightarrow> SdbTables" where
  "put_incident env i row t = t\<lparr>incidents := (incidents t)(env := put_row newer_id i row (incidents t env))\<rparr>"

text \<open>An \<^verbatim>\<open>UPDATE\<close> sets columns of a row and creates the row if it is absent.\<close>

definition update_incident :: "string \<Rightarrow> IncidentId \<Rightarrow> (IncidentRow \<Rightarrow> IncidentRow) \<Rightarrow> SdbTables \<Rightarrow> SdbTables" where
  "update_incident env i f t =
    put_incident env i (f (case get_row i (incidents t env) of None \<Rightarrow> empty_incident_row | Some r \<Rightarrow> r)) t"

definition record_new_incident ::
  "network \<Rightarrow> IncidentId \<Rightarrow> string \<Rightarrow> string \<Rightarrow> IncidentCategory \<Rightarrow> int \<Rightarrow> string
    \<Rightarrow> (SdbTables Db, SdbError, OpenIncidentOutcome) op" where
  "record_new_incident net new_id entity env category opened_at msg =
    (let summary = truncate_for_summary msg in
     seq (cql_write net SdbExecute (insert_incident_report new_id opened_at msg)) (\<lambda>_.
     seq (cql_write net SdbExecute (put_incident env new_id
       \<lparr>ir_entity_qid = Some entity, ir_category = Some (category_as_str category),
        ir_opened_at = Some opened_at, ir_closed_at = None, ir_last_report_at = Some opened_at,
        ir_report_count = Some 1, ir_summary = Some summary\<rparr>)) (\<lambda>_.
     done_with (Opened \<lparr>inc_id = new_id, inc_entity_qid = entity, inc_category = category,
       inc_opened_at = opened_at, inc_closed_at = None, inc_last_report_at = opened_at,
       inc_report_count = 1, inc_summary = summary\<rparr>))))"

definition open_incident ::
  "network \<Rightarrow> ulid_source \<Rightarrow> string \<Rightarrow> string \<Rightarrow> IncidentCategory \<Rightarrow> int \<Rightarrow> string
    \<Rightarrow> (SdbTables Db, SdbError, OpenIncidentOutcome) op" where
  "open_incident net ulid entity env category opened_at msg d =
    (let new_id = ulid opened_at (executed d) in
     seq (exec net SdbExecute (claim_open_slot entity (category_as_str category) new_id)) (\<lambda>existing.
     case existing of
       Some existing_id \<Rightarrow> done_with (AlreadyOpen existing_id)
     | None \<Rightarrow> record_new_incident net new_id entity env category opened_at msg) d)"

definition append_failure_to_open_incident ::
  "network \<Rightarrow> IncidentId \<Rightarrow> string \<Rightarrow> string \<Rightarrow> IncidentCategory \<Rightarrow> int \<Rightarrow> int \<Rightarrow> 64 word \<Rightarrow> string
    \<Rightarrow> (SdbTables Db, SdbError, Incident option) op" where
  "append_failure_to_open_incident net i entity env category opened_at last_report_at new_report_count msg =
    seq (cql_write net SdbExecute (insert_incident_report i last_report_at msg)) (\<lambda>_.
    seq (list_reports_for_incident net i) (\<lambda>reports.
    let summary = compute_summary reports in
    seq (cql_write net SdbExecute (update_incident env i (\<lambda>r. r\<lparr>ir_last_report_at := Some last_report_at,
      ir_report_count := Some (i64_saturate new_report_count), ir_summary := Some summary\<rparr>))) (\<lambda>_.
    seq (incident_in_env net env i) (\<lambda>found.
    done_with (map_option (\<lambda>inc. inc\<lparr>inc_last_report_at := last_report_at, inc_report_count := new_report_count,
      inc_summary := summary, inc_category := category, inc_opened_at := opened_at,
      inc_entity_qid := entity\<rparr>) found)))))"

definition close_incident ::
  "network \<Rightarrow> string \<Rightarrow> string \<Rightarrow> IncidentCategory \<Rightarrow> int \<Rightarrow> int \<Rightarrow> 64 word
    \<Rightarrow> (SdbTables Db, SdbError, CloseIncidentOutcome) op" where
  "close_incident net entity env category closed_at last_report_at final_report_count =
    seq (cql_read net SdbExecute (\<lambda>t. get_row (category_as_str category) (open_slots t entity))) (\<lambda>slot.
    case slot of
      None \<Rightarrow> done_with NotOpen
    | Some i \<Rightarrow>
        seq (cql_write net SdbExecute (release_open_slot entity (category_as_str category))) (\<lambda>_.
        seq (cql_write net SdbExecute (update_incident env i (\<lambda>r. r\<lparr>ir_closed_at := Some closed_at,
          ir_last_report_at := Some last_report_at,
          ir_report_count := Some (i64_saturate final_report_count)\<rparr>))) (\<lambda>_.
        seq (incident_in_env net env i) (\<lambda>updated.
        done_with (case updated of Some inc \<Rightarrow> Closed inc | None \<Rightarrow> NotOpen)))))"

section \<open>Properties of summaries\<close>

lemma sint32_neg: "sint (w :: 32 word) < 0 \<longleftrightarrow> 2 ^ 31 \<le> unat w"
proof -
  have "uint w < 2 ^ 32" using unsigned_less [of w] by simp
  then have "uint w div 2 ^ 31 < 2" by simp
  moreover have "0 \<le> uint w div 2 ^ 31" by (simp add: pos_imp_zdiv_nonneg_iff)
  ultimately have "uint w div 2 ^ 31 = 0 \<or> uint w div 2 ^ 31 = 1" by linarith
  moreover have "uint w div 2 ^ 31 = 0 \<longleftrightarrow> uint w < 2 ^ 31"
    by (auto simp: zdiv_eq_0_iff)
  ultimately have "odd (uint w div 2 ^ 31) \<longleftrightarrow> 2 ^ 31 \<le> uint w" by auto
  moreover have "sint w < 0 \<longleftrightarrow> bit (uint w) 31" by (simp add: sint_uint)
  moreover have "2 ^ 31 \<le> uint w \<longleftrightarrow> 2 ^ 31 \<le> unat w"
    using of_nat_le_iff [of "2 ^ 31" "unat w", where ?'a = int] by simp
  ultimately show ?thesis by (simp add: bit_iff_odd)
qed

lemma i32_max0_id: "i32_max0 w = w \<longleftrightarrow> unat w < 2 ^ 31"
  by (auto simp: i32_max0_def sint32_neg)

lemma status_after_upsert:
  "fst (status_summary up (ss_entity_qid s) (snd (upsert_status_summary up s d))) =
    Inr (Some (s\<lparr>ss_open_incident_count := i32_max0 (ss_open_incident_count s),
      ss_consecutive_failure_count := i32_max0 (ss_consecutive_failure_count s)\<rparr>))"
  by (cases "ss_worst_open_category s")
    (simp_all add: status_summary_def upsert_status_summary_def seq_def done_with_def
      category_codec.parse_display)


section \<open>Properties of the projected summary\<close>

lemma chars_count_take_chars: "chars_count (take_chars n s) = min n (chars_count s)"
proof (induction n s rule: take_chars.induct)
  case (2 n c cs)
  then show ?case by (cases n) (auto simp: chars_count_def)
qed (simp add: chars_count_def)

lemma chars_count_append: "chars_count (s @ t) = chars_count s + chars_count t"
  by (simp add: chars_count_def)

lemma truncate_for_summary_bound: "chars_count (truncate_for_summary s) \<le> REPORT_MESSAGE_MAX_CHARS + 3"
proof -
  have "chars_count ''...'' = 3" by (simp add: chars_count_def is_continuation_def byte_of_def)
  then show ?thesis
    by (simp add: truncate_for_summary_def chars_count_take_chars chars_count_append)
qed

definition segments :: "IncidentReport list \<Rightarrow> string list" where
  "segments rs = filter (\<lambda>m. m \<noteq> []) (map (truncate_for_summary \<circ> error_message) rs)"

lemma remdups_rev_snoc:
  "rev (remdups (rev (xs @ [x]))) =
    (if x \<in> set xs then rev (remdups (rev xs)) else rev (remdups (rev xs)) @ [x])"
  by simp

lemma summary_loop_remdups:
  "summary_loop rs (rev (remdups (rev acc))) = rev (remdups (rev (acc @ segments rs)))"
proof (induction rs arbitrary: acc)
  case (Cons r rs)
  let ?m = "truncate_for_summary (error_message r)"
  show ?case
  proof (cases "?m = []")
    case False
    then have "summary_loop (r # rs) (rev (remdups (rev acc))) = summary_loop rs (rev (remdups (rev (acc @ [?m]))))"
      by (simp add: Let_def)
    also have "\<dots> = rev (remdups (rev ((acc @ [?m]) @ segments rs)))" by (rule Cons.IH)
    finally show ?thesis using False by (simp add: segments_def)
  qed (use Cons.IH [of acc] in \<open>simp add: segments_def\<close>)
qed (simp add: segments_def)

lemma summary_loop_segments: "summary_loop rs [] = rev (remdups (rev (segments rs)))"
  using summary_loop_remdups [of rs "[]"] by simp

text \<open>
  C27. The summary of an incident depends only on which reports it has, not on the order in
  which the database returns them: it joins the distinct non-empty messages, each cut to 512
  characters, in the order of their first occurrence in time.
\<close>

theorem compute_summary_first_seen:
  assumes "distinct (map report_at chronological)" "sorted (map report_at chronological)"
    and "mset reports = mset chronological"
  shows "compute_summary reports = join SUMMARY_JOINER (rev (remdups (rev
    (filter (\<lambda>m. m \<noteq> []) (map (\<lambda>r. truncate_for_summary (error_message r)) chronological)))))"
proof -
  have "inj_on report_at (set reports)"
    using assms(1,3) by (metis distinct_map mset_eq_setD)
  then have "sort_key report_at reports = chronological"
    using assms(2,3) by (simp add: sort_key_inj_key_eq)
  then show ?thesis
    by (simp add: compute_summary_def summary_loop_segments segments_def comp_def)
qed

theorem compute_summary_first_seen_witness:
  "compute_summary [\<lparr>report_at = 20, error_message = ''b''\<rparr>, \<lparr>report_at = 30, error_message = ''a''\<rparr>,
     \<lparr>report_at = 10, error_message = ''a''\<rparr>] = ''a'' @ SUMMARY_JOINER @ ''b''"
  using compute_summary_first_seen [of "[\<lparr>report_at = 10, error_message = ''a''\<rparr>,
      \<lparr>report_at = 20, error_message = ''b''\<rparr>, \<lparr>report_at = 30, error_message = ''a''\<rparr>]"
    "[\<lparr>report_at = 20, error_message = ''b''\<rparr>, \<lparr>report_at = 30, error_message = ''a''\<rparr>,
      \<lparr>report_at = 10, error_message = ''a''\<rparr>]"]
  by (simp add: truncate_for_summary_def chars_count_def REPORT_MESSAGE_MAX_CHARS_def
      is_continuation_def byte_of_def)

end
