(* ===== verification/Sdb_Lifecycle.thy ===== *)
theory Sdb_Lifecycle
  imports Sdb
begin

text \<open>
  What the status database keeps true over any sequence of client calls: a step relation whose
  steps are whole calls of \<^verbatim>\<open>crates/sdb/src/client.rs\<close>, with any failure of any statement on the
  way, and its invariants.
\<close>

section \<open>Steps\<close>

abbreviation slot :: "SdbTables \<Rightarrow> string \<Rightarrow> IncidentCategory \<Rightarrow> IncidentId option" where
  "slot t entity c \<equiv> get_row (category_as_str c) (open_slots t entity)"

abbreviation incident_row :: "SdbTables \<Rightarrow> string \<Rightarrow> IncidentId \<Rightarrow> IncidentRow option" where
  "incident_row t env i \<equiv> get_row i (incidents t env)"

definition empty_sdb :: SdbTables where
  "empty_sdb = \<lparr>summaries = Map.empty, incidents = \<lambda>_. [], open_slots = \<lambda>_. [], incident_reports = \<lambda>_. []\<rparr>"

text \<open>
  The caller derives the environment from the entity, and appends to the incident it found open
  for the entity and the category. \<open>nets\<close> is how the network may behave during a step.
\<close>

inductive sdb_step :: "ulid_source \<Rightarrow> (string \<Rightarrow> string) \<Rightarrow> network set \<Rightarrow> SdbTables Db \<Rightarrow> SdbTables Db \<Rightarrow> bool"
  for ulid env_of nets where
  step_open: "net \<in> nets \<Longrightarrow>
    sdb_step ulid env_of nets d (snd (open_incident net ulid entity (env_of entity) c at msg d))"
| step_append: "net \<in> nets \<Longrightarrow> slot (tables d) entity c = Some i \<Longrightarrow>
    sdb_step ulid env_of nets d
      (snd (append_failure_to_open_incident net i entity (env_of entity) c opened at n msg d))"
| step_close: "net \<in> nets \<Longrightarrow>
    sdb_step ulid env_of nets d (snd (close_incident net entity (env_of entity) c at last_at n d))"
| step_upsert: "net \<in> nets \<Longrightarrow> sdb_step ulid env_of nets d (snd (upsert_status_summary net s d))"
| step_delete: "net \<in> nets \<Longrightarrow> sdb_step ulid env_of nets d (snd (delete_status_summary net entity d))"
| step_read: "sdb_step ulid env_of nets d (d\<lparr>executed := Suc (executed d)\<rparr>)"

abbreviation sdb_reachable :: "ulid_source \<Rightarrow> (string \<Rightarrow> string) \<Rightarrow> network set \<Rightarrow> SdbTables Db \<Rightarrow> bool" where
  "sdb_reachable ulid env_of nets \<equiv> (sdb_step ulid env_of nets)\<^sup>*\<^sup>* \<lparr>executed = 0, tables = empty_sdb\<rparr>"

definition ulid_unique :: "ulid_source \<Rightarrow> bool" where
  "ulid_unique ulid \<longleftrightarrow> (\<forall>t n t' n'. ulid t n = ulid t' n' \<longrightarrow> n = n')"

section \<open>The invariant that no failure breaks\<close>

text \<open>
  \<open>kept\<close> is a set of closed incidents with their closing times. Identifiers in the tables were
  drawn before statement \<open>n\<close>.
\<close>

definition drawn :: "ulid_source \<Rightarrow> nat \<Rightarrow> IncidentId \<Rightarrow> bool" where
  "drawn ulid n i \<longleftrightarrow> (\<exists>t k. k < n \<and> i = ulid t k)"

definition sdb_inv :: "ulid_source \<Rightarrow> (string \<times> IncidentId \<times> int) set \<Rightarrow> nat \<Rightarrow> SdbTables \<Rightarrow> bool" where
  "sdb_inv ulid kept n t \<longleftrightarrow>
    (\<forall>e c i. get_row c (open_slots t e) = Some i \<longrightarrow> drawn ulid n i) \<and>
    (\<forall>env i row. incident_row t env i = Some row \<longrightarrow> drawn ulid n i) \<and>
    (\<forall>e c e' c' i. get_row c (open_slots t e) = Some i \<longrightarrow> get_row c' (open_slots t e') = Some i \<longrightarrow> e = e' \<and> c = c') \<and>
    (\<forall>env i row e c. incident_row t env i = Some row \<longrightarrow> get_row c (open_slots t e) = Some i \<longrightarrow> ir_closed_at row = None) \<and>
    (\<forall>(env, i, at)\<in>kept. \<exists>row. incident_row t env i = Some row \<and> ir_closed_at row = Some at)"

lemma drawn_mono: "drawn ulid n i \<Longrightarrow> n \<le> m \<Longrightarrow> drawn ulid m i"
  unfolding drawn_def using less_le_trans by blast

lemma drawn_new [simp]: "drawn ulid (Suc n) (ulid t n)"
  unfolding drawn_def by blast

lemma drawn_fresh: "ulid_unique ulid \<Longrightarrow> \<not> drawn ulid n (ulid t n)"
  unfolding drawn_def ulid_unique_def by blast

lemma sdb_invI:
  assumes "\<And>e c i. get_row c (open_slots t e) = Some i \<Longrightarrow> drawn ulid n i"
    and "\<And>env i row. incident_row t env i = Some row \<Longrightarrow> drawn ulid n i"
    and "\<And>e c e' c' i. get_row c (open_slots t e) = Some i \<Longrightarrow> get_row c' (open_slots t e') = Some i \<Longrightarrow> e = e' \<and> c = c'"
    and "\<And>env i row e c. incident_row t env i = Some row \<Longrightarrow> get_row c (open_slots t e) = Some i \<Longrightarrow> ir_closed_at row = None"
    and "\<And>env i at. (env, i, at) \<in> kept \<Longrightarrow> \<exists>row. incident_row t env i = Some row \<and> ir_closed_at row = Some at"
  shows "sdb_inv ulid kept n t"
  using assms unfolding sdb_inv_def by blast

lemma sdb_invD:
  assumes "sdb_inv ulid kept n t"
  shows "get_row c (open_slots t e) = Some i \<Longrightarrow> drawn ulid n i"
    and "incident_row t env i = Some row \<Longrightarrow> drawn ulid n i"
    and "get_row c (open_slots t e) = Some i \<Longrightarrow> get_row c' (open_slots t e') = Some i \<Longrightarrow> e = e' \<and> c = c'"
    and "incident_row t env i = Some row \<Longrightarrow> get_row c (open_slots t e) = Some i \<Longrightarrow> ir_closed_at row = None"
    and "(env, i, at) \<in> kept \<Longrightarrow> \<exists>row. incident_row t env i = Some row \<and> ir_closed_at row = Some at"
proof -
  note inv = assms [unfolded sdb_inv_def]
  show "get_row c (open_slots t e) = Some i \<Longrightarrow> drawn ulid n i"
    using conjunct1 [OF inv] by meson
  show "incident_row t env i = Some row \<Longrightarrow> drawn ulid n i"
    using conjunct1 [OF conjunct2 [OF inv]] by meson
  show "get_row c (open_slots t e) = Some i \<Longrightarrow> get_row c' (open_slots t e') = Some i \<Longrightarrow> e = e' \<and> c = c'"
    using conjunct1 [OF conjunct2 [OF conjunct2 [OF inv]]] by meson
  show "incident_row t env i = Some row \<Longrightarrow> get_row c (open_slots t e) = Some i \<Longrightarrow> ir_closed_at row = None"
    using conjunct1 [OF conjunct2 [OF conjunct2 [OF conjunct2 [OF inv]]]] by meson
  show "(env, i, at) \<in> kept \<Longrightarrow> \<exists>row. incident_row t env i = Some row \<and> ir_closed_at row = Some at"
    using conjunct2 [OF conjunct2 [OF conjunct2 [OF conjunct2 [OF inv]]]] by auto
qed

lemma sdb_inv_Suc: "sdb_inv ulid kept n t \<Longrightarrow> sdb_inv ulid kept (Suc n) t"
  by (rule sdb_invI) (auto dest: sdb_invD intro: drawn_mono)

lemma sdb_inv_cong:
  assumes "sdb_inv ulid kept n t" "open_slots t' = open_slots t" "incidents t' = incidents t"
  shows "sdb_inv ulid kept n t'"
  using assms unfolding sdb_inv_def by simp

lemma sdb_inv_report: "sdb_inv ulid kept n t \<Longrightarrow> sdb_inv ulid kept n (insert_incident_report i at msg t)"
  by (erule sdb_inv_cong) (simp_all add: insert_incident_report_def)

lemma sdb_inv_slots:
  assumes "sdb_inv ulid kept n t" "incidents t' = incidents t"
    and "\<And>e c i. get_row c (open_slots t' e) = Some i \<Longrightarrow> get_row c (open_slots t e) = Some i"
  shows "sdb_inv ulid kept n t'"
proof (rule sdb_invI)
  fix e c i
  assume "get_row c (open_slots t' e) = Some i"
  then show "drawn ulid n i" by (intro sdb_invD(1) [OF assms(1)] assms(3))
next
  fix e c e' c' i
  assume "get_row c (open_slots t' e) = Some i" "get_row c' (open_slots t' e') = Some i"
  then show "e = e' \<and> c = c'" by (intro sdb_invD(3) [OF assms(1)] assms(3))
next
  fix env i row e c
  assume "incident_row t' env i = Some row" "get_row c (open_slots t' e) = Some i"
  then show "ir_closed_at row = None"
    using assms(2) by (intro sdb_invD(4) [OF assms(1)] assms(3)) simp_all
qed (use assms(2) sdb_invD(2,5) [OF assms(1)] in simp_all)

lemma sdb_inv_release:
  assumes "sdb_inv ulid kept n t"
  shows "sdb_inv ulid kept n (release_open_slot e c t)"
  by (rule sdb_inv_slots [OF assms]) (auto simp: release_open_slot_def split: if_splits)

lemma sdb_inv_claim_fresh:
  assumes "sdb_inv ulid kept n t" "drawn ulid n i" "incidents t' = incidents t"
    and "\<And>e c. get_row c (open_slots t e) \<noteq> Some i" "\<And>env. incident_row t env i = None"
    and "\<And>e' c'. get_row c' (open_slots t' e') = (if e' = e \<and> c' = c then Some i else get_row c' (open_slots t e'))"
  shows "sdb_inv ulid kept n t'"
  using assms(2-) sdb_invD [OF assms(1)] by (intro sdb_invI) (simp_all split: if_splits)

lemma sdb_inv_claim:
  assumes "ulid_unique ulid" "sdb_inv ulid kept n t"
  shows "sdb_inv ulid kept (Suc n) (snd (claim_open_slot e c (ulid at n) t))"
proof (cases "get_row c (open_slots t e)")
  case None
  have fresh: "\<not> drawn ulid n (ulid at n)" using assms(1) by (rule drawn_fresh)
  show ?thesis
  proof (rule sdb_inv_claim_fresh [OF sdb_inv_Suc [OF assms(2)], where i = "ulid at n" and e = e and c = c])
    show "get_row c' (open_slots t e') \<noteq> Some (ulid at n)" for e' c'
      using sdb_invD(1) [OF assms(2)] fresh by blast
    show "incident_row t env (ulid at n) = None" for env
      using sdb_invD(2) [OF assms(2)] fresh by (cases "incident_row t env (ulid at n)") blast+
  qed (use None in \<open>simp_all add: claim_open_slot_def\<close>)
qed (simp add: claim_open_slot_def sdb_inv_Suc assms)

lemma incident_row_put:
  "incident_row (put_incident env i row t) env' j = (if env' = env \<and> j = i then Some row else incident_row t env' j)"
  by (simp add: put_incident_def)

lemma open_slots_put [simp]: "open_slots (put_incident env i row t) = open_slots t"
  by (simp add: put_incident_def)

lemma sdb_inv_put:
  assumes "sdb_inv ulid kept n t" "drawn ulid n i"
    and "\<And>e c. get_row c (open_slots t e) = Some i \<Longrightarrow> ir_closed_at row = None"
    and "\<And>at. (env, i, at) \<in> kept \<Longrightarrow> ir_closed_at row = Some at"
  shows "sdb_inv ulid kept n (put_incident env i row t)"
proof (rule sdb_invI)
  fix env' j at
  assume k: "(env', j, at) \<in> kept"
  show "\<exists>r. incident_row (put_incident env i row t) env' j = Some r \<and> ir_closed_at r = Some at"
  proof (cases "env' = env \<and> j = i")
    case True
    then show ?thesis using k assms(4) [of at] by (simp add: incident_row_put)
  next
    case False
    then show ?thesis using sdb_invD(5) [OF assms(1) k] by (simp only: incident_row_put) simp
  qed
qed (use assms(2,3) sdb_invD(1-4) [OF assms(1)] in \<open>simp_all add: incident_row_put split: if_splits\<close>)

definition row_or_empty :: "SdbTables \<Rightarrow> string \<Rightarrow> IncidentId \<Rightarrow> IncidentRow" where
  "row_or_empty t env i = (case incident_row t env i of None \<Rightarrow> empty_incident_row | Some r \<Rightarrow> r)"

lemma row_or_empty_slot:
  "sdb_inv ulid kept n t \<Longrightarrow> get_row c (open_slots t e) = Some i \<Longrightarrow> ir_closed_at (row_or_empty t env i) = None"
  by (auto simp: row_or_empty_def empty_incident_row_def dest: sdb_invD(4) split: option.splits)

lemma row_or_empty_kept:
  "sdb_inv ulid kept n t \<Longrightarrow> (env, i, at) \<in> kept \<Longrightarrow> ir_closed_at (row_or_empty t env i) = Some at"
  by (auto simp: row_or_empty_def dest: sdb_invD(5))

lemma sdb_inv_update:
  assumes "sdb_inv ulid kept n t" "drawn ulid n i" "\<And>r. ir_closed_at (f r) = ir_closed_at r"
  shows "sdb_inv ulid kept n (update_incident env i f t)"
  unfolding update_incident_def row_or_empty_def [symmetric]
  by (rule sdb_inv_put [OF assms(1,2)])
    (simp_all add: assms(3) row_or_empty_slot [OF assms(1)] row_or_empty_kept [OF assms(1)])

lemma sdb_inv_stamp:
  assumes "sdb_inv ulid kept n t" "drawn ulid n i" "\<And>e c. get_row c (open_slots t e) \<noteq> Some i"
    and "\<And>at. (env, i, at) \<notin> kept"
  shows "sdb_inv ulid kept n (update_incident env i f t)"
  unfolding update_incident_def by (rule sdb_inv_put [OF assms(1,2)]) (simp_all add: assms(3,4))

text \<open>Whole calls keep it, wherever a statement fails.\<close>

lemma incident_in_env_keeps: "(\<And>n t. I n t \<Longrightarrow> I (Suc n) t) \<Longrightarrow> keeps I (incident_in_env net env i)"
  unfolding incident_in_env_def by (intro keeps_intros)

lemma sdb_inv_drawn_Suc:
  "sdb_inv ulid kept n t \<and> drawn ulid n i \<Longrightarrow> sdb_inv ulid kept (Suc n) t \<and> drawn ulid (Suc n) i"
  by (auto intro: sdb_inv_Suc drawn_mono)

lemma append_keeps:
  "keeps (\<lambda>n t. sdb_inv ulid kept n t \<and> drawn ulid n i)
    (append_failure_to_open_incident net i e env c opened at cnt msg)"
  unfolding append_failure_to_open_incident_def list_reports_for_incident_def Let_def
  by (intro keeps_seq keeps_write keeps_read keeps_done incident_in_env_keeps sdb_inv_drawn_Suc)
    (auto intro: sdb_inv_update sdb_inv_report sdb_inv_Suc drawn_mono)

lemma record_keeps:
  assumes "\<And>env at. (env, i, at) \<notin> kept"
  shows "keeps (\<lambda>n t. sdb_inv ulid kept n t \<and> drawn ulid n i) (record_new_incident net i e env c at msg)"
  unfolding record_new_incident_def Let_def
  by (intro keeps_seq keeps_write keeps_done sdb_inv_drawn_Suc)
    (auto intro!: sdb_inv_put sdb_inv_report sdb_inv_Suc intro: drawn_mono simp: assms)

lemma open_keeps:
  assumes "ulid_unique ulid" "sdb_inv ulid kept (executed d) (tables d)"
  shows "sdb_inv ulid kept (executed (snd (open_incident net ulid e env c at msg d)))
    (tables (snd (open_incident net ulid e env c at msg d)))"
proof -
  let ?i = "ulid at (executed d)"
  let ?J = "\<lambda>n t. sdb_inv ulid kept n t \<and> drawn ulid n ?i"
  let ?P = "\<lambda>n t. n = executed d \<and> sdb_inv ulid kept n t"
  let ?J' = "\<lambda>d. ?J (executed d) (tables d)"
  have "(env, ?i, at) \<notin> kept" for env at
    using sdb_invD(5,2) [OF assms(2)] drawn_fresh [OF assms(1)] by blast
  then have "op_ok ?J' (record_new_incident net ?i e env c at msg) (\<lambda>_. ?J') ?J'"
    using record_keeps unfolding keeps_def by blast
  then have "op_ok ?J' (case existing of Some j \<Rightarrow> done_with (AlreadyOpen j)
      | None \<Rightarrow> record_new_incident net ?i e env c at msg) (\<lambda>_. ?J') ?J'" for existing
    by (cases existing) (auto intro: op_ok_done)
  moreover have "op_ok (\<lambda>d. ?P (executed d) (tables d))
      (exec net SdbExecute (claim_open_slot e (category_as_str c) ?i)) (\<lambda>_. ?J') ?J'"
    by (rule op_ok_exec) (auto intro: sdb_inv_claim [OF assms(1)] sdb_inv_Suc)
  ultimately have "op_ok (\<lambda>d. ?P (executed d) (tables d))
      (seq (exec net SdbExecute (claim_open_slot e (category_as_str c) ?i)) (\<lambda>existing.
        case existing of Some j \<Rightarrow> done_with (AlreadyOpen j)
        | None \<Rightarrow> record_new_incident net ?i e env c at msg)) (\<lambda>_. ?J') ?J'"
    by (intro op_ok_seq)
  from op_ok_state [OF this, of d] assms(2) show ?thesis
    by (simp add: open_incident_def Let_def)
qed

lemma close_keeps:
  assumes "sdb_inv ulid kept (executed d) (tables d)"
  shows "sdb_inv ulid kept (executed (snd (close_incident net e env c at last_at cnt d)))
    (tables (snd (close_incident net e env c at last_at cnt d)))"
proof -
  let ?c = "category_as_str c"
  let ?I = "\<lambda>d. sdb_inv ulid kept (executed d) (tables d)"
  let ?held = "\<lambda>i n t. sdb_inv ulid kept n t \<and> get_row ?c (open_slots t e) = Some i"
  let ?free = "\<lambda>i n t. sdb_inv ulid kept n t \<and> drawn ulid n i \<and>
    (\<forall>e c. get_row c (open_slots t e) \<noteq> Some i) \<and> (\<forall>env at. (env, i, at) \<notin> kept)"
  have release: "op_ok (\<lambda>d. ?held i (executed d) (tables d)) (cql_write net SdbExecute (release_open_slot e ?c))
      (\<lambda>_ d. ?free i (executed d) (tables d)) ?I" for i
  proof (rule op_ok_write)
    fix n t
    assume held: "?held i n t"
    then have inv: "sdb_inv ulid kept n t" and s: "get_row ?c (open_slots t e) = Some i" by simp_all
    have "get_row c' (open_slots (release_open_slot e ?c t) e') \<noteq> Some i" for c' e'
      using sdb_invD(3) [OF inv s] by (auto simp: release_open_slot_def split: if_splits)
    moreover have "(env', i, at') \<notin> kept" for env' at'
      using sdb_invD(5) [OF inv] sdb_invD(4) [OF inv _ s] by fastforce
    ultimately show "?free i (Suc n) (release_open_slot e ?c t)"
      using sdb_inv_Suc [OF sdb_inv_release [OF inv]] drawn_mono [OF sdb_invD(1) [OF inv s]] by simp
  qed (auto intro: sdb_inv_Suc sdb_inv_release)
  have stamp: "op_ok (\<lambda>d. ?free i (executed d) (tables d)) (cql_write net SdbExecute (update_incident env i f))
      (\<lambda>_. ?I) ?I" for i f
    by (rule op_ok_write) (auto intro!: sdb_inv_stamp sdb_inv_Suc intro: drawn_mono)
  have reread: "op_ok ?I (incident_in_env net env i) (\<lambda>_. ?I) ?I" for i
    using incident_in_env_keeps [of "sdb_inv ulid kept"] sdb_inv_Suc unfolding keeps_def by blast
  have look: "op_ok ?I (cql_read net SdbExecute (\<lambda>t. get_row ?c (open_slots t e)))
      (\<lambda>slot d. sdb_inv ulid kept (executed d) (tables d) \<and> get_row ?c (open_slots (tables d) e) = slot) ?I"
    by (rule op_ok_read) (auto intro: sdb_inv_Suc)
  have "op_ok ?I (close_incident net e env c at last_at cnt) (\<lambda>_. ?I) ?I"
    unfolding close_incident_def
  proof (rule op_ok_seq [OF look], rule op_ok_cases_option)
    fix found :: "IncidentId option" and i
    assume "found = Some i"
    then show "op_ok (\<lambda>d. sdb_inv ulid kept (executed d) (tables d) \<and> get_row ?c (open_slots (tables d) e) = found)
      (seq (cql_write net SdbExecute (release_open_slot e ?c)) (\<lambda>_.
       seq (cql_write net SdbExecute (update_incident env i (\<lambda>r. r\<lparr>ir_closed_at := Some at,
         ir_last_report_at := Some last_at, ir_report_count := Some (i64_saturate cnt)\<rparr>))) (\<lambda>_.
       seq (incident_in_env net env i) (\<lambda>updated.
       done_with (case updated of Some inc \<Rightarrow> Closed inc | None \<Rightarrow> NotOpen))))) (\<lambda>_. ?I) ?I"
      by (simp only:) (intro op_ok_seq [OF release] op_ok_seq [OF stamp] op_ok_seq [OF reread] op_ok_done)
  qed (intro op_ok_done, simp)
  then show ?thesis using assms by (rule op_ok_state)
qed

lemma summary_write_keeps:
  assumes "sdb_inv ulid kept (executed d) (tables d)"
  shows "sdb_inv ulid kept (executed (snd (cql_write net err (\<lambda>t. t\<lparr>summaries := f t\<rparr>) d)))
    (tables (snd (cql_write net err (\<lambda>t. t\<lparr>summaries := f t\<rparr>) d)))"
  by (rule keeps_state [where I = "sdb_inv ulid kept", OF keeps_write assms]) (auto intro: sdb_inv_Suc sdb_inv_cong)

lemma sdb_step_keeps:
  assumes "ulid_unique ulid" "sdb_step ulid env_of nets d d'" "sdb_inv ulid kept (executed d) (tables d)"
  shows "sdb_inv ulid kept (executed d') (tables d')"
  using assms(2,3)
proof cases
  case (step_open net entity c at msg)
  then show ?thesis using open_keeps [OF assms(1,3)] by simp
next
  case (step_append net entity c i opened at n msg)
  with assms(3) have "sdb_inv ulid kept (executed d) (tables d) \<and> drawn ulid (executed d) i"
    by (auto dest: sdb_invD(1))
  from keeps_state [where I = "\<lambda>n t. sdb_inv ulid kept n t \<and> drawn ulid n i", OF append_keeps this]
  show ?thesis using step_append by simp
next
  case (step_close net entity c at last_at n)
  then show ?thesis using close_keeps [OF assms(3)] by simp
next
  case (step_upsert net s)
  then show ?thesis using summary_write_keeps [OF assms(3)] by (simp add: upsert_status_summary_def)
next
  case (step_delete net entity)
  then show ?thesis using summary_write_keeps [OF assms(3)] by (simp add: delete_status_summary_def)
next
  case step_read
  then show ?thesis using sdb_inv_Suc [OF assms(3)] by simp
qed

lemma sdb_steps_keep:
  assumes "ulid_unique ulid" "(sdb_step ulid env_of nets)\<^sup>*\<^sup>* d d'" "sdb_inv ulid kept (executed d) (tables d)"
  shows "sdb_inv ulid kept (executed d') (tables d')"
  using assms(2,3) by (induction rule: rtranclp_induct) (auto intro: sdb_step_keeps [OF assms(1)])

lemma sdb_reachable_inv:
  assumes "ulid_unique ulid" "sdb_reachable ulid env_of nets d"
  shows "sdb_inv ulid {} (executed d) (tables d)"
  by (rule sdb_steps_keep [OF assms]) (auto simp: sdb_inv_def empty_sdb_def)

section \<open>The effect of a call when no statement fails\<close>

definition new_row :: "string \<Rightarrow> IncidentCategory \<Rightarrow> int \<Rightarrow> string \<Rightarrow> IncidentRow" where
  "new_row entity c at msg =
    \<lparr>ir_entity_qid = Some entity, ir_category = Some (category_as_str c), ir_opened_at = Some at,
     ir_closed_at = None, ir_last_report_at = Some at, ir_report_count = Some 1,
     ir_summary = Some (truncate_for_summary msg)\<rparr>"

lemma incident_in_env_state [simp]: "tables (snd (incident_in_env net env i d)) = tables d"
  by (auto simp: incident_in_env_def seq_def cql_read_def exec_def Let_def of_result_def done_with_def
      fail_with_def split: Exec.splits option.splits sum.splits prod.splits)

lemma seq_incident_in_env_state [simp]:
  "tables (snd (seq (incident_in_env net env i) (\<lambda>x. done_with (f x)) d)) = tables d"
  using incident_in_env_state [of net env i d]
  by (cases "incident_in_env net env i d") (auto simp: seq_def done_with_def split: sum.splits)

lemma open_up_busy:
  "slot (tables d) e c = Some j \<Longrightarrow> open_incident up ulid e env c at msg d =
    (Inr (AlreadyOpen j), \<lparr>executed = Suc (executed d), tables = tables d\<rparr>)"
  by (simp add: open_incident_def claim_open_slot_def done_with_def)

lemma open_up_free:
  assumes "slot (tables d) e c = None"
  shows "tables (snd (open_incident up ulid e env c at msg d)) =
    (let i = ulid at (executed d) in put_incident env i (new_row e c at msg)
      (insert_incident_report i at msg (snd (claim_open_slot e (category_as_str c) i (tables d)))))"
  using assms
  by (simp add: open_incident_def record_new_incident_def claim_open_slot_def done_with_def
      new_row_def Let_def)

lemma append_up:
  "tables (snd (append_failure_to_open_incident up i e env c opened at n msg d)) =
    (let t = insert_incident_report i at msg (tables d) in
     update_incident env i (\<lambda>r. r\<lparr>ir_last_report_at := Some at, ir_report_count := Some (i64_saturate n),
       ir_summary := Some (compute_summary (map (\<lambda>(at, msg). \<lparr>report_at = at, error_message = msg\<rparr>)
         (incident_reports t i)))\<rparr>) t)"
  by (simp add: append_failure_to_open_incident_def list_reports_for_incident_def Let_def)

lemma close_up_free:
  "slot (tables d) e c = None \<Longrightarrow> close_incident up e env c at last_at n d =
    (Inr NotOpen, \<lparr>executed = Suc (executed d), tables = tables d\<rparr>)"
  by (simp add: close_incident_def done_with_def)

lemma close_up_busy:
  assumes "slot (tables d) e c = Some i"
  shows "tables (snd (close_incident up e env c at last_at n d)) =
    update_incident env i (\<lambda>r. r\<lparr>ir_closed_at := Some at, ir_last_report_at := Some last_at,
      ir_report_count := Some (i64_saturate n)\<rparr>) (release_open_slot e (category_as_str c) (tables d))"
  using assms by (simp add: close_incident_def)

text \<open>
  C6. Closure is permanent: whatever calls are made afterwards, and whichever of their
  statements fail before or after taking effect, an incident that is closed stays in the table,
  closed at the same time.
\<close>

theorem closure_permanent:
  assumes "ulid_unique ulid" "sdb_reachable ulid env_of nets d" "(sdb_step ulid env_of nets)\<^sup>*\<^sup>* d d'"
    and "get_row i (incidents (tables d) env) = Some row" "ir_closed_at row = Some at"
  shows "\<exists>row'. get_row i (incidents (tables d') env) = Some row' \<and> ir_closed_at row' = Some at"
proof -
  from sdb_reachable_inv [OF assms(1,2)] assms(4,5)
  have "sdb_inv ulid {(env, i, at)} (executed d) (tables d)" by (simp add: sdb_inv_def)
  from sdb_invD(5) [OF sdb_steps_keep [OF assms(1,3) this]] show ?thesis by simp
qed

definition example_ulid :: ulid_source where
  "example_ulid t n = IncidentId (replicate n (CHR ''0''))"

lemma example_ulid_unique: "ulid_unique example_ulid"
  unfolding ulid_unique_def example_ulid_def by (metis IncidentId.inject length_replicate)

theorem closure_permanent_witness:
  "let d = snd (open_incident up example_ulid ''e'' ''env'' Crash 10 ''boom'' \<lparr>executed = 0, tables = empty_sdb\<rparr>);
       d' = snd (close_incident up ''e'' ''env'' Crash 20 20 1 d);
       d'' = snd (open_incident up example_ulid ''e'' ''env'' Crash 30 ''again'' d')
   in \<exists>row. get_row (example_ulid 10 0) (incidents (tables d'') ''env'') = Some row \<and> ir_closed_at row = Some 20"
proof -
  define init where "init = \<lparr>executed = 0, tables = empty_sdb\<rparr>"
  define d where "d = snd (open_incident up example_ulid ''e'' ''env'' Crash 10 ''boom'' init)"
  define d' where "d' = snd (close_incident up ''e'' ''env'' Crash 20 20 1 d)"
  define d'' where "d'' = snd (open_incident up example_ulid ''e'' ''env'' Crash 30 ''again'' d')"
  let ?step = "sdb_step example_ulid (\<lambda>_. ''env'') {up}"
  have "?step init d" unfolding d_def by (rule step_open [where env_of = "\<lambda>_. ''env''"]) simp
  moreover have "?step d d'" unfolding d'_def by (rule step_close [where env_of = "\<lambda>_. ''env''"]) simp
  ultimately have reach: "?step\<^sup>*\<^sup>* init d'" by (rule rtranclp.rtrancl_into_rtrancl [OF r_into_rtranclp])
  have step: "?step\<^sup>*\<^sup>* d' d''"
    unfolding d''_def by (rule r_into_rtranclp, rule step_open [where env_of = "\<lambda>_. ''env''"]) simp
  have t: "tables d = put_incident ''env'' (example_ulid 10 0) (new_row ''e'' Crash 10 ''boom'')
      (insert_incident_report (example_ulid 10 0) 10 ''boom''
        (snd (claim_open_slot ''e'' ''CRASH'' (example_ulid 10 0) empty_sdb)))"
    unfolding d_def by (subst open_up_free) (simp_all add: init_def empty_sdb_def Let_def)
  then have "slot (tables d) ''e'' Crash = Some (example_ulid 10 0)"
    by (simp add: insert_incident_report_def claim_open_slot_def empty_sdb_def)
  then have "\<exists>row. get_row (example_ulid 10 0) (incidents (tables d') ''env'') = Some row \<and> ir_closed_at row = Some 20"
    unfolding d'_def by (subst close_up_busy) (auto simp: update_incident_def incident_row_put)
  then show ?thesis
    using closure_permanent [OF example_ulid_unique reach [unfolded init_def] step]
    unfolding Let_def d''_def d'_def d_def init_def by blast
qed



text \<open>The registry and the table agree as long as no statement fails.\<close>

definition registry_ok :: "(string \<Rightarrow> string) \<Rightarrow> SdbTables \<Rightarrow> bool" where
  "registry_ok env_of t \<longleftrightarrow>
    (\<forall>e c i. slot t e c = Some i \<longrightarrow> (\<exists>row. incident_row t (env_of e) i = Some row \<and>
      ir_entity_qid row = Some e \<and> ir_category row = Some (category_as_str c) \<and> ir_closed_at row = None)) \<and>
    (\<forall>env i row. incident_row t env i = Some row \<longrightarrow> (\<exists>e c. env = env_of e \<and>
      ir_entity_qid row = Some e \<and> ir_category row = Some (category_as_str c) \<and>
      (ir_closed_at row = None \<longrightarrow> slot t e c = Some i)))"

lemma registry_okI:
  assumes "\<And>e c i. slot t e c = Some i \<Longrightarrow> \<exists>row. incident_row t (env_of e) i = Some row \<and>
      ir_entity_qid row = Some e \<and> ir_category row = Some (category_as_str c) \<and> ir_closed_at row = None"
    and "\<And>env i row. incident_row t env i = Some row \<Longrightarrow> \<exists>e c. env = env_of e \<and>
      ir_entity_qid row = Some e \<and> ir_category row = Some (category_as_str c) \<and>
      (ir_closed_at row = None \<longrightarrow> slot t e c = Some i)"
  shows "registry_ok env_of t"
  unfolding registry_ok_def using assms by presburger

lemma registry_okD:
  assumes "registry_ok env_of t"
  shows "slot t e c = Some i \<Longrightarrow> \<exists>row. incident_row t (env_of e) i = Some row \<and>
      ir_entity_qid row = Some e \<and> ir_category row = Some (category_as_str c) \<and> ir_closed_at row = None"
    and "incident_row t env i = Some row \<Longrightarrow> \<exists>e c. env = env_of e \<and>
      ir_entity_qid row = Some e \<and> ir_category row = Some (category_as_str c) \<and>
      (ir_closed_at row = None \<longrightarrow> slot t e c = Some i)"
  using conjunct1 [OF assms [unfolded registry_ok_def]] conjunct2 [OF assms [unfolded registry_ok_def]]
  by meson+

lemma category_as_str_eq [simp]: "category_as_str c = category_as_str d \<longleftrightarrow> c = d"
  using category_codec.display_inj by auto

lemma registry_open:
  assumes "registry_ok env_of t" "slot t e c = None" "\<And>e c. slot t e c \<noteq> Some i" "\<And>env. incident_row t env i = None"
  shows "registry_ok env_of (put_incident (env_of e) i (new_row e c at msg)
    (insert_incident_report i at msg (snd (claim_open_slot e (category_as_str c) i t))))"
    (is "registry_ok env_of ?t")
proof -
  have slots: "slot ?t e' c' = (if e' = e \<and> c' = c then Some i else slot t e' c')" for e' c'
    using assms(2) by (simp add: insert_incident_report_def claim_open_slot_def)
  have rows: "incident_row ?t env j = (if env = env_of e \<and> j = i then Some (new_row e c at msg) else incident_row t env j)" for env j
    using assms(2) by (simp add: incident_row_put insert_incident_report_def claim_open_slot_def)
  show ?thesis
  proof (rule registry_okI)
    fix e' c' j
    assume "slot ?t e' c' = Some j"
    then show "\<exists>row. incident_row ?t (env_of e') j = Some row \<and> ir_entity_qid row = Some e' \<and>
        ir_category row = Some (category_as_str c') \<and> ir_closed_at row = None"
      using registry_okD(1) [OF assms(1)] assms(3) unfolding slots rows by (auto simp: new_row_def split: if_splits)
  next
    fix env j row
    assume "incident_row ?t env j = Some row"
    then show "\<exists>e' c'. env = env_of e' \<and> ir_entity_qid row = Some e' \<and>
        ir_category row = Some (category_as_str c') \<and> (ir_closed_at row = None \<longrightarrow> slot ?t e' c' = Some j)"
      using registry_okD(2) [OF assms(1)] assms(2) unfolding slots rows by (fastforce simp: new_row_def split: if_splits)
  qed
qed

lemma registry_append:
  assumes "registry_ok env_of t" "slot t e c = Some i" "slot t' = slot t" "incidents t' = incidents t"
    and "\<And>r. ir_closed_at (f r) = ir_closed_at r \<and> ir_entity_qid (f r) = ir_entity_qid r \<and> ir_category (f r) = ir_category r"
  shows "registry_ok env_of (update_incident (env_of e) i f t')"
    (is "registry_ok env_of ?t")
proof -
  obtain row where row: "incident_row t (env_of e) i = Some row" using registry_okD(1) [OF assms(1,2)] by auto
  have slots: "slot ?t e' c' = slot t e' c'" for e' c'
    using assms(3) by (simp add: update_incident_def fun_eq_iff)
  have rows: "incident_row ?t env j = (if env = env_of e \<and> j = i then Some (f row) else incident_row t env j)" for env j
    using row assms(4) by (simp add: update_incident_def incident_row_put)
  show ?thesis
  proof (rule registry_okI)
    fix e' c' j
    assume "slot ?t e' c' = Some j"
    then show "\<exists>row. incident_row ?t (env_of e') j = Some row \<and> ir_entity_qid row = Some e' \<and>
        ir_category row = Some (category_as_str c') \<and> ir_closed_at row = None"
      using registry_okD(1) [OF assms(1)] row assms(5) unfolding slots rows by fastforce
  next
    fix env j r
    assume "incident_row ?t env j = Some r"
    then show "\<exists>e' c'. env = env_of e' \<and> ir_entity_qid r = Some e' \<and>
        ir_category r = Some (category_as_str c') \<and> (ir_closed_at r = None \<longrightarrow> slot ?t e' c' = Some j)"
      using registry_okD(2) [OF assms(1)] row assms(5) unfolding slots rows by (fastforce split: if_splits)
  qed
qed

lemma registry_close:
  assumes "registry_ok env_of t" "slot t e c = Some i" "\<And>e' c'. slot t e' c' = Some i \<Longrightarrow> e' = e \<and> c' = c"
    and "\<And>r. ir_closed_at (f r) = Some at \<and> ir_entity_qid (f r) = ir_entity_qid r \<and> ir_category (f r) = ir_category r"
  shows "registry_ok env_of (update_incident (env_of e) i f (release_open_slot e (category_as_str c) t))"
    (is "registry_ok env_of ?t")
proof -
  obtain row where row: "incident_row t (env_of e) i = Some row" "ir_entity_qid row = Some e"
    "ir_category row = Some (category_as_str c)"
    using registry_okD(1) [OF assms(1,2)] by auto
  have slots: "slot ?t e' c' = (if e' = e \<and> c' = c then None else slot t e' c')" for e' c'
    by (simp add: update_incident_def release_open_slot_def)
  have rows: "incident_row ?t env j = (if env = env_of e \<and> j = i then Some (f row) else incident_row t env j)" for env j
    using row by (simp add: update_incident_def incident_row_put release_open_slot_def)
  show ?thesis
  proof (rule registry_okI)
    fix e' c' j
    assume "slot ?t e' c' = Some j"
    then have "slot t e' c' = Some j" "j \<noteq> i" using assms(3) unfolding slots by (auto split: if_splits)
    then show "\<exists>row. incident_row ?t (env_of e') j = Some row \<and> ir_entity_qid row = Some e' \<and>
        ir_category row = Some (category_as_str c') \<and> ir_closed_at row = None"
      using registry_okD(1) [OF assms(1)] unfolding rows by simp
  next
    fix env j r
    assume r: "incident_row ?t env j = Some r"
    show "\<exists>e' c'. env = env_of e' \<and> ir_entity_qid r = Some e' \<and>
        ir_category r = Some (category_as_str c') \<and> (ir_closed_at r = None \<longrightarrow> slot ?t e' c' = Some j)"
    proof (cases "env = env_of e \<and> j = i")
      case True
      then show ?thesis using r row assms(4) unfolding rows by auto
    next
      case False
      with r have "incident_row t env j = Some r" unfolding rows by (simp split: if_splits)
      from registry_okD(2) [OF assms(1) this] False assms(2) show ?thesis unfolding slots by fastforce
    qed
  qed
qed

lemma registry_cong:
  assumes "registry_ok env_of t" "open_slots t' = open_slots t" "incidents t' = incidents t"
  shows "registry_ok env_of t'"
  using assms unfolding registry_ok_def by simp

lemma registry_step:
  assumes "ulid_unique ulid" "sdb_inv ulid {} (executed d) (tables d)" "registry_ok env_of (tables d)"
    and "sdb_step ulid env_of {up} d d'"
  shows "registry_ok env_of (tables d')"
  using assms(4)
proof cases
  case (step_open net e c at msg)
  then have net: "net = up" by simp
  have undrawn: "\<not> drawn ulid (executed d) (ulid at (executed d))" using assms(1) by (rule drawn_fresh)
  have fresh: "slot (tables d) e' c' \<noteq> Some (ulid at (executed d))" for e' c'
    using sdb_invD(1) [OF assms(2)] undrawn by blast
  have new: "incident_row (tables d) env (ulid at (executed d)) = None" for env
    using sdb_invD(2) [OF assms(2)] undrawn by (cases "incident_row (tables d) env (ulid at (executed d))") blast+
  show ?thesis
  proof (cases "slot (tables d) e c")
    case None
    from registry_open [OF assms(3) None fresh new] show ?thesis
      unfolding step_open(1) net by (simp only: open_up_free [OF None] Let_def)
  next
    case (Some j)
    then show ?thesis unfolding step_open(1) net using assms(3) by (simp add: open_up_busy)
  qed
next
  case (step_append net e c i opened at n msg)
  then have net: "net = up" by simp
  show ?thesis unfolding step_append(1) net append_up Let_def
    by (rule registry_append [OF assms(3) step_append(3)]) (simp_all add: insert_incident_report_def)
next
  case (step_close net e c at last_at n)
  then have net: "net = up" by simp
  show ?thesis
  proof (cases "slot (tables d) e c")
    case (Some i)
    have "registry_ok env_of (update_incident (env_of e) i (\<lambda>r. r\<lparr>ir_closed_at := Some at, ir_last_report_at := Some last_at,
        ir_report_count := Some (i64_saturate n)\<rparr>) (release_open_slot e (category_as_str c) (tables d)))"
    proof (rule registry_close [OF assms(3) Some])
      show "slot (tables d) e' c' = Some i \<Longrightarrow> e' = e \<and> c' = c" for e' c'
        using sdb_invD(3) [OF assms(2) Some, of "category_as_str c'" e'] by simp
    qed simp
    then show ?thesis using step_close net Some by (simp add: close_up_busy)
  qed (use step_close net assms(3) in \<open>simp add: close_up_free\<close>)
next
  case (step_upsert net s)
  then show ?thesis by (intro registry_cong [OF assms(3)]) (simp_all add: upsert_status_summary_def)
next
  case (step_delete net e)
  then show ?thesis by (intro registry_cong [OF assms(3)]) (simp_all add: delete_status_summary_def)
next
  case step_read
  then show ?thesis using assms(3) by simp
qed

lemma registry_reachable:
  assumes "ulid_unique ulid" "sdb_reachable ulid env_of {up} d"
  shows "registry_ok env_of (tables d)"
  using assms(2)
proof (induction rule: rtranclp_induct)
  case base
  show ?case by (simp add: registry_ok_def empty_sdb_def)
next
  case (step y z)
  show ?case by (rule registry_step [OF assms(1) sdb_reachable_inv [OF assms(1) step(1)] step(3,2)])
qed

text \<open>
  C7. As long as no statement fails, the open incidents in the table are exactly those of the
  registry: the incident of a slot is in the entity's environment, open, with the slot's entity
  and category, and an open incident of an entity and a category holds their slot. So an
  entity never has two open incidents of one category.
\<close>

theorem open_incidents_are_the_registry:
  assumes "ulid_unique ulid" "sdb_reachable ulid env_of {up} d"
  shows "get_row (category_as_str c) (open_slots (tables d) e) = Some i \<longleftrightarrow>
    (\<exists>row. get_row i (incidents (tables d) (env_of e)) = Some row \<and> ir_entity_qid row = Some e \<and>
      ir_category row = Some (category_as_str c) \<and> ir_closed_at row = None)"
proof -
  note reg = registry_okD [OF registry_reachable [OF assms]]
  have "slot (tables d) e c = Some i"
    if row: "incident_row (tables d) (env_of e) i = Some row" "ir_entity_qid row = Some e"
      "ir_category row = Some (category_as_str c)" "ir_closed_at row = None" for row
    using reg(2) [OF row(1)] row(2-4) by auto
  with reg(1) show ?thesis by (intro iffI) (assumption | elim exE conjE)+
qed

theorem open_incidents_are_the_registry_witness:
  "\<exists>row. get_row (example_ulid 10 0) (incidents (tables (snd (open_incident up example_ulid ''e'' ''env'' Crash 10 ''boom''
      \<lparr>executed = 0, tables = empty_sdb\<rparr>))) ''env'') = Some row \<and>
    ir_entity_qid row = Some ''e'' \<and> ir_category row = Some ''CRASH'' \<and> ir_closed_at row = None"
proof -
  let ?d = "snd (open_incident up example_ulid ''e'' ''env'' Crash 10 ''boom'' \<lparr>executed = 0, tables = empty_sdb\<rparr>)"
  have "sdb_step example_ulid (\<lambda>_. ''env'') {up} \<lparr>executed = 0, tables = empty_sdb\<rparr> ?d"
    by (rule step_open [where env_of = "\<lambda>_. ''env''"]) simp
  then have "sdb_reachable example_ulid (\<lambda>_. ''env'') {up} ?d" by (rule r_into_rtranclp)
  from open_incidents_are_the_registry [OF example_ulid_unique this, of Crash "''e''" "example_ulid 10 0"] show ?thesis
    by (simp add: open_up_free empty_sdb_def Let_def insert_incident_report_def claim_open_slot_def)
qed

end
