(* ===== verification/Thresholds.thy ===== *)
theory Thresholds
  imports Rq
begin

text \<open>
  Threshold rules and the sliding-window tracker of the reporting engine,
  \<^verbatim>\<open>crates/re/src/thresholds.rs\<close>, and the entity-aware glue of \<^verbatim>\<open>crates/re/src/entity.rs\<close>. Durations
  and timestamps are in milliseconds; timestamps are unbounded.
\<close>

section \<open>Rules\<close>

record ThresholdRule =
  min_reports :: "32 word"
  window :: nat

definition from_secs :: "nat \<Rightarrow> nat" where
  "from_secs s = s * 1000"

definition as_secs :: "nat \<Rightarrow> nat" where
  "as_secs d = d div 1000"

record ThresholdConfig =
  bad_configuration :: ThresholdRule
  cannot_progress :: ThresholdRule
  inconsistent_state :: ThresholdRule
  system_error :: ThresholdRule
  crash :: ThresholdRule

definition rule_new :: "32 word \<Rightarrow> nat \<Rightarrow> ThresholdRule" where
  "rule_new n w = \<lparr>min_reports = n, window = w\<rparr>"

definition ThresholdConfig_default :: ThresholdConfig where
  "ThresholdConfig_default =
    \<lparr>bad_configuration = rule_new 5 (from_secs (5 * 60)),
     cannot_progress = rule_new 5 (from_secs (5 * 60)),
     inconsistent_state = rule_new 3 (from_secs (2 * 60)),
     system_error = rule_new 3 (from_secs 60),
     crash = rule_new 1 (from_secs (60 * 60))\<rparr>"

fun rule_for :: "ThresholdConfig \<Rightarrow> IncidentCategory \<Rightarrow> ThresholdRule" where
  "rule_for cfg BadConfiguration = bad_configuration cfg"
| "rule_for cfg CannotProgress = cannot_progress cfg"
| "rule_for cfg InconsistentState = inconsistent_state cfg"
| "rule_for cfg SystemError = system_error cfg"
| "rule_for cfg Crash = crash cfg"

text \<open>
  The \<^verbatim>\<open>FromStr\<close> of an unsigned integer type: an optional plus sign and at least one decimal
  digit, with a value in range.
\<close>

definition is_dec_digit :: "char \<Rightarrow> bool" where
  "is_dec_digit c \<longleftrightarrow> 48 \<le> byte_of c \<and> byte_of c < 58"

definition parse_unsigned :: "nat \<Rightarrow> string \<Rightarrow> nat option" where
  "parse_unsigned bound s =
    (let digits = (case s of c # cs \<Rightarrow> if c = CHR ''+'' then cs else s | [] \<Rightarrow> [])
     in if digits \<noteq> [] \<and> list_all is_dec_digit digits \<and> dec_value digits < bound
        then Some (dec_value digits) else None)"

text \<open>The environment variables are a map.\<close>

definition override_rule :: "(string \<rightharpoonup> string) \<Rightarrow> ThresholdRule \<Rightarrow> string \<Rightarrow> ThresholdRule" where
  "override_rule env dflt name =
    (let min = (case Option.bind (env (''RE_THRESHOLD_'' @ name @ ''_MIN'')) (parse_unsigned (2 ^ 32)) of
                  Some v \<Rightarrow> if v \<ge> 1 then of_nat v else min_reports dflt
                | None \<Rightarrow> min_reports dflt);
         window_secs = (case Option.bind (env (''RE_THRESHOLD_'' @ name @ ''_WINDOW_SECS'')) (parse_unsigned (2 ^ 64)) of
                  Some v \<Rightarrow> v
                | None \<Rightarrow> as_secs (window dflt))
     in rule_new min (from_secs window_secs))"

definition ThresholdConfig_from_env :: "(string \<rightharpoonup> string) \<Rightarrow> ThresholdConfig" where
  "ThresholdConfig_from_env env =
    (let cfg = ThresholdConfig_default in
     \<lparr>bad_configuration = override_rule env (bad_configuration cfg) ''BAD_CONFIGURATION'',
      cannot_progress = override_rule env (cannot_progress cfg) ''CANNOT_PROGRESS'',
      inconsistent_state = override_rule env (inconsistent_state cfg) ''INCONSISTENT_STATE'',
      system_error = override_rule env (system_error cfg) ''SYSTEM_ERROR'',
      crash = override_rule env (crash cfg) ''CRASH''\<rparr>)"

section \<open>The tracker\<close>

type_synonym ThresholdTracker = "string \<times> IncidentCategory \<rightharpoonup> int list"

text \<open>\<^verbatim>\<open>chrono::Duration::from_std\<close> fails beyond the largest number of milliseconds in an \<^verbatim>\<open>i64\<close>.\<close>

definition chrono_window :: "nat \<Rightarrow> int" where
  "chrono_window w = (if w \<le> 2 ^ 63 - 1 then int w else (2 ^ 63 - 1) div 1000 * 1000)"

definition record_and_check ::
  "ThresholdTracker \<Rightarrow> string \<Rightarrow> IncidentCategory \<Rightarrow> ThresholdRule \<Rightarrow> int \<Rightarrow> int \<Rightarrow> bool \<times> ThresholdTracker" where
  "record_and_check inner entity category rule report_at now =
    (let key = (entity, category);
         deque = (case inner key of Some q \<Rightarrow> q | None \<Rightarrow> []);
         cutoff = now - chrono_window (window rule);
         deque = dropWhile (\<lambda>front. front < cutoff) deque @ [report_at]
     in if (of_nat (length deque) :: 32 word) \<ge> min_reports rule
        then (True, inner(key := None))
        else (False, inner(key \<mapsto> deque)))"

definition forget_entity :: "ThresholdTracker \<Rightarrow> string \<Rightarrow> ThresholdTracker" where
  "forget_entity inner entity = (\<lambda>k. if fst k = entity then None else inner k)"

section \<open>Cadences and operational states\<close>

record CadenceConfig =
  deployment_desired :: nat
  deployment_undesired :: nat
  deployment_lingering :: nat
  deployment_down :: "nat option"
  resource_pending :: nat
  resource_live :: nat
  resource_destroyed :: "nat option"

definition CadenceConfig_default :: CadenceConfig where
  "CadenceConfig_default =
    \<lparr>deployment_desired = from_secs 60,
     deployment_undesired = from_secs (5 * 60),
     deployment_lingering = from_secs (30 * 60),
     deployment_down = None,
     resource_pending = from_secs 60,
     resource_live = from_secs (10 * 60),
     resource_destroyed = None\<rparr>"

definition for_state_str :: "CadenceConfig \<Rightarrow> string \<Rightarrow> nat option" where
  "for_state_str cfg state =
    (if state = ''DESIRED'' then Some (deployment_desired cfg)
     else if state = ''UNDESIRED'' then Some (deployment_undesired cfg)
     else if state = ''LINGERING'' then Some (deployment_lingering cfg)
     else if state = ''DOWN'' then deployment_down cfg
     else if state = ''PENDING'' then Some (resource_pending cfg)
     else if state = ''LIVE'' then Some (resource_live cfg)
     else if state = ''DESTROYED'' then resource_destroyed cfg
     else None)"

fun deployment_state_str :: "DeploymentOperationalState \<Rightarrow> string" where
  "deployment_state_str OpDesired = ''DESIRED''"
| "deployment_state_str OpUndesired = ''UNDESIRED''"
| "deployment_state_str OpLingering = ''LINGERING''"
| "deployment_state_str OpDown = ''DOWN''"

fun resource_state_str :: "ResourceOperationalState \<Rightarrow> string" where
  "resource_state_str OpPending = ''PENDING''"
| "resource_state_str OpLive = ''LIVE''"
| "resource_state_str OpDestroyed = ''DESTROYED''"

fun operational_state_str :: "EntityExtension \<Rightarrow> string" where
  "operational_state_str (XDeployment x) = deployment_state_str (dep_state x)"
| "operational_state_str (XResource x) = resource_state_str (res_state x)"

fun env_qid_string :: "EntityQid \<Rightarrow> string" where
  "env_qid_string (EDeployment d) = EnvironmentQid_display (dep_env d)"
| "env_qid_string (EResource r) = EnvironmentQid_display (res_env r)"

section \<open>What the tracker counts\<close>

text \<open>
  Failures of one entity and category, as pairs of the time on the report and the time it is
  processed, recorded until one trips the threshold.
\<close>

fun record_until_trip ::
  "ThresholdTracker \<Rightarrow> string \<Rightarrow> IncidentCategory \<Rightarrow> ThresholdRule \<Rightarrow> (int \<times> int) list \<Rightarrow> bool \<times> ThresholdTracker" where
  "record_until_trip tr e c rule [] = (False, tr)"
| "record_until_trip tr e c rule ((at, now) # evs) =
    (case record_and_check tr e c rule at now of
       (True, tr') \<Rightarrow> (True, tr')
     | (False, tr') \<Rightarrow> record_until_trip tr' e c rule evs)"

definition in_window :: "ThresholdRule \<Rightarrow> int \<Rightarrow> int \<Rightarrow> bool" where
  "in_window rule now at \<longleftrightarrow> at \<ge> now - chrono_window (window rule)"

lemma dropWhile_sorted: "sorted xs \<Longrightarrow> dropWhile (\<lambda>x. x < c) xs = filter (\<lambda>x. c \<le> x) (xs :: int list)"
  by (induction xs) (auto simp: not_less intro!: filter_True [symmetric])

lemma record_and_check_sorted:
  assumes "sorted q" "tr (e, c) = Some q \<or> tr (e, c) = None \<and> q = []"
  shows "record_and_check tr e c rule at now =
    (let q' = filter (in_window rule now) q @ [at] in
     if (of_nat (length q') :: 32 word) \<ge> min_reports rule then (True, tr((e, c) := None))
     else (False, tr((e, c) \<mapsto> q')))"
  using assms by (auto simp: record_and_check_def Let_def dropWhile_sorted in_window_def [abs_def])

lemma record_until_trip_append:
  "record_until_trip tr e c rule (evs @ [(at, now)]) =
    (case record_until_trip tr e c rule evs of
       (True, tr') \<Rightarrow> (True, tr')
     | (False, tr') \<Rightarrow> record_and_check tr' e c rule at now)"
  by (induction evs arbitrary: tr) (auto split: prod.splits bool.splits)

lemma filter_filter_mono:
  "now \<le> now' \<Longrightarrow> filter (in_window rule now') (filter (in_window rule now) xs) = filter (in_window rule now') xs"
  by (auto simp: in_window_def intro!: filter_cong)

text \<open>
  As long as the threshold has not tripped, the queue holds the recorded times, apart from
  expired ones: cut to the window of any later moment it is the recorded times cut to it.
\<close>

lemma record_until_trip_queue:
  assumes "sorted (map fst evs)" "sorted (map snd evs)" "tr (e, c) = None"
    and "record_until_trip tr e c rule evs = (False, tr')"
  shows "\<exists>q. sorted q \<and> set q \<subseteq> fst ` set evs \<and> (tr' (e, c) = Some q \<or> tr' (e, c) = None \<and> q = []) \<and>
    (\<forall>now. (\<forall>n\<in>snd ` set evs. n \<le> now) \<longrightarrow> filter (in_window rule now) q = filter (in_window rule now) (map fst evs))"
  using assms
proof (induction evs arbitrary: tr' rule: rev_induct)
  case Nil
  then show ?case by (intro exI [of _ "[]"]) simp
next
  case (snoc ev evs)
  obtain at now where ev: "ev = (at, now)" by (cases ev)
  with snoc.prems(4) obtain tr1 where tr1: "record_until_trip tr e c rule evs = (False, tr1)"
    "record_and_check tr1 e c rule at now = (False, tr')"
    by (auto simp: record_until_trip_append split: prod.splits bool.splits)
  from snoc.prems ev have srt: "sorted (map fst evs)" "sorted (map snd evs)"
    and le: "\<forall>t\<in>fst ` set evs. t \<le> at" "\<forall>n\<in>snd ` set evs. n \<le> now"
    by (auto simp: sorted_append)
  from snoc.IH [OF srt snoc.prems(3) tr1(1)] obtain q where
    q: "sorted q" "set q \<subseteq> fst ` set evs" "tr1 (e, c) = Some q \<or> tr1 (e, c) = None \<and> q = []"
    and win: "\<And>n. \<forall>m\<in>snd ` set evs. m \<le> n \<Longrightarrow> filter (in_window rule n) q = filter (in_window rule n) (map fst evs)"
    by auto
  let ?q = "filter (in_window rule now) q @ [at]"
  from tr1(2) have tr': "tr' (e, c) = Some ?q"
    by (auto simp: record_and_check_sorted [where tr = tr1 and e = e and c = c, OF q(1,3)] Let_def split: if_splits)
  have "filter (in_window rule n) ?q = filter (in_window rule n) (map fst (evs @ [ev]))"
    if "\<forall>m\<in>snd ` set (evs @ [ev]). m \<le> n" for n
    using that win [of n] ev by (simp add: filter_filter_mono del: filter_filter)
  moreover have "sorted ?q" "set ?q \<subseteq> fst ` set (evs @ [ev])"
    using q le ev by (auto simp: sorted_append sorted_filter [where f = id, simplified])
  ultimately show ?case using tr' by blast
qed



text \<open>
  Expired failures are only dropped from the front of the queue. When a failure with an old
  timestamp is delivered after a recent one it stays in the queue however old it is, and is
  counted: here it opens the threshold of three with two failures in the last minute.
\<close>

theorem stale_failure_is_counted:
  "let rule = system_error ThresholdConfig_default;
       (tripped, tr) = record_until_trip Map.empty ''e'' SystemError rule [(1000000, 1000000), (0, 1000001)]
   in tripped = False \<and> fst (record_and_check tr ''e'' SystemError rule 1000002 1000002) = True \<and>
      (of_nat (length (filter (in_window rule 1000002) [1000000, 0, 1000002])) :: 32 word) < min_reports rule"
  by (simp add: record_and_check_def Let_def ThresholdConfig_default_def rule_new_def from_secs_def
      chrono_window_def in_window_def word_le_nat_alt word_less_nat_alt)

end
