(* ===== verification/Nq.thy ===== *)
theory Nq
  imports Rq Cql
begin

text \<open>
  The notification queue, \<^verbatim>\<open>crates/nq/src/lib.rs\<close>: notification requests, their idempotency keys and
  publishing. The broker side of the queue is the list of requests it has accepted. A publish can
  fail before the broker accepts it, or be accepted without its confirmation arriving.
\<close>

datatype NotificationEventType = NOpened | NClosed

fun as_key_str :: "NotificationEventType \<Rightarrow> string" where
  "as_key_str NOpened = ''opened''"
| "as_key_str NClosed = ''closed''"

record NotificationRequest =
  nr_incident_id :: string
  nr_event_type :: NotificationEventType
  nr_entity_qid :: string
  nr_category :: IncidentCategory
  nr_opened_at :: int
  nr_closed_at :: "int option"
  nr_summary :: "string option"

definition idempotency_key :: "NotificationRequest \<Rightarrow> string" where
  "idempotency_key r = nr_incident_id r @ '':'' @ as_key_str (nr_event_type r)"

datatype NqPublishError = NqJson | NqAmqp

type_synonym nq_codec = "NotificationRequest \<Rightarrow> unit + string"

definition nq_enqueue :: "network \<Rightarrow> nq_codec \<Rightarrow> NotificationRequest \<Rightarrow> (NotificationRequest list Db, NqPublishError, unit) op" where
  "nq_enqueue net encode_json r =
    (case encode_json r of
       Inl _ \<Rightarrow> fail_with NqJson
     | Inr _ \<Rightarrow> cql_write net NqAmqp (\<lambda>accepted. accepted @ [r]))"

lemma idempotency_key_inj:
  "idempotency_key r = idempotency_key s \<longleftrightarrow>
    nr_incident_id r = nr_incident_id s \<and> nr_event_type r = nr_event_type s"
  by (cases "nr_event_type r"; cases "nr_event_type s") (auto simp: idempotency_key_def append_eq_append_conv)

end
