(* ===== verification/Rdb.thy ===== *)
theory Rdb
  imports Ids Cql "HOL-Library.Char_ord" "HOL-Library.List_Lexorder"
begin

text \<open>
  The resource database client, \<^verbatim>\<open>crates/rdb/src/lib.rs\<close>: the resources of a namespace with their
  JSON columns, and the routing index that records in which regions a resource is materialised.
  JSON encoding (\<^verbatim>\<open>serde_json\<close>) is a parameter: a record of encoders and decoders. \<open>'r\<close> is the type
  of the records of the configuration language.
\<close>

section \<open>JSON columns\<close>

datatype Marker = Volatile | Sticky

datatype ResourceError =
    MissingAfterWrite
  | ScyllaPager
  | ScyllaExecute
  | ScyllaIntoRows
  | ScyllaTypeCheck
  | ScyllaNextRow
  | JsonError
  | JsonTooLarge nat
  | InvalidRegion ParseIdError

record 'r codec =
  enc_record :: "'r \<Rightarrow> string option"
  dec_record :: "string \<Rightarrow> 'r option"
  enc_deps :: "ResourceId list \<Rightarrow> string option"
  dec_deps :: "string \<Rightarrow> ResourceId list option"
  enc_markers :: "Marker set \<Rightarrow> string option"
  dec_markers :: "string \<Rightarrow> Marker set option"
  enc_trace :: "SourceTrace \<Rightarrow> string option"
  dec_trace :: "string \<Rightarrow> SourceTrace option"

definition MAX_JSON_SIZE :: nat where
  "MAX_JSON_SIZE = 16 * 1024 * 1024"

definition check_json_size :: "string \<Rightarrow> ResourceError + unit" where
  "check_json_size text = (if length text > MAX_JSON_SIZE then Inl (JsonTooLarge (length text)) else Inr ())"

text \<open>All the decoders treat an absent and an empty column alike.\<close>

definition decode_column :: "'a \<Rightarrow> (string \<Rightarrow> 'a option) \<Rightarrow> string option \<Rightarrow> ResourceError + 'a" where
  "decode_column absent decode column =
    (case column of
       None \<Rightarrow> Inr absent
     | Some text \<Rightarrow>
         if text = [] then Inr absent
         else (case check_json_size text of
                 Inl e \<Rightarrow> Inl e
               | Inr _ \<Rightarrow> (case decode text of None \<Rightarrow> Inl JsonError | Some x \<Rightarrow> Inr x)))"

definition decode_record :: "'r codec \<Rightarrow> string option \<Rightarrow> ResourceError + 'r option" where
  "decode_record js = decode_column None (\<lambda>text. map_option Some (dec_record js text))"

definition decode_dependencies :: "'r codec \<Rightarrow> string option \<Rightarrow> ResourceError + ResourceId list" where
  "decode_dependencies js = decode_column [] (dec_deps js)"

definition decode_markers :: "'r codec \<Rightarrow> string option \<Rightarrow> ResourceError + Marker set" where
  "decode_markers js = decode_column {} (dec_markers js)"

definition decode_source_trace :: "'r codec \<Rightarrow> string option \<Rightarrow> ResourceError + SourceTrace" where
  "decode_source_trace js = decode_column [] (dec_trace js)"

definition encoded :: "string option \<Rightarrow> ResourceError + string" where
  "encoded text = (case text of None \<Rightarrow> Inl JsonError | Some s \<Rightarrow> Inr s)"

section \<open>Tables\<close>

record ResourceRow =
  rr_inputs_json :: "string option"
  rr_outputs_json :: "string option"
  rr_dependencies_json :: "string option"
  rr_markers_json :: "string option"
  rr_owner :: "string option"
  rr_source_trace_json :: "string option"

definition empty_resource_row :: ResourceRow where
  "empty_resource_row = \<lparr>rr_inputs_json = None, rr_outputs_json = None, rr_dependencies_json = None,
    rr_markers_json = None, rr_owner = None, rr_source_trace_json = None\<rparr>"

record 'r Resource =
  res_namespace :: string
  res_region :: RegionId
  res_resource_type :: string
  res_name :: string
  res_inputs :: "'r option"
  res_outputs :: "'r option"
  res_dependencies :: "ResourceId list"
  res_markers :: "Marker set"
  res_owner :: "string option"
  res_source_trace :: SourceTrace

record ResourceRegion =
  rg_resource_type :: string
  rg_name :: string
  rg_region :: RegionId

record RdbTables =
  resources :: "string \<Rightarrow> ((string \<times> string) \<times> ResourceRow) list"
  resource_regions :: "string \<Rightarrow> ((string \<times> string \<times> string) \<times> int) list"

definition pair_before :: "string \<times> string \<Rightarrow> string \<times> string \<Rightarrow> bool" where
  "pair_before a b \<longleftrightarrow> fst a < fst b \<or> fst a = fst b \<and> snd a < snd b"

definition triple_before :: "string \<times> string \<times> string \<Rightarrow> string \<times> string \<times> string \<Rightarrow> bool" where
  "triple_before a b \<longleftrightarrow> fst a < fst b \<or> fst a = fst b \<and> pair_before (snd a) (snd b)"

interpretation pair_before: clustering_order pair_before
  by unfold_locales (auto simp: pair_before_def)

interpretation triple_before: clustering_order triple_before
  by unfold_locales (auto simp: triple_before_def pair_before_def)

abbreviation resource_row :: "RdbTables \<Rightarrow> string \<Rightarrow> string \<times> string \<Rightarrow> ResourceRow option" where
  "resource_row t ns key \<equiv> get_row key (resources t ns)"

abbreviation region_row :: "RdbTables \<Rightarrow> string \<Rightarrow> string \<times> string \<times> string \<Rightarrow> int option" where
  "region_row t ns key \<equiv> get_row key (resource_regions t ns)"

section \<open>Reading resources\<close>

definition map_resource_row ::
  "'r codec \<Rightarrow> string \<Rightarrow> RegionId \<Rightarrow> string \<times> string \<Rightarrow> ResourceRow \<Rightarrow> ResourceError + 'r Resource" where
  "map_resource_row js ns region key row =
    (case decode_record js (rr_inputs_json row) of Inl e \<Rightarrow> Inl e | Inr inputs \<Rightarrow>
    (case decode_record js (rr_outputs_json row) of Inl e \<Rightarrow> Inl e | Inr outputs \<Rightarrow>
    (case decode_dependencies js (rr_dependencies_json row) of Inl e \<Rightarrow> Inl e | Inr deps \<Rightarrow>
    (case decode_markers js (rr_markers_json row) of Inl e \<Rightarrow> Inl e | Inr markers \<Rightarrow>
    (case decode_source_trace js (rr_source_trace_json row) of Inl e \<Rightarrow> Inl e | Inr trace \<Rightarrow>
      Inr \<lparr>res_namespace = ns, res_region = region, res_resource_type = fst key, res_name = snd key,
           res_inputs = inputs, res_outputs = outputs, res_dependencies = deps, res_markers = markers,
           res_owner = rr_owner row, res_source_trace = trace\<rparr>)))))"

definition list_resources ::
  "'r codec \<Rightarrow> network \<Rightarrow> RegionId \<Rightarrow> string \<Rightarrow> (RdbTables Db, ResourceError, (ResourceError + 'r Resource) list) op" where
  "list_resources js net region ns =
    cql_read net ScyllaPager (\<lambda>t. map (\<lambda>(key, row). map_resource_row js ns region key row) (resources t ns))"

definition list_resources_by_owner ::
  "'r codec \<Rightarrow> network \<Rightarrow> RegionId \<Rightarrow> string \<Rightarrow> string
    \<Rightarrow> (RdbTables Db, ResourceError, (ResourceError + 'r Resource) list) op" where
  "list_resources_by_owner js net region ns owner =
    cql_read net ScyllaPager (\<lambda>t. map (\<lambda>(key, row). map_resource_row js ns region key row)
      (filter (\<lambda>(key, row). rr_owner row = Some owner) (resources t ns)))"

definition rdb_get ::
  "'r codec \<Rightarrow> network \<Rightarrow> RegionId \<Rightarrow> string \<Rightarrow> string \<times> string \<Rightarrow> (RdbTables Db, ResourceError, 'r Resource option) op" where
  "rdb_get js net region ns key =
    seq (cql_read net ScyllaPager (\<lambda>t. resource_row t ns key)) (\<lambda>row.
    case row of
      None \<Rightarrow> done_with None
    | Some r \<Rightarrow> seq (of_result (map_resource_row js ns region key r)) (\<lambda>res. done_with (Some res)))"

section \<open>Writing resources\<close>

definition update_resource :: "string \<Rightarrow> string \<times> string \<Rightarrow> (ResourceRow \<Rightarrow> ResourceRow) \<Rightarrow> RdbTables \<Rightarrow> RdbTables" where
  "update_resource ns key f t =
    t\<lparr>resources := (resources t)(ns := put_row pair_before key
      (f (case resource_row t ns key of None \<Rightarrow> empty_resource_row | Some r \<Rightarrow> r)) (resources t ns))\<rparr>"

definition get_after_write ::
  "'r codec \<Rightarrow> network \<Rightarrow> RegionId \<Rightarrow> string \<Rightarrow> string \<times> string \<Rightarrow> (RdbTables Db, ResourceError, 'r Resource) op" where
  "get_after_write js net region ns key =
    seq (rdb_get js net region ns key) (\<lambda>found.
    case found of None \<Rightarrow> fail_with MissingAfterWrite | Some r \<Rightarrow> done_with r)"

definition set_input ::
  "'r codec \<Rightarrow> network \<Rightarrow> RegionId \<Rightarrow> string \<Rightarrow> string \<times> string \<Rightarrow> 'r \<Rightarrow> string
    \<Rightarrow> (RdbTables Db, ResourceError, 'r Resource) op" where
  "set_input js net region ns key inputs owner =
    seq (of_result (encoded (enc_record js inputs))) (\<lambda>text.
    seq (cql_write net ScyllaExecute (update_resource ns key (\<lambda>r. r\<lparr>rr_inputs_json := Some text, rr_owner := Some owner\<rparr>)))
      (\<lambda>_. get_after_write js net region ns key))"

definition set_output ::
  "'r codec \<Rightarrow> network \<Rightarrow> RegionId \<Rightarrow> string \<Rightarrow> string \<times> string \<Rightarrow> 'r \<Rightarrow> (RdbTables Db, ResourceError, 'r Resource) op" where
  "set_output js net region ns key outputs =
    seq (of_result (encoded (enc_record js outputs))) (\<lambda>text.
    seq (cql_write net ScyllaExecute (update_resource ns key (\<lambda>r. r\<lparr>rr_outputs_json := Some text\<rparr>)))
      (\<lambda>_. get_after_write js net region ns key))"

definition set_dependencies ::
  "'r codec \<Rightarrow> network \<Rightarrow> RegionId \<Rightarrow> string \<Rightarrow> string \<times> string \<Rightarrow> ResourceId list
    \<Rightarrow> (RdbTables Db, ResourceError, 'r Resource) op" where
  "set_dependencies js net region ns key deps =
    seq (of_result (encoded (enc_deps js deps))) (\<lambda>text.
    seq (cql_write net ScyllaExecute (update_resource ns key (\<lambda>r. r\<lparr>rr_dependencies_json := Some text\<rparr>)))
      (\<lambda>_. get_after_write js net region ns key))"

definition set_markers ::
  "'r codec \<Rightarrow> network \<Rightarrow> RegionId \<Rightarrow> string \<Rightarrow> string \<times> string \<Rightarrow> Marker set
    \<Rightarrow> (RdbTables Db, ResourceError, 'r Resource) op" where
  "set_markers js net region ns key markers =
    seq (of_result (encoded (enc_markers js markers))) (\<lambda>text.
    seq (cql_write net ScyllaExecute (update_resource ns key (\<lambda>r. r\<lparr>rr_markers_json := Some text\<rparr>)))
      (\<lambda>_. get_after_write js net region ns key))"

definition set_source_trace ::
  "'r codec \<Rightarrow> network \<Rightarrow> RegionId \<Rightarrow> string \<Rightarrow> string \<times> string \<Rightarrow> SourceTrace
    \<Rightarrow> (RdbTables Db, ResourceError, 'r Resource) op" where
  "set_source_trace js net region ns key trace =
    seq (of_result (encoded (enc_trace js trace))) (\<lambda>text.
    seq (cql_write net ScyllaExecute (update_resource ns key (\<lambda>r. r\<lparr>rr_source_trace_json := Some text\<rparr>)))
      (\<lambda>_. get_after_write js net region ns key))"

definition rdb_delete :: "network \<Rightarrow> string \<Rightarrow> string \<times> string \<Rightarrow> (RdbTables Db, ResourceError, unit) op" where
  "rdb_delete net ns key =
    cql_write net ScyllaExecute (\<lambda>t. t\<lparr>resources := (resources t)(ns := delete_row key (resources t ns))\<rparr>)"

section \<open>The routing index\<close>

definition insert_resource_region_if_absent ::
  "string \<Rightarrow> string \<times> string \<times> string \<Rightarrow> int \<Rightarrow> RdbTables \<Rightarrow> bool \<times> RdbTables" where
  "insert_resource_region_if_absent ns key at t =
    (case region_row t ns key of
       Some _ \<Rightarrow> (False, t)
     | None \<Rightarrow> (True, t\<lparr>resource_regions := (resource_regions t)(ns :=
         put_row triple_before key at (resource_regions t ns))\<rparr>))"

definition update_resource_region_if_newer :: "string \<Rightarrow> string \<times> string \<times> string \<Rightarrow> int \<Rightarrow> RdbTables \<Rightarrow> RdbTables" where
  "update_resource_region_if_newer ns key at t =
    (case region_row t ns key of
       Some old \<Rightarrow> if old < at then t\<lparr>resource_regions := (resource_regions t)(ns :=
         put_row triple_before key at (resource_regions t ns))\<rparr> else t
     | None \<Rightarrow> t)"

definition delete_resource_region_if_older :: "string \<Rightarrow> string \<times> string \<times> string \<Rightarrow> int \<Rightarrow> RdbTables \<Rightarrow> RdbTables" where
  "delete_resource_region_if_older ns key at t =
    (case region_row t ns key of
       Some old \<Rightarrow> if old < at then t\<lparr>resource_regions := (resource_regions t)(ns :=
         delete_row key (resource_regions t ns))\<rparr> else t
     | None \<Rightarrow> t)"

definition set_resource_region ::
  "network \<Rightarrow> string \<Rightarrow> string \<Rightarrow> string \<Rightarrow> RegionId \<Rightarrow> int \<Rightarrow> (RdbTables Db, ResourceError, unit) op" where
  "set_resource_region net ns typ name region at =
    seq (exec net ScyllaExecute (insert_resource_region_if_absent ns (typ, name, region_str region) at)) (\<lambda>applied.
    if applied then done_with ()
    else cql_write net ScyllaExecute (update_resource_region_if_newer ns (typ, name, region_str region) at))"

definition delete_resource_region ::
  "network \<Rightarrow> string \<Rightarrow> string \<Rightarrow> string \<Rightarrow> RegionId \<Rightarrow> int \<Rightarrow> (RdbTables Db, ResourceError, unit) op" where
  "delete_resource_region net ns typ name region at =
    cql_write net ScyllaExecute (delete_resource_region_if_older ns (typ, name, region_str region) at)"

fun parse_regions :: "((string \<times> string \<times> string) \<times> int) list \<Rightarrow> ResourceError + ResourceRegion list" where
  "parse_regions [] = Inr []"
| "parse_regions (((typ, name, region), at) # rows) =
    (case RegionId_from_str region of
       Inl e \<Rightarrow> Inl (InvalidRegion e)
     | Inr r \<Rightarrow>
         (case parse_regions rows of
            Inl e \<Rightarrow> Inl e
          | Inr out \<Rightarrow> Inr (\<lparr>rg_resource_type = typ, rg_name = name, rg_region = r\<rparr> # out)))"

definition list_resource_regions :: "network \<Rightarrow> string \<Rightarrow> (RdbTables Db, ResourceError, ResourceRegion list) op" where
  "list_resource_regions net ns =
    seq (cql_read net ScyllaPager (\<lambda>t. resource_regions t ns)) (\<lambda>rows. of_result (parse_regions rows))"

section \<open>The client as a map of resources\<close>

text \<open>
  What the clients rely on of \<^verbatim>\<open>serde_json\<close>: decoding the text of a value gives the value back,
  and the text of a value is not empty.
\<close>

definition json_ok :: "'r codec \<Rightarrow> bool" where
  "json_ok js \<longleftrightarrow>
    (\<forall>x s. enc_record js x = Some s \<longrightarrow> s \<noteq> [] \<and> dec_record js s = Some x) \<and>
    (\<forall>x s. enc_deps js x = Some s \<longrightarrow> s \<noteq> [] \<and> dec_deps js s = Some x) \<and>
    (\<forall>x s. enc_markers js x = Some s \<longrightarrow> s \<noteq> [] \<and> dec_markers js s = Some x) \<and>
    (\<forall>x s. enc_trace js x = Some s \<longrightarrow> s \<noteq> [] \<and> dec_trace js s = Some x)"

definition column_fits :: "string option \<Rightarrow> bool" where
  "column_fits column \<longleftrightarrow> (\<exists>s. column = Some s \<and> length s \<le> MAX_JSON_SIZE)"

definition blank_resource :: "RegionId \<Rightarrow> string \<Rightarrow> string \<times> string \<Rightarrow> 'r Resource" where
  "blank_resource region ns key = \<lparr>res_namespace = ns, res_region = region, res_resource_type = fst key,
    res_name = snd key, res_inputs = None, res_outputs = None, res_dependencies = [], res_markers = {},
    res_owner = None, res_source_trace = []\<rparr>"

definition rdb_readable :: "'r codec \<Rightarrow> RegionId \<Rightarrow> string \<Rightarrow> RdbTables \<Rightarrow> bool" where
  "rdb_readable js region ns t \<longleftrightarrow>
    (\<forall>key row. resource_row t ns key = Some row \<longrightarrow> (\<exists>r. map_resource_row js ns region key row = Inr r))"

definition rdb_abs :: "'r codec \<Rightarrow> RegionId \<Rightarrow> string \<Rightarrow> RdbTables \<Rightarrow> string \<times> string \<rightharpoonup> 'r Resource" where
  "rdb_abs js region ns t key =
    (case resource_row t ns key of
       None \<Rightarrow> None
     | Some row \<Rightarrow> (case map_resource_row js ns region key row of Inl _ \<Rightarrow> None | Inr r \<Rightarrow> Some r))"

definition known :: "'r codec \<Rightarrow> RegionId \<Rightarrow> string \<Rightarrow> RdbTables \<Rightarrow> string \<times> string \<Rightarrow> 'r Resource" where
  "known js region ns t key = (case rdb_abs js region ns t key of None \<Rightarrow> blank_resource region ns key | Some r \<Rightarrow> r)"

lemma decode_column_None [simp]: "decode_column a f None = Inr a"
  by (simp add: decode_column_def)

lemma decode_column_fits:
  "s \<noteq> [] \<Longrightarrow> length s \<le> MAX_JSON_SIZE \<Longrightarrow> f s = Some x \<Longrightarrow> decode_column a f (Some s) = Inr x"
  by (simp add: decode_column_def check_json_size_def)

lemma map_empty_row: "map_resource_row js ns region key empty_resource_row = Inr (blank_resource region ns key)"
  by (simp add: map_resource_row_def empty_resource_row_def decode_record_def decode_dependencies_def
      decode_markers_def decode_source_trace_def blank_resource_def)

text \<open>A column write refines an update of the resource when it does so on a row.\<close>

lemma resource_row_update [simp]:
  "resource_row (update_resource ns key f t) ns' key' =
    (if ns' = ns \<and> key' = key then Some (f (case resource_row t ns key of None \<Rightarrow> empty_resource_row | Some r \<Rightarrow> r))
     else resource_row t ns' key')"
  by (simp add: update_resource_def)

lemma update_resource_refines:
  assumes "rdb_readable js region ns t"
    and "\<And>row r. map_resource_row js ns region key row = Inr r \<Longrightarrow> map_resource_row js ns region key (f row) = Inr (g r)"
  shows "rdb_abs js region ns (update_resource ns key f t) = (rdb_abs js region ns t)(key \<mapsto> g (known js region ns t key))"
    and "rdb_readable js region ns (update_resource ns key f t)"
    and "\<exists>row. resource_row (update_resource ns key f t) ns key = Some row \<and>
      map_resource_row js ns region key row = Inr (g (known js region ns t key))"
proof -
  let ?row = "case resource_row t ns key of None \<Rightarrow> empty_resource_row | Some r \<Rightarrow> r"
  have "map_resource_row js ns region key ?row = Inr (known js region ns t key)"
  proof (cases "resource_row t ns key")
    case (Some row)
    with assms(1) obtain r where "map_resource_row js ns region key row = Inr r" unfolding rdb_readable_def by blast
    with Some show ?thesis by (simp add: known_def rdb_abs_def)
  qed (simp add: known_def rdb_abs_def map_empty_row)
  from assms(2) [OF this] have new: "map_resource_row js ns region key (f ?row) = Inr (g (known js region ns t key))" .
  then show "rdb_abs js region ns (update_resource ns key f t) = (rdb_abs js region ns t)(key \<mapsto> g (known js region ns t key))"
    by (auto simp: fun_eq_iff rdb_abs_def)
  show "rdb_readable js region ns (update_resource ns key f t)"
    using new assms(1) by (auto simp: rdb_readable_def)
  show "\<exists>row. resource_row (update_resource ns key f t) ns key = Some row \<and>
      map_resource_row js ns region key row = Inr (g (known js region ns t key))"
    using new by simp
qed

lemma get_after_write_up:
  assumes "resource_row (tables d) ns key = Some row" "map_resource_row js ns region key row = Inr r"
  shows "get_after_write js up region ns key d = (Inr r, \<lparr>executed = Suc (executed d), tables = tables d\<rparr>)"
  using assms by (simp add: get_after_write_def rdb_get_def seq_assoc of_result_def seq_def done_with_def)

lemma column_write_up:
  assumes "rdb_readable js region ns (tables d)"
    and "\<And>row r. map_resource_row js ns region key row = Inr r \<Longrightarrow> map_resource_row js ns region key (f row) = Inr (g r)"
    and "m = seq (of_result (encoded (Some json))) (\<lambda>_. seq (cql_write up ScyllaExecute (update_resource ns key f))
      (\<lambda>_. get_after_write js up region ns key))"
  shows "fst (m d) = Inr (g (known js region ns (tables d) key)) \<and>
    rdb_abs js region ns (tables (snd (m d))) = (rdb_abs js region ns (tables d))(key \<mapsto> g (known js region ns (tables d) key)) \<and>
    rdb_readable js region ns (tables (snd (m d)))"
proof -
  note upd = update_resource_refines [where js = js and region = region and f = f and g = g, OF assms(1,2)]
  from upd(3) obtain row where
    row: "resource_row (update_resource ns key f (tables d)) ns key = Some row"
      "map_resource_row js ns region key row = Inr (g (known js region ns (tables d) key))" by blast
  let ?d = "\<lparr>executed = Suc (executed d), tables = update_resource ns key f (tables d)\<rparr>"
  have "get_after_write js up region ns key ?d =
      (Inr (g (known js region ns (tables d) key)), \<lparr>executed = Suc (executed ?d), tables = tables ?d\<rparr>)"
    by (rule get_after_write_up) (use row in simp_all)
  then have "m d = (Inr (g (known js region ns (tables d) key)),
      \<lparr>executed = Suc (Suc (executed d)), tables = update_resource ns key f (tables d)\<rparr>)"
    by (simp add: assms(3) encoded_def of_result_def)
  with upd(1,2) show ?thesis by simp
qed

lemma map_resource_row_columns:
  assumes "json_ok js" "map_resource_row js ns region key row = Inr r"
  shows "enc_record js x = Some s \<Longrightarrow> length s \<le> MAX_JSON_SIZE \<Longrightarrow>
      map_resource_row js ns region key (row\<lparr>rr_inputs_json := Some s, rr_owner := Some owner\<rparr>) =
        Inr (r\<lparr>res_inputs := Some x, res_owner := Some owner\<rparr>)"
    and "enc_record js x = Some s \<Longrightarrow> length s \<le> MAX_JSON_SIZE \<Longrightarrow>
      map_resource_row js ns region key (row\<lparr>rr_outputs_json := Some s\<rparr>) = Inr (r\<lparr>res_outputs := Some x\<rparr>)"
    and "enc_deps js deps = Some s \<Longrightarrow> length s \<le> MAX_JSON_SIZE \<Longrightarrow>
      map_resource_row js ns region key (row\<lparr>rr_dependencies_json := Some s\<rparr>) = Inr (r\<lparr>res_dependencies := deps\<rparr>)"
    and "enc_markers js ms = Some s \<Longrightarrow> length s \<le> MAX_JSON_SIZE \<Longrightarrow>
      map_resource_row js ns region key (row\<lparr>rr_markers_json := Some s\<rparr>) = Inr (r\<lparr>res_markers := ms\<rparr>)"
    and "enc_trace js tr = Some s \<Longrightarrow> length s \<le> MAX_JSON_SIZE \<Longrightarrow>
      map_resource_row js ns region key (row\<lparr>rr_source_trace_json := Some s\<rparr>) = Inr (r\<lparr>res_source_trace := tr\<rparr>)"
  using assms unfolding json_ok_def map_resource_row_def decode_record_def decode_dependencies_def
    decode_markers_def decode_source_trace_def
  by (auto simp: decode_column_fits split: sum.splits)

text \<open>Each setter as an update of one resource, with the resource it returns.\<close>

definition sets ::
  "'r codec \<Rightarrow> RegionId \<Rightarrow> string \<Rightarrow> string \<times> string \<Rightarrow> ('r Resource \<Rightarrow> 'r Resource)
    \<Rightarrow> (RdbTables Db, ResourceError, 'r Resource) op \<Rightarrow> RdbTables Db \<Rightarrow> bool" where
  "sets js region ns key g m d \<longleftrightarrow>
    fst (m d) = Inr (g (known js region ns (tables d) key)) \<and>
    rdb_abs js region ns (tables (snd (m d))) = (rdb_abs js region ns (tables d))(key \<mapsto> g (known js region ns (tables d) key)) \<and>
    rdb_readable js region ns (tables (snd (m d)))"

lemma set_input_sets:
  assumes "json_ok js" "rdb_readable js region ns (tables d)" "column_fits (enc_record js x)"
  shows "sets js region ns key (\<lambda>r. r\<lparr>res_inputs := Some x, res_owner := Some owner\<rparr>) (set_input js up region ns key x owner) d"
proof -
  from assms(3) obtain s where s: "enc_record js x = Some s" "length s \<le> MAX_JSON_SIZE" by (auto simp: column_fits_def)
  show ?thesis
    unfolding sets_def
    by (rule column_write_up [where js = js and region = region and f = "\<lambda>r. r\<lparr>rr_inputs_json := Some s, rr_owner := Some owner\<rparr>" and json = s,
          OF assms(2) map_resource_row_columns(1) [OF assms(1) _ s]])
      (simp_all add: set_input_def s encoded_def of_result_def)
qed

lemma set_output_sets:
  assumes "json_ok js" "rdb_readable js region ns (tables d)" "column_fits (enc_record js x)"
  shows "sets js region ns key (\<lambda>r. r\<lparr>res_outputs := Some x\<rparr>) (set_output js up region ns key x) d"
proof -
  from assms(3) obtain s where s: "enc_record js x = Some s" "length s \<le> MAX_JSON_SIZE" by (auto simp: column_fits_def)
  show ?thesis
    unfolding sets_def
    by (rule column_write_up [where js = js and region = region and f = "\<lambda>r. r\<lparr>rr_outputs_json := Some s\<rparr>" and json = s,
          OF assms(2) map_resource_row_columns(2) [OF assms(1) _ s]])
      (simp_all add: set_output_def s encoded_def of_result_def)
qed

lemma set_dependencies_sets:
  assumes "json_ok js" "rdb_readable js region ns (tables d)" "column_fits (enc_deps js deps)"
  shows "sets js region ns key (\<lambda>r. r\<lparr>res_dependencies := deps\<rparr>) (set_dependencies js up region ns key deps) d"
proof -
  from assms(3) obtain s where s: "enc_deps js deps = Some s" "length s \<le> MAX_JSON_SIZE" by (auto simp: column_fits_def)
  show ?thesis
    unfolding sets_def
    by (rule column_write_up [where js = js and region = region and f = "\<lambda>r. r\<lparr>rr_dependencies_json := Some s\<rparr>" and json = s,
          OF assms(2) map_resource_row_columns(3) [OF assms(1) _ s]])
      (simp_all add: set_dependencies_def s encoded_def of_result_def)
qed

lemma set_markers_sets:
  assumes "json_ok js" "rdb_readable js region ns (tables d)" "column_fits (enc_markers js ms)"
  shows "sets js region ns key (\<lambda>r. r\<lparr>res_markers := ms\<rparr>) (set_markers js up region ns key ms) d"
proof -
  from assms(3) obtain s where s: "enc_markers js ms = Some s" "length s \<le> MAX_JSON_SIZE" by (auto simp: column_fits_def)
  show ?thesis
    unfolding sets_def
    by (rule column_write_up [where js = js and region = region and f = "\<lambda>r. r\<lparr>rr_markers_json := Some s\<rparr>" and json = s,
          OF assms(2) map_resource_row_columns(4) [OF assms(1) _ s]])
      (simp_all add: set_markers_def s encoded_def of_result_def)
qed

lemma set_source_trace_sets:
  assumes "json_ok js" "rdb_readable js region ns (tables d)" "column_fits (enc_trace js tr)"
  shows "sets js region ns key (\<lambda>r. r\<lparr>res_source_trace := tr\<rparr>) (set_source_trace js up region ns key tr) d"
proof -
  from assms(3) obtain s where s: "enc_trace js tr = Some s" "length s \<le> MAX_JSON_SIZE" by (auto simp: column_fits_def)
  show ?thesis
    unfolding sets_def
    by (rule column_write_up [where js = js and region = region and f = "\<lambda>r. r\<lparr>rr_source_trace_json := Some s\<rparr>" and json = s,
          OF assms(2) map_resource_row_columns(5) [OF assms(1) _ s]])
      (simp_all add: set_source_trace_def s encoded_def of_result_def)
qed

section \<open>Properties of the resource database\<close>


definition example_codec :: "string codec" where
  "example_codec =
    \<lparr>enc_record = \<lambda>r. Some (CHR ''{'' # r), dec_record = \<lambda>s. Some (tl s),
     enc_deps = \<lambda>d. if d = [] then Some ''[]'' else None, dec_deps = \<lambda>_. Some [],
     enc_markers = \<lambda>m. if m = {} then Some ''[]'' else None, dec_markers = \<lambda>_. Some {},
     enc_trace = \<lambda>t. if t = [] then Some ''[]'' else None, dec_trace = \<lambda>_. Some []\<rparr>"

lemma example_codec_ok: "json_ok example_codec"
  by (auto simp: json_ok_def example_codec_def split: if_splits)

definition empty_rdb :: RdbTables where
  "empty_rdb = \<lparr>resources = \<lambda>_. [], resource_regions = \<lambda>_. []\<rparr>"


text \<open>
  The size limit is only checked when reading. A value whose JSON text is longer is written
  all the same: the setter fails after the write, and from then on every read of the resource
  fails, until it is overwritten or deleted.
\<close>

theorem oversized_input_makes_resource_unreadable:
  assumes "enc_record js x = Some text" "length text > MAX_JSON_SIZE"
  shows "fst (set_input js up region ns key x owner d) = Inl (JsonTooLarge (length text)) \<and>
    fst (rdb_get js up region ns key (snd (set_input js up region ns key x owner d))) = Inl (JsonTooLarge (length text))"
proof -
  have "text \<noteq> []" using assms(2) by auto
  then have big: "map_resource_row js ns region key (r\<lparr>rr_inputs_json := Some text, rr_owner := Some owner\<rparr>) =
      Inl (JsonTooLarge (length text))" for r
    using assms(2) by (simp add: map_resource_row_def decode_record_def decode_column_def check_json_size_def)
  show ?thesis
    by (simp add: set_input_def assms(1) encoded_def of_result_def get_after_write_def rdb_get_def big
        seq_assoc seq_def done_with_def fail_with_def)
qed

theorem oversized_input_makes_resource_unreadable_witness:
  "fst (rdb_get example_codec up (RegionId ''a'') ''ns'' (''T'', ''n'')
    (snd (set_input example_codec up (RegionId ''a'') ''ns'' (''T'', ''n'') (replicate MAX_JSON_SIZE (CHR ''x'')) ''me''
      \<lparr>executed = 0, tables = empty_rdb\<rparr>))) = Inl (JsonTooLarge (Suc MAX_JSON_SIZE))"
  using oversized_input_makes_resource_unreadable [of example_codec "replicate MAX_JSON_SIZE (CHR ''x'')"
      "CHR ''{'' # replicate MAX_JSON_SIZE (CHR ''x'')"]
  by (simp add: example_codec_def)

text \<open>The routing index.\<close>

lemma set_resource_region_row:
  "region_row (tables (snd (set_resource_region up ns typ name region at d))) ns (typ, name, region_str region) =
    (case region_row (tables d) ns (typ, name, region_str region) of None \<Rightarrow> Some at | Some old \<Rightarrow> Some (max old at))"
  by (auto simp: set_resource_region_def insert_resource_region_if_absent_def update_resource_region_if_newer_def
      done_with_def split: option.splits)

lemma delete_resource_region_row:
  "region_row (tables (snd (delete_resource_region up ns typ name region at d))) ns (typ, name, region_str region) =
    (case region_row (tables d) ns (typ, name, region_str region) of
       None \<Rightarrow> None | Some old \<Rightarrow> if old < at then None else Some old)"
  by (auto simp: delete_resource_region_def delete_resource_region_if_older_def split: option.splits)

text \<open>
  Reports that a resource is live can arrive in any order, any number of times: the routing
  index ends with the time of the latest of them and of what it held before.
\<close>

theorem live_reports_keep_latest:
  "region_row (tables (fold (\<lambda>at d. snd (set_resource_region up ns typ name region at d)) (at # ats) d))
      ns (typ, name, region_str region) =
    Some (Max (set (at # ats) \<union> set_option (region_row (tables d) ns (typ, name, region_str region))))"
proof (induction ats arbitrary: at d)
  case Nil
  show ?case
    by (cases "region_row (tables d) ns (typ, name, region_str region)") (auto simp: set_resource_region_row max.commute)
next
  case (Cons b ats)
  let ?d = "snd (set_resource_region up ns typ name region at d)"
  have "Max (set (b # ats) \<union> set_option (region_row (tables ?d) ns (typ, name, region_str region))) =
      Max (set (at # b # ats) \<union> set_option (region_row (tables d) ns (typ, name, region_str region)))"
    by (cases "region_row (tables d) ns (typ, name, region_str region)"; cases "ats = []")
      (simp_all add: set_resource_region_row Max_insert insert_commute max.assoc max.commute max.left_commute)
  with Cons.IH [of b ?d] show ?case by simp
qed

text \<open>
  Deleting an entry of the routing index leaves no trace of when that happened, so a
  report that the resource is live which is older than the deletion puts the entry back.
\<close>

theorem stale_live_report_resurrects_region:
  assumes "region_row (tables d) ns (typ, name, region_str region) = Some old" "old < deleted" "stale < deleted"
  shows "region_row (tables (snd (set_resource_region up ns typ name region stale
      (snd (delete_resource_region up ns typ name region deleted d))))) ns (typ, name, region_str region) = Some stale"
  using assms by (simp add: set_resource_region_row delete_resource_region_row)

theorem stale_live_report_resurrects_region_witness:
  "region_row (tables (snd (set_resource_region up ''ns'' ''T'' ''n'' (RegionId ''a'') 15
      (snd (delete_resource_region up ''ns'' ''T'' ''n'' (RegionId ''a'') 20
        (snd (set_resource_region up ''ns'' ''T'' ''n'' (RegionId ''a'') 10 \<lparr>executed = 0, tables = empty_rdb\<rparr>)))))))
    ''ns'' (''T'', ''n'', ''a'') = Some 15"
  using stale_live_report_resurrects_region [of "''T''" "''n''" "RegionId ''a''" "snd (set_resource_region up ''ns''
      ''T'' ''n'' (RegionId ''a'') 10 \<lparr>executed = 0, tables = empty_rdb\<rparr>)" "''ns''" 10 20 15]
  by (simp add: set_resource_region_def insert_resource_region_if_absent_def empty_rdb_def done_with_def)

end
