(* ===== verification/Pipeline.thy ===== *)
theory Pipeline
  imports Thresholds Sdb_Lifecycle Nq Rdb
begin

text \<open>
  The per-report pipeline of the reporting engine, \<^verbatim>\<open>crates/re/src/pipeline.rs\<close>, over the status
  database, the notification queue, the routing index of the resource database, and the two
  in-memory structures of a worker: the threshold tracker and the heartbeat cache. The wall clock
  is an argument.
\<close>

section \<open>Context and state\<close>

record HeartbeatEntry =
  hb_last_report_at :: int
  hb_operational_state :: "string option"
  hb_volatile :: bool
  hb_watchdog_open :: bool

type_synonym HeartbeatCache = "string \<rightharpoonup> HeartbeatEntry"

definition hb_upsert :: "string \<Rightarrow> HeartbeatEntry \<Rightarrow> HeartbeatCache \<Rightarrow> HeartbeatCache" where
  "hb_upsert entity entry cache = cache(entity \<mapsto> entry)"

definition hb_remove :: "string \<Rightarrow> HeartbeatCache \<Rightarrow> HeartbeatCache" where
  "hb_remove entity cache = cache(entity := None)"

definition mark_watchdog_open :: "string \<Rightarrow> HeartbeatCache \<Rightarrow> HeartbeatCache" where
  "mark_watchdog_open entity cache =
    (case cache entity of None \<Rightarrow> cache | Some entry \<Rightarrow> cache(entity \<mapsto> entry\<lparr>hb_watchdog_open := True\<rparr>))"

definition fresh_heartbeat_entry :: "int \<Rightarrow> string option \<Rightarrow> bool \<Rightarrow> HeartbeatEntry" where
  "fresh_heartbeat_entry now state volatile =
    \<lparr>hb_last_report_at = now, hb_operational_state = state, hb_volatile = volatile, hb_watchdog_open = False\<rparr>"

datatype PipelineError = PSdb SdbError | PNq NqPublishError | PRdb ResourceError

text \<open>What a worker is given: how the networks behave, ULIDs, the encoder and the rules.\<close>

record ReEnv =
  sdb_net :: network
  nq_net :: network
  rdb_net :: network
  re_ulid :: ulid_source
  nq_encode :: nq_codec
  thresholds :: ThresholdConfig

record ReState =
  re_sdb :: "SdbTables Db"
  re_nq :: "NotificationRequest list Db"
  re_rdb :: "RdbTables Db"
  tracker :: ThresholdTracker
  heartbeats :: HeartbeatCache

definition on_sdb :: "(SdbTables Db, SdbError, 'a) op \<Rightarrow> (ReState, PipelineError, 'a) op" where
  "on_sdb m = map_err PSdb (lift_op re_sdb (\<lambda>s st. st\<lparr>re_sdb := s\<rparr>) m)"

definition on_nq :: "(NotificationRequest list Db, NqPublishError, 'a) op \<Rightarrow> (ReState, PipelineError, 'a) op" where
  "on_nq m = map_err PNq (lift_op re_nq (\<lambda>s st. st\<lparr>re_nq := s\<rparr>) m)"

definition on_rdb :: "(RdbTables Db, ResourceError, 'a) op \<Rightarrow> (ReState, PipelineError, 'a) op" where
  "on_rdb m = map_err PRdb (lift_op re_rdb (\<lambda>s st. st\<lparr>re_rdb := s\<rparr>) m)"

section \<open>Failures\<close>

definition opened_request :: "string \<Rightarrow> IncidentCategory \<Rightarrow> Incident \<Rightarrow> NotificationRequest" where
  "opened_request entity category incident =
    \<lparr>nr_incident_id = ulid_str (inc_id incident), nr_event_type = NOpened, nr_entity_qid = entity,
     nr_category = category, nr_opened_at = inc_opened_at incident, nr_closed_at = None,
     nr_summary = Some (inc_summary incident)\<rparr>"

definition append_to_open ::
  "ReEnv \<Rightarrow> string \<Rightarrow> string \<Rightarrow> IncidentCategory \<Rightarrow> string \<Rightarrow> int \<Rightarrow> IncidentId \<Rightarrow> (ReState, PipelineError, unit) op" where
  "append_to_open env entity env_qid category msg at i =
    seq (on_sdb (incident_in_env (sdb_net env) env_qid i)) (\<lambda>existing.
    let (next_count, opened_at) =
      (case existing of Some inc \<Rightarrow> (inc_report_count inc + 1, inc_opened_at inc) | None \<Rightarrow> (1, at)) in
    seq (on_sdb (append_failure_to_open_incident (sdb_net env) i entity env_qid category opened_at at next_count msg))
      (\<lambda>_. done_with ()))"

definition bump_already_open ::
  "ReEnv \<Rightarrow> string \<Rightarrow> string \<Rightarrow> IncidentCategory \<Rightarrow> string \<Rightarrow> int \<Rightarrow> IncidentId \<Rightarrow> (ReState, PipelineError, unit) op" where
  "bump_already_open env entity env_qid category msg at i =
    seq (on_sdb (incident_in_env (sdb_net env) env_qid i)) (\<lambda>existing.
    case existing of
      None \<Rightarrow> done_with ()
    | Some inc \<Rightarrow>
        seq (on_sdb (append_failure_to_open_incident (sdb_net env) (inc_id inc) entity env_qid category
              (inc_opened_at inc) at (inc_report_count inc + 1) msg))
          (\<lambda>_. done_with ()))"

definition handle_failure ::
  "ReEnv \<Rightarrow> string \<Rightarrow> string \<Rightarrow> IncidentCategory \<Rightarrow> string \<Rightarrow> int \<Rightarrow> int \<Rightarrow> (ReState, PipelineError, unit) op" where
  "handle_failure env entity env_qid category msg at now =
    seq (on_sdb (find_open_incident_id (sdb_net env) entity category)) (\<lambda>found.
    case found of
      Some i \<Rightarrow> append_to_open env entity env_qid category msg at i
    | None \<Rightarrow>
        seq (\<lambda>st. let (tripped, tr) = record_and_check (tracker st) entity category
                     (rule_for (thresholds env) category) at now
                   in (Inr tripped, st\<lparr>tracker := tr\<rparr>)) (\<lambda>tripped.
        if \<not> tripped then done_with ()
        else
          seq (on_sdb (open_incident (sdb_net env) (re_ulid env) entity env_qid category at msg)) (\<lambda>outcome.
          case outcome of
            Opened incident \<Rightarrow> on_nq (nq_enqueue (nq_net env) (nq_encode env) (opened_request entity category incident))
          | AlreadyOpen existing_id \<Rightarrow> bump_already_open env entity env_qid category msg at existing_id)))"

section \<open>Successes\<close>

text \<open>The best-effort count: every failure to read it gives 1.\<close>

definition running_count_for ::
  "ReEnv \<Rightarrow> string \<Rightarrow> string \<Rightarrow> IncidentCategory \<Rightarrow> (ReState, PipelineError, 64 word) op" where
  "running_count_for env entity env_qid category st =
    (case on_sdb (find_open_incident_id (sdb_net env) entity category) st of
       (Inr (Some i), st') \<Rightarrow>
         (case on_sdb (incident_in_env (sdb_net env) env_qid i) st' of
            (Inr (Some inc), st'') \<Rightarrow> (Inr (inc_report_count inc), st'')
          | (_, st'') \<Rightarrow> (Inr 1, st''))
     | (_, st') \<Rightarrow> (Inr 1, st'))"

definition closed_request :: "string \<Rightarrow> IncidentCategory \<Rightarrow> Incident \<Rightarrow> NotificationRequest" where
  "closed_request entity category incident =
    \<lparr>nr_incident_id = ulid_str (inc_id incident), nr_event_type = NClosed, nr_entity_qid = entity,
     nr_category = category, nr_opened_at = inc_opened_at incident, nr_closed_at = inc_closed_at incident,
     nr_summary = (if inc_summary incident = [] then None else Some (inc_summary incident))\<rparr>"

definition close_one :: "ReEnv \<Rightarrow> string \<Rightarrow> string \<Rightarrow> int \<Rightarrow> IncidentCategory \<Rightarrow> (ReState, PipelineError, unit) op" where
  "close_one env entity env_qid at category =
    seq (running_count_for env entity env_qid category) (\<lambda>count.
    seq (on_sdb (close_incident (sdb_net env) entity env_qid category at at count)) (\<lambda>outcome.
    case outcome of
      Closed incident \<Rightarrow> on_nq (nq_enqueue (nq_net env) (nq_encode env) (closed_request entity category incident))
    | NotOpen \<Rightarrow> done_with ()))"

definition handle_success :: "ReEnv \<Rightarrow> string \<Rightarrow> string \<Rightarrow> int \<Rightarrow> (ReState, PipelineError, unit) op" where
  "handle_success env entity env_qid at =
    seq (on_sdb (list_open_incidents_for_entity (sdb_net env) entity)) (\<lambda>open_list.
    seq_list (\<lambda>(category, i). close_one env entity env_qid at category) open_list)"

section \<open>A report\<close>

definition next_failure_count :: "Outcome \<Rightarrow> StatusSummary option \<Rightarrow> 32 word" where
  "next_failure_count out prev =
    (case out of
       Success \<Rightarrow> 0
     | Failure _ _ \<Rightarrow>
         (case prev of
            Some s \<Rightarrow> if ss_consecutive_failure_count s = - 1 then - 1 else ss_consecutive_failure_count s + 1
          | None \<Rightarrow> 1))"

definition apply_outcome :: "ReEnv \<Rightarrow> int \<Rightarrow> 'v Report \<Rightarrow> (ReState, PipelineError, unit) op" where
  "apply_outcome env now report =
    (let entity = entity_as_string (entity_qid report); env_qid = env_qid_string (entity_qid report) in
     case outcome report of
       Failure category msg \<Rightarrow> handle_failure env entity env_qid category msg (timestamp report) now
     | Success \<Rightarrow>
         seq (handle_success env entity env_qid (timestamp report)) (\<lambda>_.
         modify_state (\<lambda>st. st\<lparr>tracker := forget_entity (tracker st) entity\<rparr>)))"

definition update_heartbeat :: "int \<Rightarrow> 'v Report \<Rightarrow> ReState \<Rightarrow> ReState" where
  "update_heartbeat now report st =
    (let entity = entity_as_string (entity_qid report) in
     if is_terminal (extension report) then st\<lparr>heartbeats := hb_remove entity (heartbeats st)\<rparr>
     else st\<lparr>heartbeats := hb_upsert entity (fresh_heartbeat_entry now
       (Some (operational_state_str (extension report))) (is_volatile (extension report))) (heartbeats st)\<rparr>)"

definition update_routing_index :: "ReEnv \<Rightarrow> 'v Report \<Rightarrow> (ReState, PipelineError, unit) op" where
  "update_routing_index env report =
    (case entity_qid report of
       EDeployment _ \<Rightarrow> done_with ()
     | EResource q \<Rightarrow>
         (let ns = EnvironmentQid_display (res_env q); rid = res_id q in
          if is_terminal (extension report)
          then on_rdb (delete_resource_region (rdb_net env) ns (rid_typ rid) (rid_name rid) (rid_region rid) (timestamp report))
          else on_rdb (set_resource_region (rdb_net env) ns (rid_typ rid) (rid_name rid) (rid_region rid) (timestamp report))))"

definition worst_category :: "(IncidentCategory \<times> IncidentId) list \<Rightarrow> IncidentCategory option" where
  "worst_category open_list = (case map fst open_list of [] \<Rightarrow> None | c # cs \<Rightarrow> Some (fold max cs c))"

text \<open>The steps after the outcome is applied: summary, heartbeat, routing index, terminal flag.\<close>

definition record_status :: "ReEnv \<Rightarrow> int \<Rightarrow> 'v Report \<Rightarrow> StatusSummary option \<Rightarrow> (ReState, PipelineError, unit) op" where
  "record_status env now report prev =
    (let entity = entity_as_string (entity_qid report) in
     seq (on_sdb (list_open_incidents_for_entity (sdb_net env) entity)) (\<lambda>open_list.
     seq (on_sdb (upsert_status_summary (sdb_net env)
           \<lparr>ss_entity_qid = entity, ss_last_report_at = timestamp report,
            ss_last_report_succeeded = is_success (outcome report),
            ss_open_incident_count = of_nat (length open_list),
            ss_worst_open_category = worst_category open_list,
            ss_consecutive_failure_count = next_failure_count (outcome report) prev,
            ss_operational_state = Some (operational_state_str (extension report))\<rparr>)) (\<lambda>_.
     seq (modify_state (update_heartbeat now report)) (\<lambda>_.
     seq (update_routing_index env report) (\<lambda>_.
     if is_terminal (extension report) then
       seq (on_sdb (delete_status_summary (sdb_net env) entity)) (\<lambda>_.
       modify_state (\<lambda>st. st\<lparr>tracker := forget_entity (tracker st) entity\<rparr>))
     else done_with ())))))"

definition process_report :: "ReEnv \<Rightarrow> int \<Rightarrow> 'v Report \<Rightarrow> (ReState, PipelineError, unit) op" where
  "process_report env now report =
     seq (on_sdb (status_summary (sdb_net env) (entity_as_string (entity_qid report)))) (\<lambda>prev.
     seq (apply_outcome env now report) (\<lambda>_.
     record_status env now report prev))"

end
