(* ===== verification/Watchdog.thy ===== *)
theory Watchdog
  imports Pipeline
begin

text \<open>
  The watchdog (\<^verbatim>\<open>crates/re/src/watchdog.rs\<close>), the worker configuration
  (\<^verbatim>\<open>crates/re/src/config.rs\<close>) and the worker loop (\<^verbatim>\<open>crates/re/src/main.rs\<close>) of the reporting engine. The
  order in which a hash map yields its entries is an argument, a list of the keys of the cache.
\<close>

section \<open>Configuration\<close>

record ReWorkerConfig =
  wc_thresholds :: ThresholdConfig
  wc_cadence :: CadenceConfig
  watchdog_interval :: nat

definition WorkerConfig_default :: ReWorkerConfig where
  "WorkerConfig_default =
    \<lparr>wc_thresholds = ThresholdConfig_default, wc_cadence = CadenceConfig_default, watchdog_interval = from_secs 30\<rparr>"

definition WorkerConfig_from_env :: "(string \<rightharpoonup> string) \<Rightarrow> ReWorkerConfig" where
  "WorkerConfig_from_env env =
    (let interval_secs = (case Option.bind (env ''RE_WATCHDOG_INTERVAL_SECS'') (parse_unsigned (2 ^ 64)) of
        Some v \<Rightarrow> if v > 0 then v else 30 | None \<Rightarrow> 30) in
     \<lparr>wc_thresholds = ThresholdConfig_from_env env, wc_cadence = CadenceConfig_default,
      watchdog_interval = from_secs interval_secs\<rparr>)"

section \<open>Sweeping\<close>

definition WATCHDOG_ERROR_MESSAGE :: string where
  "WATCHDOG_ERROR_MESSAGE = ''watchdog: no report received within the expected cadence for this entity''"

definition hb_snapshot :: "string list \<Rightarrow> HeartbeatCache \<Rightarrow> (string \<times> HeartbeatEntry) list" where
  "hb_snapshot order cache = List.map_filter (\<lambda>k. map_option (Pair k) (cache k)) order"

definition expected_cadence :: "HeartbeatEntry \<Rightarrow> CadenceConfig \<Rightarrow> nat option" where
  "expected_cadence entry cadence =
    (case hb_operational_state entry of
       None \<Rightarrow> None
     | Some state \<Rightarrow> if state = ''LIVE'' \<and> \<not> hb_volatile entry then None else for_state_str cadence state)"

definition env_qid_from_string :: "string \<Rightarrow> string option" where
  "env_qid_from_string entity =
    (case DeploymentQid_from_str entity of
       Inr qid \<Rightarrow> Some (EnvironmentQid_display (dep_env qid))
     | Inl _ \<Rightarrow>
         (case ResourceQid_from_str entity of
            Inr qid \<Rightarrow> Some (EnvironmentQid_display (res_env qid))
          | Inl _ \<Rightarrow> None))"

datatype WatchdogOutcome = WOpened | WAlreadyOpen | WSkipped

definition try_open_watchdog_incident :: "ReEnv \<Rightarrow> string \<Rightarrow> int \<Rightarrow> (ReState, PipelineError, WatchdogOutcome) op" where
  "try_open_watchdog_incident env entity now =
    (case env_qid_from_string entity of
       None \<Rightarrow> done_with WSkipped
     | Some env_qid \<Rightarrow>
         seq (on_sdb (open_incident (sdb_net env) (re_ulid env) entity env_qid SystemError now WATCHDOG_ERROR_MESSAGE)) (\<lambda>outcome.
         case outcome of
           Opened incident \<Rightarrow>
             seq (on_nq (nq_enqueue (nq_net env) (nq_encode env)
               \<lparr>nr_incident_id = ulid_str (inc_id incident), nr_event_type = NOpened, nr_entity_qid = entity,
                nr_category = SystemError, nr_opened_at = inc_opened_at incident, nr_closed_at = None,
                nr_summary = Some (inc_summary incident)\<rparr>)) (\<lambda>_. done_with WOpened)
         | AlreadyOpen _ \<Rightarrow> done_with WAlreadyOpen))"

text \<open>\<^verbatim>\<open>to_std\<close> refuses a negative duration, which counts as zero.\<close>

definition overdue :: "CadenceConfig \<Rightarrow> int \<Rightarrow> HeartbeatEntry \<Rightarrow> bool" where
  "overdue cadence now entry \<longleftrightarrow> \<not> hb_watchdog_open entry \<and>
    (case expected_cadence entry cadence of
       None \<Rightarrow> False
     | Some limit \<Rightarrow> \<not> nat (now - hb_last_report_at entry) \<le> limit)"

definition sweep_entry :: "ReEnv \<Rightarrow> CadenceConfig \<Rightarrow> int \<Rightarrow> string \<times> HeartbeatEntry \<Rightarrow> (ReState, PipelineError, unit) op" where
  "sweep_entry env cadence now = (\<lambda>(entity, entry).
    if \<not> overdue cadence now entry then done_with ()
    else seq (try_open_watchdog_incident env entity now) (\<lambda>outcome.
      case outcome of
        WSkipped \<Rightarrow> done_with ()
      | _ \<Rightarrow> modify_state (\<lambda>st. st\<lparr>heartbeats := mark_watchdog_open entity (heartbeats st)\<rparr>)))"

definition sweep :: "ReEnv \<Rightarrow> CadenceConfig \<Rightarrow> string list \<Rightarrow> int \<Rightarrow> (ReState, PipelineError, unit) op" where
  "sweep env cadence order now st =
    seq_list (sweep_entry env cadence now) (hb_snapshot order (heartbeats st)) st"

section \<open>The worker\<close>

definition check_worker_args :: "16 word \<Rightarrow> 16 word \<Rightarrow> 16 word \<Rightarrow> StartError + unit" where
  "check_worker_args index worker_total local_workers =
    (if local_workers = 0 then Inl NoLocalWorkers
     else if worker_total = 0 then Inl NoWorkers
     else if index \<ge> worker_total then Inl IndexTooLarge
     else if u16_saturating_add index local_workers > worker_total then Inl TooManyLocalWorkers
     else Inr ())"

text \<open>How an iteration ends, and whether the loop goes on.\<close>

datatype 'e IterationOutcome = StreamClosed | ConsumeFailed 'e | SettleFailed 'e Settlement | Settled Settlement

definition worker_loop_iteration ::
  "ReEnv \<Rightarrow> int \<Rightarrow> 'e + 'v Report option \<Rightarrow> (Settlement \<Rightarrow> 'e option) \<Rightarrow> ReState \<Rightarrow> 'e IterationOutcome \<times> ReState" where
  "worker_loop_iteration env now delivered broker st =
    (case delivered of
       Inl e \<Rightarrow> (ConsumeFailed e, st)
     | Inr None \<Rightarrow> (StreamClosed, st)
     | Inr (Some report) \<Rightarrow>
         (let (r, st') = process_report env now report st;
              settle = (case r of Inr _ \<Rightarrow> Ack | Inl _ \<Rightarrow> Nack False)
          in (case broker settle of None \<Rightarrow> Settled settle | Some e \<Rightarrow> SettleFailed e settle, st')))"

definition keep_running :: "'e IterationOutcome \<Rightarrow> bool" where
  "keep_running out = (case out of StreamClosed \<Rightarrow> False | _ \<Rightarrow> True)"

end
