(* ===== verification/Re_Notifications.thy ===== *)
theory Re_Notifications
  imports Watchdog
begin

text \<open>
  What the reporting engine promises the notification engine: the idempotency keys of the requests
  it publishes are distinct, whatever reports arrive, however often, and whichever database
  statement or publish fails on the way.
\<close>

section \<open>How calls change the registry of open incidents\<close>

definition slot_set :: "SdbTables \<Rightarrow> (string \<times> string \<times> IncidentId) set" where
  "slot_set t = {(e, c, i). get_row c (open_slots t e) = Some i}"

lemma slot_set_cong: "open_slots t' = open_slots t \<Longrightarrow> slot_set t' = slot_set t"
  by (simp add: slot_set_def)

lemma slot_set_release: "slot_set (release_open_slot e c t) = {(e', c', i) \<in> slot_set t. (e', c') \<noteq> (e, c)}"
  by (auto simp: slot_set_def release_open_slot_def split: if_splits)

lemma slot_set_claim: "slot_set (snd (claim_open_slot e c i t)) \<subseteq> insert (e, c, i) (slot_set t)"
  by (auto simp: slot_set_def claim_open_slot_def split: if_splits option.splits)

lemma slot_set_update [simp]: "slot_set (update_incident env i f t) = slot_set t"
  by (rule slot_set_cong) (simp add: update_incident_def)

lemma slot_set_put [simp]: "slot_set (put_incident env i row t) = slot_set t"
  by (rule slot_set_cong) simp

lemma slot_set_report [simp]: "slot_set (insert_incident_report i at msg t) = slot_set t"
  by (rule slot_set_cong) (simp add: insert_incident_report_def)

text \<open>\<open>within N A\<close>: no statement has run since the counter was \<open>N\<close> that added a slot outside \<open>A\<close>.\<close>

definition within :: "nat \<Rightarrow> (string \<times> string \<times> IncidentId) set \<Rightarrow> nat \<Rightarrow> SdbTables \<Rightarrow> bool" where
  "within N A n t \<longleftrightarrow> N \<le> n \<and> slot_set t \<subseteq> A"

lemma within_Suc: "within N A n t \<Longrightarrow> within N A (Suc n) t"
  by (simp add: within_def)

lemma within_same: "within N A n t \<Longrightarrow> slot_set t' = slot_set t \<Longrightarrow> within N A (Suc n) t'"
  by (simp add: within_def)

lemma append_within: "keeps (within N A) (append_failure_to_open_incident net i e env c opened at cnt msg)"
  unfolding append_failure_to_open_incident_def list_reports_for_incident_def Let_def
  by (intro keeps_seq keeps_write keeps_read keeps_done incident_in_env_keeps) (auto simp: within_def)

lemma record_within: "keeps (within N A) (record_new_incident net i e env c at msg)"
  unfolding record_new_incident_def Let_def
  by (intro keeps_seq keeps_write keeps_done) (auto simp: within_def)

lemma open_within:
  "within (executed d) (insert (e, category_as_str c, ulid at (executed d)) (slot_set (tables d)))
    (executed (snd (open_incident net ulid e env c at msg d))) (tables (snd (open_incident net ulid e env c at msg d)))"
proof -
  let ?i = "ulid at (executed d)"
  let ?A = "insert (e, category_as_str c, ?i) (slot_set (tables d))"
  let ?W = "\<lambda>s. within (executed d) ?A (executed s) (tables s)"
  have "op_ok (\<lambda>s. executed s = executed d \<and> tables s = tables d)
      (exec net SdbExecute (claim_open_slot e (category_as_str c) ?i)) (\<lambda>_. ?W) ?W"
    using slot_set_claim [of e "category_as_str c" ?i "tables d"]
    by (intro op_ok_exec [where P = "\<lambda>n t. n = executed d \<and> t = tables d"]) (auto simp: within_def)
  moreover have "op_ok ?W (case existing of Some j \<Rightarrow> done_with (AlreadyOpen j)
      | None \<Rightarrow> record_new_incident net ?i e env c at msg) (\<lambda>_. ?W) ?W" for existing
    using record_within unfolding keeps_def by (cases existing) (auto intro: op_ok_done)
  ultimately have "op_ok (\<lambda>s. executed s = executed d \<and> tables s = tables d)
      (seq (exec net SdbExecute (claim_open_slot e (category_as_str c) ?i)) (\<lambda>existing.
        case existing of Some j \<Rightarrow> done_with (AlreadyOpen j)
        | None \<Rightarrow> record_new_incident net ?i e env c at msg)) (\<lambda>_. ?W) ?W"
    by (rule op_ok_seq)
  from op_ok_state [OF this, of d] show ?thesis by (simp add: open_incident_def Let_def)
qed

lemma row_incident_id: "row_incident e i row = Inr inc \<Longrightarrow> inc_id inc = i"
  by (auto simp: row_incident_def split: option.splits sum.splits)

lemma incident_in_env_id:
  assumes "incident_in_env net env i d = (Inr (Some inc), d')"
  shows "inc_id inc = i"
proof -
  from assms obtain row d1 where
    "(case row of None \<Rightarrow> done_with None
      | Some r \<Rightarrow> seq (of_result (row_incident SdbMaybeFirstRow i r)) (\<lambda>inc. done_with (Some inc))) d1 = (Inr (Some inc), d')"
    unfolding incident_in_env_def seq_Inr by blast
  then show ?thesis
    by (cases row; cases "row_incident SdbMaybeFirstRow i (the row)")
      (auto simp: done_with_def of_result_def fail_with_def dest: row_incident_id)
qed

lemma close_within:
  "op_ok (\<lambda>s. s = d) (close_incident net e env c at last_at cnt)
    (\<lambda>out s. within (executed d) (slot_set (tables d)) (executed s) (tables s) \<and>
      (\<forall>inc. out = Closed inc \<longrightarrow> (e, category_as_str c, inc_id inc) \<in> slot_set (tables d) \<and>
        slot_set (tables s) \<subseteq> {(e', c', i) \<in> slot_set (tables d). (e', c') \<noteq> (e, category_as_str c)}))
    (\<lambda>s. within (executed d) (slot_set (tables d)) (executed s) (tables s))"
  (is "op_ok _ _ ?Q ?R")
proof -
  let ?c = "category_as_str c" and ?A = "slot_set (tables d)"
  let ?B = "{(e', c', i) \<in> ?A. (e', c') \<noteq> (e, ?c)}"
  let ?W = "\<lambda>A s. within (executed d) A (executed s) (tables s)"
  have sub: "?W ?B s \<Longrightarrow> ?W ?A s" for s by (auto simp: within_def)
  have look: "op_ok (\<lambda>s. s = d) (cql_read net SdbExecute (\<lambda>t. get_row ?c (open_slots t e)))
      (\<lambda>slot s. slot = get_row ?c (open_slots (tables d) e) \<and> within (executed d) ?A (executed s) (tables s) \<and> tables s = tables d) (?W ?A)"
    by (rule op_ok_weaken [OF op_ok_read [where P = "\<lambda>n t. n = executed d \<and> t = tables d"
        and Q = "\<lambda>slot n t. slot = get_row ?c (open_slots (tables d) e) \<and> within (executed d) ?A n t \<and> t = tables d"
        and R = "within (executed d) ?A"]]) (auto simp: within_def)
  have release: "op_ok (\<lambda>s. within (executed d) ?A (executed s) (tables s) \<and> tables s = tables d)
      (cql_write net SdbExecute (release_open_slot e ?c)) (\<lambda>_. ?W ?B) (?W ?A)"
    by (rule op_ok_weaken [OF op_ok_write [where P = "\<lambda>n t. within (executed d) ?A n t \<and> t = tables d"
        and Q = "within (executed d) ?B" and R = "within (executed d) ?A"]]) (auto simp: within_def slot_set_release)
  have stamp: "op_ok (?W ?B) (cql_write net SdbExecute (update_incident env i f)) (\<lambda>_. ?W ?B) (?W ?A)" for i f
    by (rule op_ok_weaken [OF op_ok_write [where P = "within (executed d) ?B"
        and Q = "within (executed d) ?B" and R = "within (executed d) ?A"]]) (auto simp: within_def)
  have reread: "op_ok (?W ?B) (incident_in_env net env i) (\<lambda>x s. ?W ?B s \<and> (\<forall>inc. x = Some inc \<longrightarrow> inc_id inc = i)) (?W ?A)" for i
  proof -
    have "op_ok (?W ?B) (incident_in_env net env i) (\<lambda>_. ?W ?B) (?W ?B)"
      using incident_in_env_keeps [where I = "within (executed d) ?B", OF within_Suc] unfolding keeps_def .
    then have "op_ok (?W ?B) (incident_in_env net env i) (\<lambda>_. ?W ?B) (?W ?A)"
      by (rule op_ok_weaken) (simp_all add: sub)
    then show ?thesis by (rule op_ok_result) (auto dest: incident_in_env_id)
  qed
  show ?thesis
    unfolding close_incident_def
  proof (rule op_ok_seq [OF look], rule op_ok_cases_option)
    fix found :: "IncidentId option" and i
    assume i: "found = Some i"
    show "op_ok (\<lambda>s. found = get_row ?c (open_slots (tables d) e) \<and> ?W ?A s \<and> tables s = tables d)
      (seq (cql_write net SdbExecute (release_open_slot e ?c)) (\<lambda>_.
       seq (cql_write net SdbExecute (update_incident env i (\<lambda>r. r\<lparr>ir_closed_at := Some at,
         ir_last_report_at := Some last_at, ir_report_count := Some (i64_saturate cnt)\<rparr>))) (\<lambda>_.
       seq (incident_in_env net env i) (\<lambda>updated.
       done_with (case updated of Some inc \<Rightarrow> Closed inc | None \<Rightarrow> NotOpen))))) ?Q ?R"
    proof (cases "get_row ?c (open_slots (tables d) e) = Some i")
      case True
      then have "(e, ?c, i) \<in> ?A" by (simp add: slot_set_def)
      then show ?thesis
        by (intro op_ok_weaken [OF op_ok_seq [OF release op_ok_seq [OF stamp op_ok_seq [OF reread op_ok_done]]], where Q' = ?Q])
          (auto simp: within_def split: option.splits)
    qed (use i in \<open>simp add: op_ok_def\<close>)
  qed (intro op_ok_done, auto)
qed

section \<open>The invariant of a worker\<close>

definition nq_inv :: "ulid_source \<Rightarrow> nat \<Rightarrow> SdbTables \<Rightarrow> NotificationRequest list \<Rightarrow> bool" where
  "nq_inv ulid n t q \<longleftrightarrow> distinct (map idempotency_key q) \<and>
    (\<forall>r\<in>set q. drawn ulid n (IncidentId (nr_incident_id r)) \<and>
      (nr_event_type r = NClosed \<longrightarrow> (\<forall>e c. (e, c, IncidentId (nr_incident_id r)) \<notin> slot_set t)))"

definition re_inv :: "ulid_source \<Rightarrow> ReState \<Rightarrow> bool" where
  "re_inv ulid st \<longleftrightarrow> sdb_inv ulid {} (executed (re_sdb st)) (tables (re_sdb st)) \<and>
    nq_inv ulid (executed (re_sdb st)) (tables (re_sdb st)) (tables (re_nq st))"

definition re_drawn :: "ulid_source \<Rightarrow> ReState \<Rightarrow> IncidentId \<Rightarrow> bool" where
  "re_drawn ulid st i \<longleftrightarrow> drawn ulid (executed (re_sdb st)) i"

lemma nq_inv_within:
  assumes "nq_inv ulid N t q" "within N (slot_set t) n t'"
  shows "nq_inv ulid n t' q"
  using assms drawn_mono unfolding nq_inv_def within_def by blast

lemma nq_inv_opened:
  assumes "nq_inv ulid N t q" "ulid_unique ulid" "within N (insert (e, c, ulid at N) (slot_set t)) n t'"
  shows "nq_inv ulid n t' q"
proof -
  have "IncidentId (nr_incident_id r) \<noteq> ulid at N" if "r \<in> set q" for r
    using assms(1) that drawn_fresh [OF assms(2), of N at] unfolding nq_inv_def by metis
  with assms(1,3) drawn_mono show ?thesis unfolding nq_inv_def within_def by blast
qed

lemma on_sdb_state:
  "re_sdb (snd (on_sdb m st)) = snd (m (re_sdb st))" "re_nq (snd (on_sdb m st)) = re_nq st"
  "tracker (snd (on_sdb m st)) = tracker st" "heartbeats (snd (on_sdb m st)) = heartbeats st"
  "re_rdb (snd (on_sdb m st)) = re_rdb st"
  by (simp_all add: on_sdb_def lift_op_def split: prod.splits)

lemma on_sdb_Inr: "on_sdb m st = (Inr x, st') \<longleftrightarrow> (\<exists>s. m (re_sdb st) = (Inr x, s) \<and> st' = st\<lparr>re_sdb := s\<rparr>)"
  by (auto simp: on_sdb_def map_err_Inr lift_op_def split: prod.splits)

lemma op_ok_by_state:
  assumes "\<And>st. P st \<Longrightarrow> R (snd (m st))" "\<And>st x st'. P st \<Longrightarrow> m st = (Inr x, st') \<Longrightarrow> R st' \<Longrightarrow> Q x st'"
  shows "op_ok P m Q R"
  unfolding op_ok_def
proof (intro allI impI)
  fix st
  assume "P st"
  with assms(1) [of st] assms(2) [of st] show "case m st of (Inr x, st') \<Rightarrow> Q x st' | (Inl e, st') \<Rightarrow> R st'"
    by (cases "m st"; cases "fst (m st)") auto
qed

text \<open>Calls that add no slot.\<close>

lemma on_sdb_quiet:
  assumes "keeps (\<lambda>n t. sdb_inv ulid {} n t \<and> D n) m" "\<And>N A. keeps (within N A) m" "re_inv ulid st" "D (executed (re_sdb st))"
  shows "re_inv ulid (snd (on_sdb m st)) \<and> D (executed (re_sdb (snd (on_sdb m st))))"
proof -
  let ?d = "re_sdb st" and ?s = "snd (m (re_sdb st))"
  have "sdb_inv ulid {} (executed ?s) (tables ?s) \<and> D (executed ?s)"
    using keeps_state [where I = "\<lambda>n t. sdb_inv ulid {} n t \<and> D n", OF assms(1)] assms(3,4) by (simp add: re_inv_def)
  moreover have "within (executed ?d) (slot_set (tables ?d)) (executed ?s) (tables ?s)"
    by (rule keeps_state [where I = "within (executed ?d) (slot_set (tables ?d))", OF assms(2)]) (simp add: within_def)
  ultimately show ?thesis
    using assms(3) nq_inv_within unfolding re_inv_def on_sdb_state by blast
qed

lemma keeps_read_op:
  assumes "\<And>n t. I n t \<Longrightarrow> I (Suc n) t"
  shows "keeps I (find_open_incident_id net e c)" "keeps I (list_open_incidents_for_entity net e)"
    "keeps I (status_summary net e)" "keeps I (incident_in_env net env i)"
  using assms
  by (auto simp: find_open_incident_id_def list_open_incidents_for_entity_def status_summary_def
      split: sum.splits intro!: keeps_intros incident_in_env_keeps)

lemma re_read:
  assumes "\<And>I. (\<And>n (t :: SdbTables). I n t \<Longrightarrow> I (Suc n) t) \<Longrightarrow> keeps I m"
  shows "op_ok (re_inv ulid) (on_sdb m) (\<lambda>_. re_inv ulid) (re_inv ulid)"
    and "op_ok (\<lambda>st. re_inv ulid st \<and> re_drawn ulid st i) (on_sdb m)
      (\<lambda>_ st. re_inv ulid st \<and> re_drawn ulid st i) (\<lambda>st. re_inv ulid st \<and> re_drawn ulid st i)"
proof -
  have w: "keeps (within N A) m" for N A by (rule assms) (rule within_Suc)
  have "keeps (\<lambda>n t. sdb_inv ulid {} n t \<and> True) m" by (rule assms) (simp add: sdb_inv_Suc)
  from on_sdb_quiet [where D = "\<lambda>_. True", OF this w]
  show "op_ok (re_inv ulid) (on_sdb m) (\<lambda>_. re_inv ulid) (re_inv ulid)" by (intro op_ok_by_state) auto
  have "keeps (\<lambda>n t. sdb_inv ulid {} n t \<and> drawn ulid n i) m" by (rule assms) (rule sdb_inv_drawn_Suc)
  from on_sdb_quiet [where D = "\<lambda>n. drawn ulid n i", OF this w]
  show "op_ok (\<lambda>st. re_inv ulid st \<and> re_drawn ulid st i) (on_sdb m)
      (\<lambda>_ st. re_inv ulid st \<and> re_drawn ulid st i) (\<lambda>st. re_inv ulid st \<and> re_drawn ulid st i)"
    unfolding re_drawn_def by (intro op_ok_by_state) auto
qed

lemma re_append:
  "op_ok (\<lambda>st. re_inv ulid st \<and> re_drawn ulid st i)
    (on_sdb (append_failure_to_open_incident net i e env c opened at cnt msg)) (\<lambda>_. re_inv ulid) (re_inv ulid)"
  using on_sdb_quiet [where D = "\<lambda>n. drawn ulid n i", OF append_keeps append_within]
  unfolding re_drawn_def by (intro op_ok_by_state) auto

lemma re_find:
  "op_ok (re_inv ulid) (on_sdb (find_open_incident_id net e c))
    (\<lambda>found st. re_inv ulid st \<and> (\<forall>i. found = Some i \<longrightarrow> re_drawn ulid st i)) (re_inv ulid)"
proof (rule op_ok_by_state)
  fix st
  assume "re_inv ulid st"
  with op_ok_state [OF re_read(1) [where ulid = ulid and m = "find_open_incident_id net e c", OF keeps_read_op(1)], of st]
  show "re_inv ulid (snd (on_sdb (find_open_incident_id net e c) st))" by simp
next
  fix st found st'
  assume "on_sdb (find_open_incident_id net e c) st = (Inr found, st')" and inv: "re_inv ulid st'"
  then have "found = get_row (category_as_str c) (open_slots (tables (re_sdb st')) e)"
    by (auto simp: on_sdb_Inr find_open_incident_id_def cql_read_def exec_def Let_def split: Exec.splits)
  with inv show "re_inv ulid st' \<and> (\<forall>i. found = Some i \<longrightarrow> re_drawn ulid st' i)"
    by (auto simp: re_inv_def re_drawn_def dest: sdb_invD(1))
qed

text \<open>Opening an incident draws an identifier that no published request has.\<close>

definition unpublished :: "ReState \<Rightarrow> IncidentId \<Rightarrow> bool" where
  "unpublished st i \<longleftrightarrow> (\<forall>r\<in>set (tables (re_nq st)). nr_incident_id r \<noteq> ulid_str i)"

lemma drawn_newer: "k < n \<Longrightarrow> drawn ulid n (ulid at k)"
  by (auto simp: drawn_def)

lemma open_outcome:
  assumes "open_incident net ulid e env c at msg d = (Inr out, d')"
  shows "(\<exists>inc. out = Opened inc \<and> inc_id inc = ulid at (executed d) \<and> executed d < executed d') \<or>
    (\<exists>j. out = AlreadyOpen j \<and> get_row (category_as_str c) (open_slots (tables d') e) = Some j)"
  using assms
  by (auto simp: open_incident_def record_new_incident_def Let_def seq_def exec_def cql_write_def done_with_def
      claim_open_slot_def split: Exec.splits option.splits)

lemma re_open:
  assumes "ulid_unique ulid"
  shows "op_ok (re_inv ulid) (on_sdb (open_incident net ulid e env c at msg))
    (\<lambda>out st. re_inv ulid st \<and> (case out of
       Opened inc \<Rightarrow> re_drawn ulid st (inc_id inc) \<and> unpublished st (inc_id inc)
     | AlreadyOpen j \<Rightarrow> re_drawn ulid st j)) (re_inv ulid)"
proof (rule op_ok_by_state)
  fix st :: ReState
  let ?d = "re_sdb st" and ?s = "snd (open_incident net ulid e env c at msg (re_sdb st))"
  assume inv: "re_inv ulid st"
  have "within (executed ?d) (insert (e, category_as_str c, ulid at (executed ?d)) (slot_set (tables ?d))) (executed ?s) (tables ?s)"
    by (rule open_within)
  with inv show "re_inv ulid (snd (on_sdb (open_incident net ulid e env c at msg) st))"
    using open_keeps [OF assms, of "{}" ?d] nq_inv_opened [OF _ assms, of "executed ?d" "tables ?d" _ e "category_as_str c" at]
    unfolding re_inv_def on_sdb_state by blast
next
  fix st out st'
  assume inv: "re_inv ulid st" and run: "on_sdb (open_incident net ulid e env c at msg) st = (Inr out, st')"
    and inv': "re_inv ulid st'"
  from run obtain d' where d': "open_incident net ulid e env c at msg (re_sdb st) = (Inr out, d')" "st' = st\<lparr>re_sdb := d'\<rparr>"
    by (auto simp: on_sdb_Inr)
  have new: "nr_incident_id r \<noteq> ulid_str (ulid at (executed (re_sdb st)))" if "r \<in> set (tables (re_nq st))" for r
    using inv that drawn_fresh [OF assms, of "executed (re_sdb st)" at]
    by (auto simp: re_inv_def nq_inv_def)
  from open_outcome [OF d'(1)] show "re_inv ulid st' \<and> (case out of
       Opened inc \<Rightarrow> re_drawn ulid st' (inc_id inc) \<and> unpublished st' (inc_id inc)
     | AlreadyOpen j \<Rightarrow> re_drawn ulid st' j)"
    using inv' new d'(2) sdb_invD(1) [of ulid "{}" "executed d'" "tables d'"]
    by (auto simp: unpublished_def re_drawn_def re_inv_def intro: drawn_newer)
qed

text \<open>Publishing keeps the invariant when the request is new.\<close>

lemma re_publish:
  "op_ok (\<lambda>st. re_inv ulid st \<and> re_drawn ulid st (IncidentId (nr_incident_id r)) \<and>
      idempotency_key r \<notin> idempotency_key ` set (tables (re_nq st)) \<and>
      (nr_event_type r = NClosed \<longrightarrow> (\<forall>e c. (e, c, IncidentId (nr_incident_id r)) \<notin> slot_set (tables (re_sdb st)))))
    (on_nq (nq_enqueue net encode r)) (\<lambda>_. re_inv ulid) (re_inv ulid)"
  by (rule op_ok_by_state)
    (auto simp: on_nq_def nq_enqueue_def lift_op_def fail_with_def cql_write_def exec_def Let_def re_inv_def nq_inv_def
      re_drawn_def split: sum.splits Exec.splits)

text \<open>Closing an incident takes its identifier out of every slot, and no closing has been published for it.\<close>

definition retired :: "ReState \<Rightarrow> IncidentId \<Rightarrow> bool" where
  "retired st i \<longleftrightarrow> (\<forall>e c. (e, c, i) \<notin> slot_set (tables (re_sdb st))) \<and>
    (\<forall>r\<in>set (tables (re_nq st)). nr_event_type r = NClosed \<longrightarrow> nr_incident_id r \<noteq> ulid_str i)"

lemma re_close:
  "op_ok (re_inv ulid) (on_sdb (close_incident net e env c at last_at cnt))
    (\<lambda>out st. re_inv ulid st \<and> (\<forall>inc. out = Closed inc \<longrightarrow> re_drawn ulid st (inc_id inc) \<and> retired st (inc_id inc)))
    (re_inv ulid)"
proof (rule op_ok_by_state)
  fix st :: ReState
  let ?d = "re_sdb st" and ?s = "snd (close_incident net e env c at last_at cnt (re_sdb st))"
  assume inv: "re_inv ulid st"
  have "within (executed ?d) (slot_set (tables ?d)) (executed ?s) (tables ?s)"
    by (rule op_ok_state [OF op_ok_weaken [OF close_within [where d = ?d], where P' = "\<lambda>s. s = ?d"]]) auto
  with inv show "re_inv ulid (snd (on_sdb (close_incident net e env c at last_at cnt) st))"
    using close_keeps [of ulid "{}" ?d] nq_inv_within [of ulid "executed ?d" "tables ?d"]
    unfolding re_inv_def on_sdb_state by blast
next
  fix st out st'
  assume inv: "re_inv ulid st" and run: "on_sdb (close_incident net e env c at last_at cnt) st = (Inr out, st')"
    and inv': "re_inv ulid st'"
  from run obtain d' where d': "close_incident net e env c at last_at cnt (re_sdb st) = (Inr out, d')" "st' = st\<lparr>re_sdb := d'\<rparr>"
    by (auto simp: on_sdb_Inr)
  let ?A = "slot_set (tables (re_sdb st))" and ?c = "category_as_str c"
  have "re_drawn ulid st' i \<and> retired st' i" if out: "out = Closed inc" and i: "inc_id inc = i" for inc i
  proof -
    from close_within [where d = "re_sdb st" and net = net and e = e and env = env and c = c and at = at
        and last_at = last_at and cnt = cnt] d'(1) out i
    have n: "executed (re_sdb st) \<le> executed d'" and slot: "(e, ?c, i) \<in> ?A"
      and less: "slot_set (tables d') \<subseteq> {(e', c', j) \<in> ?A. (e', c') \<noteq> (e, ?c)}"
      by (auto simp: op_ok_def within_def)
    have sdb: "sdb_inv ulid {} (executed (re_sdb st)) (tables (re_sdb st))" using inv by (simp add: re_inv_def)
    have "re_drawn ulid st' i"
      using drawn_mono [OF sdb_invD(1) [OF sdb] n] slot d'(2) by (simp add: slot_set_def re_drawn_def)
    moreover have "(e', c', i) \<notin> slot_set (tables d')" for e' c'
      using less slot sdb_invD(3) [OF sdb, of ?c e i c' e'] by (auto simp: slot_set_def)
    moreover have "\<forall>r\<in>set (tables (re_nq st)). nr_event_type r = NClosed \<longrightarrow> nr_incident_id r \<noteq> ulid_str i"
      using inv slot by (auto simp: re_inv_def nq_inv_def)
    ultimately show ?thesis using d'(2) by (simp add: retired_def)
  qed
  with inv' show "re_inv ulid st' \<and> (\<forall>inc. out = Closed inc \<longrightarrow> re_drawn ulid st' (inc_id inc) \<and> retired st' (inc_id inc))"
    by blast
qed

section \<open>The pipeline keeps the invariant\<close>

abbreviation re_keeps :: "ulid_source \<Rightarrow> (ReState, 'e, 'a) op \<Rightarrow> bool" where
  "re_keeps ulid m \<equiv> op_ok (re_inv ulid) m (\<lambda>_. re_inv ulid) (re_inv ulid)"

lemma publish_opened:
  "op_ok (\<lambda>st. re_inv ulid st \<and> re_drawn ulid st (inc_id inc) \<and> unpublished st (inc_id inc))
    (on_nq (nq_enqueue net encode (opened_request entity category inc))) (\<lambda>_. re_inv ulid) (re_inv ulid)"
  by (rule op_ok_weaken [OF re_publish])
    (auto simp: opened_request_def unpublished_def idempotency_key_inj)

lemma publish_closed:
  "op_ok (\<lambda>st. re_inv ulid st \<and> re_drawn ulid st (inc_id inc) \<and> retired st (inc_id inc))
    (on_nq (nq_enqueue net encode (closed_request entity category inc))) (\<lambda>_. re_inv ulid) (re_inv ulid)"
  by (rule op_ok_weaken [OF re_publish])
    (auto simp: closed_request_def retired_def idempotency_key_inj)

lemma re_lookup:
  "op_ok (\<lambda>st. re_inv ulid st \<and> re_drawn ulid st i) (on_sdb (incident_in_env net env i))
    (\<lambda>x st. (re_inv ulid st \<and> re_drawn ulid st i) \<and> (\<forall>inc. x = Some inc \<longrightarrow> inc_id inc = i)) (re_inv ulid)"
proof (rule op_ok_result)
  show "op_ok (\<lambda>st. re_inv ulid st \<and> re_drawn ulid st i) (on_sdb (incident_in_env net env i))
    (\<lambda>_ st. re_inv ulid st \<and> re_drawn ulid st i) (re_inv ulid)"
    by (rule op_ok_weaken [OF re_read(2) [where m = "incident_in_env net env i", OF keeps_read_op(4)]]) auto
qed (auto simp: on_sdb_Inr dest: incident_in_env_id)

lemma append_to_open_keeps:
  "op_ok (\<lambda>st. re_inv ulid st \<and> re_drawn ulid st i) (append_to_open env e q c msg at i) (\<lambda>_. re_inv ulid) (re_inv ulid)"
  unfolding append_to_open_def
proof (rule op_ok_seq [OF re_lookup], unfold Let_def split_beta, rule op_ok_seq)
  fix x :: "Incident option"
  show "op_ok (\<lambda>st. (re_inv ulid st \<and> re_drawn ulid st i) \<and> (\<forall>inc. x = Some inc \<longrightarrow> inc_id inc = i))
    (on_sdb (append_failure_to_open_incident (sdb_net env) i e q c
      (snd (case x of None \<Rightarrow> (1, at) | Some inc \<Rightarrow> (inc_report_count inc + 1, inc_opened_at inc))) at
      (fst (case x of None \<Rightarrow> (1, at) | Some inc \<Rightarrow> (inc_report_count inc + 1, inc_opened_at inc))) msg))
    (\<lambda>_. re_inv ulid) (re_inv ulid)"
    by (rule op_ok_weaken [OF re_append]) auto
qed (rule op_ok_done)

lemma bump_keeps:
  "op_ok (\<lambda>st. re_inv ulid st \<and> re_drawn ulid st i) (bump_already_open env e q c msg at i) (\<lambda>_. re_inv ulid) (re_inv ulid)"
  unfolding bump_already_open_def
proof (rule op_ok_seq [OF re_lookup], rule op_ok_cases_option)
  fix x and inc :: Incident
  assume "x = Some inc"
  show "op_ok (\<lambda>st. (re_inv ulid st \<and> re_drawn ulid st i) \<and> (\<forall>inc. x = Some inc \<longrightarrow> inc_id inc = i))
    (seq (on_sdb (append_failure_to_open_incident (sdb_net env) (inc_id inc) e q c (inc_opened_at inc) at
      (inc_report_count inc + 1) msg)) (\<lambda>_. done_with ())) (\<lambda>_. re_inv ulid) (re_inv ulid)"
    by (rule op_ok_seq [OF op_ok_weaken [OF re_append] op_ok_done]) (use \<open>x = Some inc\<close> in auto)
qed (auto intro: op_ok_done)

lemma handle_failure_keeps:
  assumes "ulid_unique (re_ulid env)"
  shows "re_keeps (re_ulid env) (handle_failure env e q c msg at now)"
  unfolding handle_failure_def
proof (rule op_ok_seq [OF re_find], rule op_ok_cases_option)
  fix found :: "IncidentId option" and i
  assume "found = Some i"
  then show "op_ok (\<lambda>st. re_inv (re_ulid env) st \<and> (\<forall>i. found = Some i \<longrightarrow> re_drawn (re_ulid env) st i))
    (append_to_open env e q c msg at i) (\<lambda>_. re_inv (re_ulid env)) (re_inv (re_ulid env))"
    by (intro op_ok_weaken [OF append_to_open_keeps]) auto
next
  fix found :: "IncidentId option"
  let ?ulid = "re_ulid env"
  let ?check = "\<lambda>st. let (tripped, tr) = record_and_check (tracker st) e c (rule_for (thresholds env) c) at now
                   in (Inr tripped, st\<lparr>tracker := tr\<rparr>)"
  have check: "op_ok (\<lambda>st. re_inv ?ulid st \<and> (\<forall>i. found = Some i \<longrightarrow> re_drawn ?ulid st i)) ?check
      (\<lambda>_. re_inv ?ulid) (re_inv ?ulid)"
    by (auto simp: op_ok_def Let_def re_inv_def split: prod.splits)
  have outcome: "op_ok (\<lambda>st. re_inv ?ulid st \<and> (case out of
       Opened inc \<Rightarrow> re_drawn ?ulid st (inc_id inc) \<and> unpublished st (inc_id inc)
     | AlreadyOpen j \<Rightarrow> re_drawn ?ulid st j))
    (case out of
       Opened inc \<Rightarrow> on_nq (nq_enqueue (nq_net env) (nq_encode env) (opened_request e c inc))
     | AlreadyOpen j \<Rightarrow> bump_already_open env e q c msg at j) (\<lambda>_. re_inv ?ulid) (re_inv ?ulid)" for out
    by (cases out) (auto intro: op_ok_weaken [OF publish_opened] op_ok_weaken [OF bump_keeps])
  show "op_ok (\<lambda>st. re_inv ?ulid st \<and> (\<forall>i. found = Some i \<longrightarrow> re_drawn ?ulid st i))
    (seq ?check (\<lambda>tripped. if \<not> tripped then done_with ()
        else seq (on_sdb (open_incident (sdb_net env) (re_ulid env) e q c at msg)) (\<lambda>outcome.
          case outcome of
            Opened incident \<Rightarrow> on_nq (nq_enqueue (nq_net env) (nq_encode env) (opened_request e c incident))
          | AlreadyOpen existing_id \<Rightarrow> bump_already_open env e q c msg at existing_id)))
    (\<lambda>_. re_inv ?ulid) (re_inv ?ulid)"
    by (rule op_ok_seq [OF check]) (simp add: op_ok_done op_ok_seq [OF re_open [OF assms] outcome])
qed

lemma op_ok_case_ignored:
  assumes "\<And>st. P st \<Longrightarrow> P (snd (m st))" "\<And>x st. P st \<Longrightarrow> P (snd (k x st))"
  shows "P st \<Longrightarrow> P (snd (case m st of (Inr (Some i), st') \<Rightarrow>
      (case k i st' of (Inr (Some y), st'') \<Rightarrow> (Inr (f y), st'') | (_, st'') \<Rightarrow> (Inr d, st''))
    | (_, st') \<Rightarrow> (Inr d, st')))"
  using assms by (auto split: prod.splits sum.splits option.splits) (metis snd_conv)+

lemma running_count_keeps: "re_keeps ulid (running_count_for env e q c)"
proof -
  have "re_inv ulid (snd (running_count_for env e q c st))" if "re_inv ulid st" for st
    unfolding running_count_for_def
    using op_ok_state [OF re_read(1) [where ulid = ulid and m = "find_open_incident_id (sdb_net env) e c", OF keeps_read_op(1)]]
      op_ok_state [OF re_read(1) [where ulid = ulid and m = "incident_in_env (sdb_net env) q i" for i, OF keeps_read_op(4)]]
    by (intro op_ok_case_ignored [where P = "re_inv ulid", OF _ _ that]) blast+
  then show ?thesis by (intro op_ok_by_state) simp_all
qed

lemma close_one_keeps: "re_keeps ulid (close_one env e q at c)"
  unfolding close_one_def
proof (rule op_ok_seq [OF running_count_keeps], rule op_ok_seq [OF re_close])
  fix out
  show "op_ok (\<lambda>st. re_inv ulid st \<and> (\<forall>inc. out = Closed inc \<longrightarrow> re_drawn ulid st (inc_id inc) \<and> retired st (inc_id inc)))
    (case out of Closed inc \<Rightarrow> on_nq (nq_enqueue (nq_net env) (nq_encode env) (closed_request e c inc)) | NotOpen \<Rightarrow> done_with ())
    (\<lambda>_. re_inv ulid) (re_inv ulid)"
    by (cases out) (auto intro: op_ok_weaken [OF publish_closed] op_ok_done)
qed

lemma op_ok_seq_list: "(\<And>x. op_ok I (f x) (\<lambda>_. I) I) \<Longrightarrow> op_ok I (seq_list f xs) (\<lambda>_. I) I"
  by (induction xs) (auto intro!: op_ok_done op_ok_seq)

lemma re_keeps_modify: "(\<And>st. re_inv ulid st \<Longrightarrow> re_inv ulid (f st)) \<Longrightarrow> re_keeps ulid (modify_state f)"
  by (simp add: op_ok_def modify_state_def)

lemma re_keeps_rdb: "re_keeps ulid (on_rdb m)"
  by (rule op_ok_by_state) (auto simp: on_rdb_def map_err_def lift_op_def re_inv_def split: prod.splits sum.splits)

lemma re_keeps_summary:
  "re_keeps ulid (on_sdb (upsert_status_summary net x))" "re_keeps ulid (on_sdb (delete_status_summary net e))"
proof -
  have "re_inv ulid (snd (on_sdb (cql_write net err (\<lambda>t. t\<lparr>summaries := f t\<rparr>)) st))" if "re_inv ulid st" for st err f
  proof -
    let ?m = "cql_write net err (\<lambda>t. t\<lparr>summaries := f t\<rparr>)"
    have "keeps (\<lambda>n t. sdb_inv ulid {} n t \<and> True) ?m"
      by (rule keeps_write) (auto intro: sdb_inv_Suc sdb_inv_cong)
    moreover have "keeps (within N A) ?m" for N A
      by (rule keeps_write) (simp_all add: within_def slot_set_def)
    ultimately show ?thesis using on_sdb_quiet [where D = "\<lambda>_. True" and m = ?m, OF _ _ that] by simp
  qed
  then show "re_keeps ulid (on_sdb (upsert_status_summary net x))" "re_keeps ulid (on_sdb (delete_status_summary net e))"
    unfolding upsert_status_summary_def delete_status_summary_def by (auto intro!: op_ok_by_state)
qed

lemma re_keeps_list: "re_keeps ulid (on_sdb (list_open_incidents_for_entity net e))"
  by (rule re_read(1)) (rule keeps_read_op(2))

lemma re_keeps_status: "re_keeps ulid (on_sdb (status_summary net e))"
  by (rule re_read(1)) (rule keeps_read_op(3))

lemma apply_outcome_keeps:
  assumes "ulid_unique (re_ulid env)"
  shows "re_keeps (re_ulid env) (apply_outcome env now report)"
proof -
  have success: "re_keeps (re_ulid env) (handle_success env e q at)" for e q at
    unfolding handle_success_def split_beta
    by (rule op_ok_seq [OF re_keeps_list op_ok_seq_list [OF close_one_keeps]])
  have tracker: "re_keeps (re_ulid env) (modify_state (\<lambda>st. st\<lparr>tracker := f st\<rparr>))" for f
    by (rule re_keeps_modify) (simp add: re_inv_def)
  show ?thesis
    by (cases "outcome report")
      (simp_all add: apply_outcome_def Let_def handle_failure_keeps [OF assms] op_ok_seq [OF success tracker])
qed

lemma process_report_keeps:
  assumes "ulid_unique (re_ulid env)"
  shows "re_keeps (re_ulid env) (process_report env now report)"
proof -
  have heartbeat: "re_keeps (re_ulid env) (modify_state (update_heartbeat now report))"
    by (rule re_keeps_modify) (simp add: re_inv_def update_heartbeat_def Let_def)
  have tracker: "re_keeps (re_ulid env) (modify_state (\<lambda>st. st\<lparr>tracker := f st\<rparr>))" for f
    by (rule re_keeps_modify) (simp add: re_inv_def)
  have routing: "re_keeps (re_ulid env) (update_routing_index env report)"
    by (auto simp: update_routing_index_def Let_def re_keeps_rdb op_ok_done split: EntityQid.splits)
  show ?thesis
    unfolding process_report_def record_status_def Let_def
    by (intro op_ok_seq [OF re_keeps_status] op_ok_seq [OF apply_outcome_keeps [OF assms]] op_ok_seq [OF re_keeps_list]
        op_ok_seq [OF re_keeps_summary(1)] op_ok_seq [OF heartbeat] op_ok_seq [OF routing])
      (simp add: op_ok_done op_ok_seq [OF re_keeps_summary(2) tracker])
qed

lemma try_open_keeps:
  assumes "ulid_unique (re_ulid env)"
  shows "re_keeps (re_ulid env) (try_open_watchdog_incident env e now)"
proof -
  have outcome: "op_ok (\<lambda>st. re_inv (re_ulid env) st \<and> (case out of
       Opened inc \<Rightarrow> re_drawn (re_ulid env) st (inc_id inc) \<and> unpublished st (inc_id inc)
     | AlreadyOpen j \<Rightarrow> re_drawn (re_ulid env) st j))
    (case out of
       Opened inc \<Rightarrow> seq (on_nq (nq_enqueue (nq_net env) (nq_encode env) (opened_request e SystemError inc))) (\<lambda>_. done_with WOpened)
     | AlreadyOpen _ \<Rightarrow> done_with WAlreadyOpen) (\<lambda>_. re_inv (re_ulid env)) (re_inv (re_ulid env))" for out
    by (cases out) (auto intro: op_ok_seq [OF op_ok_weaken [OF publish_opened] op_ok_done] op_ok_done)
  show ?thesis
    unfolding try_open_watchdog_incident_def opened_request_def [symmetric]
    by (rule op_ok_cases_option) (auto intro: op_ok_done op_ok_seq [OF re_open [OF assms] outcome])
qed

lemma sweep_keeps:
  assumes "ulid_unique (re_ulid env)" "re_inv (re_ulid env) st"
  shows "re_inv (re_ulid env) (snd (sweep env cadence order now st))"
proof -
  let ?mark = "\<lambda>e out. case out of
        WSkipped \<Rightarrow> done_with ()
      | _ \<Rightarrow> modify_state (\<lambda>st. st\<lparr>heartbeats := mark_watchdog_open e (heartbeats st)\<rparr>)"
  have mark: "re_keeps (re_ulid env) (?mark e out)" for e out
    by (cases out) (auto intro!: op_ok_done re_keeps_modify simp: re_inv_def)
  have "re_keeps (re_ulid env) (sweep_entry env cadence now x)" for x
    by (cases x) (simp add: sweep_entry_def op_ok_done op_ok_seq [OF try_open_keeps [OF assms(1)] mark])
  then have "re_keeps (re_ulid env) (seq_list (sweep_entry env cadence now) xs)" for xs
    by (rule op_ok_seq_list)
  from op_ok_state [OF this assms(2)] show ?thesis by (simp add: sweep_def)
qed

section \<open>Runs of a worker\<close>

text \<open>
  A worker takes a step for every delivery and for every tick of the watchdog. Between steps the
  networks, the encoder and the rules may change; the ULID source stays the same.
\<close>

definition initial_re :: ReState where
  "initial_re = \<lparr>re_sdb = \<lparr>executed = 0, tables = empty_sdb\<rparr>, re_nq = \<lparr>executed = 0, tables = []\<rparr>,
    re_rdb = \<lparr>executed = 0, tables = empty_rdb\<rparr>, tracker = Map.empty, heartbeats = Map.empty\<rparr>"

datatype ('e, 'v) ReInput =
    Delivery ReEnv int "'e + 'v Report option" "Settlement \<Rightarrow> 'e option"
  | Tick ReEnv CadenceConfig "string list" int

fun input_env :: "('e, 'v) ReInput \<Rightarrow> ReEnv" where
  "input_env (Delivery env _ _ _) = env"
| "input_env (Tick env _ _ _) = env"

fun re_step :: "('e, 'v) ReInput \<Rightarrow> ReState \<Rightarrow> ReState" where
  "re_step (Delivery env now delivered broker) st = snd (worker_loop_iteration env now delivered broker st)"
| "re_step (Tick env cadence order now) st = snd (sweep env cadence order now st)"

definition re_run :: "('e, 'v) ReInput list \<Rightarrow> ReState" where
  "re_run inputs = fold re_step inputs initial_re"

definition one_ulid_source :: "ulid_source \<Rightarrow> ('e, 'v) ReInput list \<Rightarrow> bool" where
  "one_ulid_source ulid inputs \<longleftrightarrow> list_all (\<lambda>x. re_ulid (input_env x) = ulid) inputs"

lemma re_inv_initial: "re_inv ulid initial_re"
  by (auto simp: re_inv_def initial_re_def nq_inv_def empty_sdb_def intro!: sdb_invI)

lemma re_step_keeps:
  assumes "ulid_unique (re_ulid (input_env x))" "re_inv (re_ulid (input_env x)) st"
  shows "re_inv (re_ulid (input_env x)) (re_step x st)"
proof (cases x)
  case (Delivery env now delivered broker)
  have "re_inv (re_ulid env) (snd (process_report env now r st))" for r :: "'b Report"
    using op_ok_state [OF process_report_keeps, of env st now r] assms Delivery by simp
  then show ?thesis
    using Delivery assms(2)
    by (auto simp: worker_loop_iteration_def Let_def split_beta split: sum.splits option.splits)
next
  case (Tick env cadence order now)
  then show ?thesis using sweep_keeps [of env st] assms by simp
qed

lemma re_run_inv:
  assumes "ulid_unique ulid" "one_ulid_source ulid inputs"
  shows "re_inv ulid (re_run inputs)"
proof -
  have "re_inv ulid st \<Longrightarrow> one_ulid_source ulid inputs \<Longrightarrow> re_inv ulid (fold re_step inputs st)" for st
    using assms(1) by (induction inputs arbitrary: st) (auto simp: one_ulid_source_def dest!: re_step_keeps)
  with assms(2) show ?thesis by (simp add: re_run_def re_inv_initial)
qed

text \<open>
  C3. Whatever a worker receives, whenever its watchdog ticks and whichever statements and
  publishes fail on the way, the notification queue never holds two requests with one idempotency
  key, and it holds a closing only for an incident that has left every open slot.
\<close>

theorem notifications_are_unique:
  assumes "ulid_unique ulid" "one_ulid_source ulid inputs"
  shows "distinct (map idempotency_key (tables (re_nq (re_run inputs)))) \<and>
    (\<forall>r\<in>set (tables (re_nq (re_run inputs))). nr_event_type r = NClosed \<longrightarrow>
      (\<forall>e c. get_row c (open_slots (tables (re_sdb (re_run inputs))) e) \<noteq> Some (IncidentId (nr_incident_id r))))"
  using re_run_inv [OF assms] by (auto simp: re_inv_def nq_inv_def slot_set_def)

definition example_re :: "network \<Rightarrow> ReEnv" where
  "example_re net = \<lparr>sdb_net = up, nq_net = net, rdb_net = up, re_ulid = example_ulid,
    nq_encode = \<lambda>_. Inr [], thresholds = ThresholdConfig_default\<rparr>"

definition example_report :: "int \<Rightarrow> Outcome \<Rightarrow> string Report" where
  "example_report at out = \<lparr>entity_qid = EResource (example_res ''a''), timestamp = at, outcome = out,
     metrics = wall_time 5, extension = XResource \<lparr>res_state = OpLive, res_terminal = False, res_volatile = True\<rparr>\<rparr>"

definition example_inputs :: "(unit, string) ReInput list" where
  "example_inputs = map (\<lambda>(t, out). Delivery (example_re up) t (Inr (Some (example_report t out))) (\<lambda>_. None))
     [(0, Failure Crash ''boom''), (1, Failure Crash ''boom''), (2, Success)]"

theorem notifications_are_unique_witness:
  "distinct (map idempotency_key (tables (re_nq (re_run example_inputs))))"
  using notifications_are_unique [OF example_ulid_unique, of example_inputs]
  by (simp add: one_ulid_source_def example_inputs_def example_re_def)

end
