(* ===== verification/Re_Outcomes.thy ===== *)
theory Re_Outcomes
  imports Re_Notifications
begin

text \<open>
  What a report does when the databases and the broker answer: a success closes every open
  incident of its entity and publishes each closing. And what an interrupted opening leaves behind.
\<close>

section \<open>Operations that succeed\<close>

lemma on_sdb_up: "m (re_sdb st) = (Inr x, d) \<Longrightarrow> on_sdb m st = (Inr x, st\<lparr>re_sdb := d\<rparr>)"
  by (simp add: on_sdb_Inr)

lemma seq_Inr_step: "m st = (Inr x, st') \<Longrightarrow> seq m k st = k x st'"
  by (simp add: seq_def)

lemma seq_Inl_step: "m st = (Inl e, st') \<Longrightarrow> seq m k st = (Inl e, st')"
  by (simp add: seq_def)

definition readable :: "SdbTables \<Rightarrow> string \<Rightarrow> IncidentId \<Rightarrow> bool" where
  "readable t q i \<longleftrightarrow> (case get_row i (incidents t q) of
     None \<Rightarrow> False
   | Some row \<Rightarrow> (case row_incident SdbMaybeFirstRow i row of Inl _ \<Rightarrow> False | Inr _ \<Rightarrow> True))"

lemma row_incident_stamped:
  assumes "row_incident err i row = Inr inc"
  shows "\<exists>inc'. row_incident err i (row\<lparr>ir_closed_at := Some at, ir_last_report_at := Some last_at,
      ir_report_count := Some n\<rparr>) = Inr inc' \<and> inc_id inc' = i \<and> inc_closed_at inc' = Some at"
  using assms by (auto simp: row_incident_def split: option.splits sum.splits)

definition closed_up :: "string \<Rightarrow> string \<Rightarrow> IncidentCategory \<Rightarrow> SdbTables \<Rightarrow> SdbTables \<Rightarrow> bool" where
  "closed_up e q c t t' \<longleftrightarrow>
    open_slots t' = (open_slots t)(e := delete_row (category_as_str c) (open_slots t e)) \<and>
    summaries t' = summaries t \<and> (\<forall>j. readable t q j \<longrightarrow> readable t' q j)"

lemma close_incident_up:
  assumes "get_row (category_as_str c) (open_slots (tables d) e) = Some i" "readable (tables d) q i"
  shows "\<exists>inc d'. close_incident up e q c at last_at n d = (Inr (Closed inc), d') \<and>
    inc_id inc = i \<and> inc_closed_at inc = Some at \<and> closed_up e q c (tables d) (tables d')"
proof -
  let ?f = "\<lambda>r. r\<lparr>ir_closed_at := Some at, ir_last_report_at := Some last_at, ir_report_count := Some (i64_saturate n)\<rparr>"
  let ?t = "update_incident q i ?f (release_open_slot e (category_as_str c) (tables d))"
  from assms(2) obtain row inc where row: "get_row i (incidents (tables d) q) = Some row"
    "row_incident SdbMaybeFirstRow i row = Inr inc"
    by (auto simp: readable_def split: option.splits sum.splits)
  from row_incident_stamped [OF row(2)] obtain inc' where inc':
    "row_incident SdbMaybeFirstRow i (?f row) = Inr inc'" "inc_id inc' = i" "inc_closed_at inc' = Some at"
    by blast
  have t: "open_slots ?t = (open_slots (tables d))(e := delete_row (category_as_str c) (open_slots (tables d) e))"
    "summaries ?t = summaries (tables d)"
    by (simp_all add: update_incident_def release_open_slot_def put_incident_def)
  have rows: "get_row j (incidents ?t q) = (if j = i then Some (?f row) else get_row j (incidents (tables d) q))" for j
    using row(1) by (simp add: update_incident_def incident_row_put release_open_slot_def)
  have "closed_up e q c (tables d) ?t"
    unfolding closed_up_def using t rows inc'(1) by (simp add: readable_def)
  moreover have "close_incident up e q c at last_at n d = (Inr (Closed inc'), \<lparr>executed = executed d + 4, tables = ?t\<rparr>)"
    using assms(1) rows [of i] inc'(1)
    by (simp add: close_incident_def incident_in_env_def seq_def of_result_def done_with_def)
  ultimately show ?thesis using inc'(2,3) by auto
qed

text \<open>The networks of a worker all answer and every request can be encoded.\<close>

definition all_up :: "ReEnv \<Rightarrow> bool" where
  "all_up env \<longleftrightarrow> sdb_net env = up \<and> nq_net env = up \<and> rdb_net env = up \<and> (\<forall>r. \<exists>b. nq_encode env r = Inr b)"

lemma publish_up:
  assumes "all_up env"
  shows "on_nq (nq_enqueue (nq_net env) (nq_encode env) r) st =
    (Inr (), st\<lparr>re_nq := \<lparr>executed = Suc (executed (re_nq st)), tables = tables (re_nq st) @ [r]\<rparr>\<rparr>)"
proof -
  from assms obtain b where "nq_encode env r = Inr b" "nq_net env = up" by (auto simp: all_up_def)
  then show ?thesis by (simp add: on_nq_def nq_enqueue_def lift_op_def map_err_def)
qed

lemma incident_in_env_up:
  "tables (snd (incident_in_env up q i d)) = tables d"
  by (auto simp: incident_in_env_def seq_def of_result_def done_with_def fail_with_def split: option.splits sum.splits)

lemma running_count_up:
  assumes "sdb_net env = up"
  shows "\<exists>n d. running_count_for env e q c st = (Inr n, st\<lparr>re_sdb := d\<rparr>) \<and> tables d = tables (re_sdb st)"
proof -
  let ?d = "\<lparr>executed = Suc (executed (re_sdb st)), tables = tables (re_sdb st)\<rparr>"
  let ?found = "get_row (category_as_str c) (open_slots (tables (re_sdb st)) e)"
  let ?look = "incident_in_env up q (the ?found) ?d"
  have "tables (snd ?look) = tables (re_sdb st)" by (simp add: incident_in_env_up)
  then show ?thesis
    by (cases ?found; cases ?look; cases "fst ?look")
      (auto simp: running_count_for_def assms find_open_incident_id_def on_sdb_def map_err_def lift_op_def split: option.splits)
qed

lemma close_one_up:
  assumes "all_up env" "get_row (category_as_str c) (open_slots (tables (re_sdb st)) e) = Some i"
    "readable (tables (re_sdb st)) q i"
  shows "\<exists>inc d k. close_one env e q at c st =
      (Inr (), st\<lparr>re_sdb := d, re_nq := \<lparr>executed = k, tables = tables (re_nq st) @ [closed_request e c inc]\<rparr>\<rparr>) \<and>
    inc_id inc = i \<and> inc_closed_at inc = Some at \<and> closed_up e q c (tables (re_sdb st)) (tables d)"
proof -
  have net: "sdb_net env = up" using assms(1) by (simp add: all_up_def)
  from running_count_up [OF net] obtain n d where
    n: "running_count_for env e q c st = (Inr n, st\<lparr>re_sdb := d\<rparr>)" "tables d = tables (re_sdb st)" by blast
  from close_incident_up [of c d e i q at at n] assms(2,3) n(2) obtain inc d' where
    close: "close_incident up e q c at at n d = (Inr (Closed inc), d')" and
    inc: "inc_id inc = i" "inc_closed_at inc = Some at" "closed_up e q c (tables (re_sdb st)) (tables d')"
    by auto
  have "on_sdb (close_incident up e q c at at n) (st\<lparr>re_sdb := d\<rparr>) = (Inr (Closed inc), st\<lparr>re_sdb := d'\<rparr>)"
    using on_sdb_up [of _ "st\<lparr>re_sdb := d\<rparr>"] close by simp
  then have "close_one env e q at c st = (Inr (), st\<lparr>re_sdb := d',
      re_nq := \<lparr>executed = Suc (executed (re_nq st)), tables = tables (re_nq st) @ [closed_request e c inc]\<rparr>\<rparr>)"
    by (simp add: close_one_def net publish_up [OF assms(1)] seq_def n(1))
  with inc show ?thesis by blast
qed

section \<open>A success closes everything\<close>

definition entity_intact :: "SdbTables \<Rightarrow> string \<Rightarrow> string \<Rightarrow> bool" where
  "entity_intact t q e \<longleftrightarrow> distinct (map fst (open_slots t e)) \<and> list_all (\<lambda>(k, i). readable t q i) (open_slots t e)"

definition closing :: "string \<Rightarrow> int \<Rightarrow> NotificationRequest \<Rightarrow> IncidentCategory \<times> IncidentId \<Rightarrow> bool" where
  "closing e at r = (\<lambda>(c, i). nr_event_type r = NClosed \<and> nr_entity_qid r = e \<and> nr_category r = c \<and>
    nr_incident_id r = ulid_str i \<and> nr_closed_at r = Some at)"

lemma close_all_up:
  assumes "all_up env" "parse_slots (open_slots (tables (re_sdb st)) e) = Inr slots" "entity_intact (tables (re_sdb st)) q e"
  shows "\<exists>rs d k. seq_list (\<lambda>(c, i). close_one env e q at c) slots st =
      (Inr (), st\<lparr>re_sdb := d, re_nq := \<lparr>executed = k, tables = tables (re_nq st) @ rs\<rparr>\<rparr>) \<and>
    list_all2 (closing e at) rs slots \<and> open_slots (tables d) = (open_slots (tables (re_sdb st)))(e := []) \<and>
    summaries (tables d) = summaries (tables (re_sdb st))"
  using assms(2,3)
proof (induction slots arbitrary: st)
  case Nil
  then have "open_slots (tables (re_sdb st)) e = []"
    by (cases "open_slots (tables (re_sdb st)) e") (auto split: sum.splits)
  then show ?case
    by (intro exI [of _ "[]"] exI [of _ "re_sdb st"] exI [of _ "executed (re_nq st)"])
      (auto simp: done_with_def fun_upd_idem)
next
  case (Cons x slots)
  obtain c i where x: "x = (c, i)" by (cases x)
  let ?t = "tables (re_sdb st)"
  from Cons.prems(1) x obtain rows where rows: "open_slots ?t e = (category_as_str c, i) # rows" "parse_slots rows = Inr slots"
    by (cases "open_slots ?t e") (auto simp: category_codec.parse_Inr_iff split: sum.splits)
  have "readable ?t q i" using Cons.prems(2) rows(1) by (simp add: entity_intact_def)
  then obtain inc d k where one: "close_one env e q at c st =
      (Inr (), st\<lparr>re_sdb := d, re_nq := \<lparr>executed = k, tables = tables (re_nq st) @ [closed_request e c inc]\<rparr>\<rparr>)"
    and inc: "inc_id inc = i" "inc_closed_at inc = Some at" and up: "closed_up e q c ?t (tables d)"
    using close_one_up [OF assms(1), of c st e i q at] rows(1) by auto
  let ?st = "st\<lparr>re_sdb := d, re_nq := \<lparr>executed = k, tables = tables (re_nq st) @ [closed_request e c inc]\<rparr>\<rparr>"
  have left: "open_slots (tables d) e = rows"
    using up rows(1) Cons.prems(2)
    by (auto simp: closed_up_def delete_row_def entity_intact_def filter_id_conv image_iff)
  then have "entity_intact (tables (re_sdb ?st)) q e" "parse_slots (open_slots (tables (re_sdb ?st)) e) = Inr slots"
    using up rows Cons.prems(2) by (auto simp: entity_intact_def closed_up_def list_all_iff)
  from Cons.IH [OF this(2,1)] obtain rs d' k' where rest: "seq_list (\<lambda>(c, i). close_one env e q at c) slots ?st =
      (Inr (), ?st\<lparr>re_sdb := d', re_nq := \<lparr>executed = k', tables = tables (re_nq ?st) @ rs\<rparr>\<rparr>)"
    "list_all2 (closing e at) rs slots" "open_slots (tables d') = (open_slots (tables (re_sdb ?st)))(e := [])"
    "summaries (tables d') = summaries (tables (re_sdb ?st))"
    by blast
  have "closing e at (closed_request e c inc) x" using inc x by (simp add: closing_def closed_request_def)
  moreover have "seq_list (\<lambda>(c, i). close_one env e q at c) (x # slots) st =
      (Inr (), st\<lparr>re_sdb := d', re_nq := \<lparr>executed = k', tables = tables (re_nq st) @ closed_request e c inc # rs\<rparr>\<rparr>)"
    using one rest(1) by (simp add: x seq_def)
  moreover have "open_slots (tables d') = (open_slots ?t)(e := [])" "summaries (tables d') = summaries ?t"
    using rest(3,4) up by (simp_all add: closed_up_def)
  ultimately show ?case using rest(2) by blast
qed

lemma routing_up:
  assumes "all_up env"
  shows "\<exists>r. update_routing_index env report st = (Inr (), st\<lparr>re_rdb := r\<rparr>)"
proof (cases "entity_qid report")
  case (EDeployment q)
  then show ?thesis by (intro exI [of _ "re_rdb st"]) (simp add: update_routing_index_def done_with_def)
next
  case (EResource q)
  with assms show ?thesis
    by (auto simp: update_routing_index_def Let_def all_up_def on_rdb_def map_err_def lift_op_def
        delete_resource_region_def set_resource_region_def done_with_def)
qed

definition success_summary :: "'v Report \<Rightarrow> StatusSummary" where
  "success_summary report = \<lparr>ss_entity_qid = entity_as_string (entity_qid report), ss_last_report_at = timestamp report,
    ss_last_report_succeeded = True, ss_open_incident_count = 0, ss_worst_open_category = None,
    ss_consecutive_failure_count = 0, ss_operational_state = Some (operational_state_str (extension report))\<rparr>"

lemma status_summary_tables: "tables (snd (status_summary up e d)) = tables d"
  by (auto simp: status_summary_def done_with_def fail_with_def split: option.splits sum.splits)

lemma status_up:
  assumes "fst (status_summary up e (re_sdb st)) = Inr prev"
  shows "\<exists>d. on_sdb (status_summary up e) st = (Inr prev, st\<lparr>re_sdb := d\<rparr>) \<and> tables d = tables (re_sdb st)"
  using assms status_summary_tables [of e "re_sdb st"]
  by (cases "status_summary up e (re_sdb st)") (auto simp: on_sdb_up)

lemma list_open_up:
  assumes "parse_slots (open_slots (tables (re_sdb st)) e) = Inr slots"
  shows "\<exists>d. on_sdb (list_open_incidents_for_entity up e) st = (Inr slots, st\<lparr>re_sdb := d\<rparr>) \<and> tables d = tables (re_sdb st)"
  using assms
  by (intro exI [of _ "\<lparr>executed = Suc (executed (re_sdb st)), tables = tables (re_sdb st)\<rparr>"])
    (simp add: on_sdb_up list_open_incidents_for_entity_def of_result_def done_with_def)

text \<open>The effect of a success on the registry, the queue and the tracker, before the summary is written.\<close>

lemma apply_success_up:
  fixes report :: "'v Report"
  defines "e \<equiv> entity_as_string (entity_qid report)"
  assumes "all_up env" "outcome report = Success" "parse_slots (open_slots (tables (re_sdb st)) e) = Inr slots"
    "entity_intact (tables (re_sdb st)) (env_qid_string (entity_qid report)) e"
  shows "\<exists>rs d k. apply_outcome env now report st =
      (Inr (), st\<lparr>re_sdb := d, re_nq := \<lparr>executed = k, tables = tables (re_nq st) @ rs\<rparr>, tracker := forget_entity (tracker st) e\<rparr>) \<and>
    list_all2 (closing e (timestamp report)) rs slots \<and> open_slots (tables d) = (open_slots (tables (re_sdb st)))(e := []) \<and>
    summaries (tables d) = summaries (tables (re_sdb st))"
proof -
  let ?q = "env_qid_string (entity_qid report)" and ?at = "timestamp report"
  have net: "sdb_net env = up" using assms(2) by (simp add: all_up_def)
  from list_open_up [OF assms(4)] obtain d where
    slots: "on_sdb (list_open_incidents_for_entity up e) st = (Inr slots, st\<lparr>re_sdb := d\<rparr>)" "tables d = tables (re_sdb st)" by blast
  from close_all_up [OF assms(2), of "st\<lparr>re_sdb := d\<rparr>" e slots ?q ?at] assms(4,5) slots(2)
  obtain rs d' k where all: "seq_list (\<lambda>(c, i). close_one env e ?q ?at c) slots (st\<lparr>re_sdb := d\<rparr>) =
      (Inr (), st\<lparr>re_sdb := d', re_nq := \<lparr>executed = k, tables = tables (re_nq st) @ rs\<rparr>\<rparr>)"
    "list_all2 (closing e ?at) rs slots" "open_slots (tables d') = (open_slots (tables (re_sdb st)))(e := [])"
    "summaries (tables d') = summaries (tables (re_sdb st))"
    by auto
  have "apply_outcome env now report st =
      (Inr (), st\<lparr>re_sdb := d', re_nq := \<lparr>executed = k, tables = tables (re_nq st) @ rs\<rparr>, tracker := forget_entity (tracker st) e\<rparr>)"
    using slots(1) all(1)
    by (simp add: apply_outcome_def Let_def assms(3) handle_success_def net seq_def modify_state_def flip: e_def)
  with all(2-4) show ?thesis by blast
qed

lemma record_status_up:
  fixes report :: "'v Report"
  defines "e \<equiv> entity_as_string (entity_qid report)"
  assumes "all_up env" "outcome report = Success" "open_slots (tables (re_sdb st)) e = []" "\<forall>c. tracker st (e, c) = None"
  shows "\<exists>st'. record_status env now report prev st = (Inr (), st') \<and> re_nq st' = re_nq st \<and>
    open_slots (tables (re_sdb st')) = open_slots (tables (re_sdb st)) \<and> (\<forall>c. tracker st' (e, c) = None) \<and>
    fst (status_summary up e (re_sdb st')) = Inr (if is_terminal (extension report) then None else Some (success_summary report))"
proof -
  have net: "sdb_net env = up" using assms(2) by (simp add: all_up_def)
  from list_open_up [of st e "[]"] assms(4) obtain d where
    none: "on_sdb (list_open_incidents_for_entity up e) st = (Inr [], st\<lparr>re_sdb := d\<rparr>)" "tables d = tables (re_sdb st)" by auto
  define d4 where "d4 = snd (upsert_status_summary up (success_summary report) d)"
  have upsert: "on_sdb (upsert_status_summary up (success_summary report)) (st\<lparr>re_sdb := d\<rparr>) = (Inr (), st\<lparr>re_sdb := d4\<rparr>)"
    by (simp add: d4_def on_sdb_def lift_op_def map_err_def upsert_status_summary_def)
  let ?st4 = "update_heartbeat now report (st\<lparr>re_sdb := d4\<rparr>)"
  from routing_up [OF assms(2)] obtain r where routing: "update_routing_index env report ?st4 = (Inr (), ?st4\<lparr>re_rdb := r\<rparr>)" by blast
  have run: "record_status env now report prev st =
     (if is_terminal (extension report) then
       seq (on_sdb (delete_status_summary up e)) (\<lambda>_. modify_state (\<lambda>st. st\<lparr>tracker := forget_entity (tracker st) e\<rparr>))
     else done_with ()) (?st4\<lparr>re_rdb := r\<rparr>)"
    using none(1) upsert routing assms(3)
    by (simp add: record_status_def Let_def seq_def modify_state_def net worst_category_def next_failure_count_def
        success_summary_def flip: e_def)
  have d4: "open_slots (tables d4) = open_slots (tables (re_sdb st))"
    "fst (status_summary up e d4) = Inr (Some (success_summary report))"
    using none(2) status_after_upsert [of "success_summary report" d]
    by (simp_all add: i32_max0_def d4_def upsert_status_summary_def success_summary_def flip: e_def)
  have st4: "re_sdb ?st4 = d4" "re_nq ?st4 = re_nq st" "tracker ?st4 = tracker st"
    by (simp_all add: update_heartbeat_def Let_def)
  show ?thesis
    unfolding run
    using d4 st4 assms(5)
    by (auto simp: done_with_def seq_def modify_state_def on_sdb_def lift_op_def map_err_def delete_status_summary_def
        status_summary_def forget_entity_def)
qed

text \<open>
  C16. When nothing fails, a success report closes every open incident of its entity: it publishes
  one closing for each slot, in slot order, empties the entity's slots and no others, forgets the
  entity's recent failures, and leaves a summary with no open incident and no failure in a row,
  or no summary when the report is terminal.
\<close>

theorem success_closes_everything:
  fixes report :: "'v Report"
  assumes "all_up env" "outcome report = Success"
    "fst (status_summary up (entity_as_string (entity_qid report)) (re_sdb st)) = Inr prev"
    "parse_slots (open_slots (tables (re_sdb st)) (entity_as_string (entity_qid report))) = Inr slots"
    "entity_intact (tables (re_sdb st)) (env_qid_string (entity_qid report)) (entity_as_string (entity_qid report))"
  shows "\<exists>st' rs. process_report env now report st = (Inr (), st') \<and>
    tables (re_nq st') = tables (re_nq st) @ rs \<and>
    list_all2 (closing (entity_as_string (entity_qid report)) (timestamp report)) rs slots \<and>
    open_slots (tables (re_sdb st')) = (open_slots (tables (re_sdb st)))(entity_as_string (entity_qid report) := []) \<and>
    (\<forall>c. tracker st' (entity_as_string (entity_qid report), c) = None) \<and>
    fst (status_summary up (entity_as_string (entity_qid report)) (re_sdb st')) =
      Inr (if is_terminal (extension report) then None else Some (success_summary report))"
proof -
  let ?e = "entity_as_string (entity_qid report)"
  have net: "sdb_net env = up" using assms(1) by (simp add: all_up_def)
  from status_up [OF assms(3)] obtain d1 where
    prev: "on_sdb (status_summary up ?e) st = (Inr prev, st\<lparr>re_sdb := d1\<rparr>)" "tables d1 = tables (re_sdb st)" by blast
  from apply_success_up [OF assms(1,2), of "st\<lparr>re_sdb := d1\<rparr>" slots now] assms(4,5) prev(2)
  obtain rs d2 k where applied: "apply_outcome env now report (st\<lparr>re_sdb := d1\<rparr>) =
      (Inr (), st\<lparr>re_sdb := d2, re_nq := \<lparr>executed = k, tables = tables (re_nq st) @ rs\<rparr>, tracker := forget_entity (tracker st) ?e\<rparr>)"
    "list_all2 (closing ?e (timestamp report)) rs slots" "open_slots (tables d2) = (open_slots (tables (re_sdb st)))(?e := [])"
    by auto
  let ?st2 = "st\<lparr>re_sdb := d2, re_nq := \<lparr>executed = k, tables = tables (re_nq st) @ rs\<rparr>, tracker := forget_entity (tracker st) ?e\<rparr>"
  from record_status_up [OF assms(1,2), of ?st2 now prev] applied(3) obtain st' where
    "record_status env now report prev ?st2 = (Inr (), st')" "re_nq st' = re_nq ?st2"
    "open_slots (tables (re_sdb st')) = (open_slots (tables (re_sdb st)))(?e := [])" "\<forall>c. tracker st' (?e, c) = None"
    "fst (status_summary up ?e (re_sdb st')) = Inr (if is_terminal (extension report) then None else Some (success_summary report))"
    by (auto simp: forget_entity_def)
  moreover have "process_report env now report st = record_status env now report prev ?st2"
    using prev(1) applied(1) by (simp add: process_report_def seq_def net)
  ultimately show ?thesis using applied(2) by (intro exI [of _ st'] exI [of _ rs]) simp
qed

definition example_open :: ReState where
  "example_open = initial_re\<lparr>re_sdb := snd (open_incident up example_ulid (entity_as_string (EResource (example_res ''a'')))
     (env_qid_string (EResource (example_res ''a''))) Crash 0 ''boom'' (re_sdb initial_re))\<rparr>"

lemma example_open_tables:
  "tables (re_sdb example_open) = put_incident (env_qid_string (EResource (example_res ''a''))) (example_ulid 0 0)
     (new_row (entity_as_string (EResource (example_res ''a''))) Crash 0 ''boom'')
     (insert_incident_report (example_ulid 0 0) 0 ''boom''
       (snd (claim_open_slot (entity_as_string (EResource (example_res ''a''))) ''CRASH'' (example_ulid 0 0) empty_sdb)))"
  by (simp add: example_open_def initial_re_def open_up_free empty_sdb_def Let_def)

theorem success_closes_everything_witness:
  "\<exists>st' r. process_report (example_re up) 9 (example_report 9 Success) example_open = (Inr (), st') \<and>
    tables (re_nq st') = [r] \<and> nr_event_type r = NClosed \<and> nr_closed_at r = Some 9 \<and>
    open_slots (tables (re_sdb st')) (entity_as_string (EResource (example_res ''a''))) = []"
proof -
  let ?r = "example_report 9 Success"
  have report: "outcome ?r = Success" "entity_qid ?r = EResource (example_res ''a'')" "timestamp ?r = 9"
    by (simp_all add: example_report_def)
  have "fst (status_summary up (entity_as_string (entity_qid ?r)) (re_sdb example_open)) = Inr None"
    by (simp add: status_summary_def example_open_tables put_incident_def insert_incident_report_def claim_open_slot_def
        empty_sdb_def done_with_def)
  moreover have "open_slots (tables (re_sdb example_open)) (entity_as_string (entity_qid ?r)) = [(''CRASH'', example_ulid 0 0)]"
    by (simp add: example_open_tables report put_incident_def insert_incident_report_def claim_open_slot_def empty_sdb_def)
  moreover have "readable (tables (re_sdb example_open)) (env_qid_string (entity_qid ?r)) (example_ulid 0 0)"
    by (simp add: readable_def example_open_tables report incident_row_put row_incident_def new_row_def category_from_str_def)
  moreover have "all_up (example_re up)" by (simp add: all_up_def example_re_def)
  moreover have "category_from_str ''CRASH'' = Inr Crash" by (simp add: category_from_str_def)
  moreover have "tables (re_nq example_open) = []" by (simp add: example_open_def initial_re_def)
  ultimately show ?thesis
    using success_closes_everything [OF _ report(1), of "example_re up" example_open None "[(Crash, example_ulid 0 0)]" 9]
    by (auto simp: entity_intact_def report list_all2_Cons2 closing_def)
qed

section \<open>An interrupted opening\<close>

lemma parse_incidents_stuck:
  "(i, row) \<in> set rows \<Longrightarrow> row_incident SdbNextRow i row = Inl err \<Longrightarrow> \<exists>err'. parse_incidents rows = Inl err'"
proof (induction rows)
  case (Cons r rows)
  obtain j rw where r: "r = (j, rw)" by (cases r)
  show ?case
    by (cases "row_incident SdbNextRow j rw"; cases "parse_incidents rows")
      (use Cons r in \<open>auto\<close>)
qed simp

lemma row_incident_partial: "ir_entity_qid row = None \<Longrightarrow> row_incident err i row = Inl err"
  by (simp add: row_incident_def)

lemma get_row_in_set: "get_row k rows = Some v \<Longrightarrow> (k, v) \<in> set rows"
  by (simp add: get_row_def map_of_SomeD)

lemma listing_stuck:
  assumes "get_row i (incidents (tables d) q) = Some row" "ir_entity_qid row = None"
  shows "\<exists>err. fst (incidents_in_env up q d) = Inl err"
  using parse_incidents_stuck [OF get_row_in_set [OF assms(1)] row_incident_partial [OF assms(2)]]
  by (auto simp: incidents_in_env_def of_result_def fail_with_def)

text \<open>
  C34. An opening that is cut off after it has claimed the slot leaves a slot with no incident. The
  next failure report of that category then updates the missing incident, which creates a row
  without an entity or a category: the report fails although every statement is answered, and
  from then on the incidents of the whole environment cannot be listed, not even after the
  incident is closed.
\<close>

theorem interrupted_opening_breaks_listing:
  assumes "sdb_net env = up" "get_row (category_as_str c) (open_slots (tables (re_sdb st)) e) = Some i"
    "get_row i (incidents (tables (re_sdb st)) q) = None"
  shows "\<exists>st'. handle_failure env e q c msg at now st = (Inl (PSdb SdbMaybeFirstRow), st') \<and>
    (\<exists>err. fst (incidents_in_env up q (re_sdb st')) = Inl err) \<and>
    (\<exists>err. fst (incidents_in_env up q (snd (close_incident up e q c at' last_at n (re_sdb st')))) = Inl err)"
proof -
  define t where "t = tables (re_sdb st)"
  let ?f = "\<lambda>summary r. r\<lparr>ir_last_report_at := Some at, ir_report_count := Some (i64_saturate 1), ir_summary := Some summary\<rparr>"
  define t' where "t' = update_incident q i (?f (compute_summary (map (\<lambda>(at, msg). \<lparr>report_at = at, error_message = msg\<rparr>)
      (incident_reports (insert_incident_report i at msg t) i)))) (insert_incident_report i at msg t)"
  have row: "\<exists>row. get_row i (incidents t' q) = Some row \<and> ir_entity_qid row = None"
    using assms(3)
    by (simp add: t'_def t_def update_incident_def incident_row_put insert_incident_report_def empty_incident_row_def)
  have slot: "get_row (category_as_str c) (open_slots t' e) = Some i"
    using assms(2) by (simp add: t'_def t_def update_incident_def put_incident_def insert_incident_report_def)
  have run: "\<exists>k. handle_failure env e q c msg at now st = (Inl (PSdb SdbMaybeFirstRow), st\<lparr>re_sdb := \<lparr>executed = k, tables = t'\<rparr>\<rparr>)"
    using assms row
    by (auto simp: handle_failure_def append_to_open_def append_failure_to_open_incident_def find_open_incident_id_def
        list_reports_for_incident_def incident_in_env_def seq_def on_sdb_def map_err_def lift_op_def done_with_def
        of_result_def fail_with_def Let_def t'_def t_def row_incident_partial)
  then obtain k where run: "handle_failure env e q c msg at now st = (Inl (PSdb SdbMaybeFirstRow), st\<lparr>re_sdb := \<lparr>executed = k, tables = t'\<rparr>\<rparr>)"
    by blast
  have "\<exists>row. get_row i (incidents (tables (snd (close_incident up e q c at' last_at n \<lparr>executed = k, tables = t'\<rparr>))) q) = Some row \<and>
      ir_entity_qid row = None"
    using slot row by (subst close_up_busy) (auto simp: update_incident_def incident_row_put release_open_slot_def)
  then have "\<exists>err. fst (incidents_in_env up q (snd (close_incident up e q c at' last_at n \<lparr>executed = k, tables = t'\<rparr>))) = Inl err"
    by (elim exE conjE) (rule listing_stuck)
  moreover have "\<exists>err. fst (incidents_in_env up q \<lparr>executed = k, tables = t'\<rparr>) = Inl err"
    using row by (elim exE conjE) (rule listing_stuck, simp_all)
  ultimately show ?thesis using run by simp
qed

theorem interrupted_opening_breaks_listing_witness:
  "\<exists>st st'. fst (on_sdb (open_incident (\<lambda>n. if n = 0 then ExecOk else ExecLost) example_ulid ''e'' ''q'' Crash 0 ''boom'') initial_re)
      = Inl (PSdb SdbExecute) \<and>
    handle_failure (example_re up) ''e'' ''q'' Crash ''boom'' 1 1 st = (Inl (PSdb SdbMaybeFirstRow), st') \<and>
    (\<exists>err. fst (incidents_in_env up ''q'' (re_sdb st')) = Inl err)"
proof -
  let ?net = "\<lambda>n :: nat. if n = 0 then ExecOk else ExecLost"
  let ?run = "on_sdb (open_incident ?net example_ulid ''e'' ''q'' Crash 0 ''boom'') initial_re"
  have run: "fst ?run = Inl (PSdb SdbExecute)" "tables (re_sdb (snd ?run)) = snd (claim_open_slot ''e'' ''CRASH'' (example_ulid 0 0) empty_sdb)"
    by (simp_all add: on_sdb_def map_err_def lift_op_def open_incident_def record_new_incident_def claim_open_slot_def seq_def exec_def
        cql_write_def initial_re_def empty_sdb_def Let_def)
  have "sdb_net (example_re up) = up" by (simp add: example_re_def)
  from interrupted_opening_breaks_listing [OF this, of Crash "snd ?run" "''e''" "example_ulid 0 0" "''q''" "''boom''" 1 1 0 0 0]
  obtain st' where "handle_failure (example_re up) ''e'' ''q'' Crash ''boom'' 1 1 (snd ?run) = (Inl (PSdb SdbMaybeFirstRow), st')"
    "\<exists>err. fst (incidents_in_env up ''q'' (re_sdb st')) = Inl err"
    using run(2) by (auto simp: claim_open_slot_def empty_sdb_def)
  with run(1) show ?thesis by blast
qed

section \<open>The watchdog\<close>

lemma nonce_display_no_colon: "CHR '':'' \<notin> set (DeploymentNonce_display n)"
  by (auto simp: DeploymentNonce_display_def dest: hex_padded_lower lower_hex_no_separator)

lemma DeploymentId_display_no_colon: "DeploymentId_wf d \<Longrightarrow> CHR '':'' \<notin> set (DeploymentId_display d)"
  by (auto simp: DeploymentId_wf_def DeploymentId_display_def is_valid_oid_hex_def list_all_iff
      nonce_display_no_colon byte_class_defs dest: bspec)

lemma contains_str_chars: "CHR '':'' \<notin> set s \<Longrightarrow> \<not> contains_str ''::'' s"
  by (cases "split_once ''::'' s") (auto simp: contains_str_def dest!: split_once_sound)

lemma suffix_after_separator:
  assumes "a @ CHR ''@'' # d = b @ CHR '':'' # n" "CHR '':'' \<notin> set d"
  shows "\<exists>m. n = m @ CHR ''@'' # d"
  using assms by (auto simp: append_eq_append_conv2 append_eq_Cons_conv Cons_eq_append_conv)

definition reads_as_deployment :: "string \<Rightarrow> bool" where
  "reads_as_deployment n \<longleftrightarrow> (\<exists>m d. DeploymentId_wf d \<and> n = m @ ''@'' @ DeploymentId_display d)"

lemma resource_text_as_deployment:
  assumes "ResourceQid_wf q" "rid_name (res_id q) = m @ ''@'' @ DeploymentId_display d" "DeploymentId_wf d"
  shows "\<exists>x. x \<noteq> [] \<and> DeploymentQid_from_str (ResourceQid_display q) =
    Inr \<lparr>dep_env = \<lparr>env_repo = env_repo (res_env q), env_id = EnvironmentId (env_str (env_id (res_env q)) @ x)\<rparr>, dep_id = d\<rparr>"
proof -
  let ?x = "''::'' @ region_str (rid_region (res_id q)) @ '':'' @ rid_typ (res_id q) @ '':'' @ m"
  let ?q = "\<lparr>dep_env = \<lparr>env_repo = env_repo (res_env q), env_id = EnvironmentId (env_str (env_id (res_env q)) @ ?x)\<rparr>, dep_id = d\<rparr>"
  have "DeploymentQid_wf ?q"
    using assms by (simp add: DeploymentQid_wf_def EnvironmentQid_wf_def ResourceQid_wf_def)
  moreover have "DeploymentQid_display ?q = ResourceQid_display q"
    using assms(2) by (simp add: DeploymentQid_display_def ResourceQid_display_def EnvironmentQid_display_def ResourceId_display_def)
  ultimately have "DeploymentQid_from_str (ResourceQid_display q) = Inr ?q"
    using deployment_qid.parse_joined_display [of ?q] by simp
  then show ?thesis by (intro exI [of _ ?x]) simp
qed

text \<open>
  The watchdog derives the environment of an entity from its text. For a resource the answer
  is the resource's environment exactly when its name does not end in \<open>@\<close> and a deployment
  identifier; for such a name the text also reads as a deployment, and the incident is filed
  under an environment that does not exist.
\<close>

theorem watchdog_environment_exact:
  assumes "ResourceQid_wf q"
  shows "env_qid_from_string (ResourceQid_display q) = Some (EnvironmentQid_display (res_env q)) \<longleftrightarrow>
    \<not> reads_as_deployment (rid_name (res_id q))"
proof
  assume exact: "env_qid_from_string (ResourceQid_display q) = Some (EnvironmentQid_display (res_env q))"
  show "\<not> reads_as_deployment (rid_name (res_id q))"
  proof
    assume "reads_as_deployment (rid_name (res_id q))"
    then obtain m d where "DeploymentId_wf d" "rid_name (res_id q) = m @ ''@'' @ DeploymentId_display d"
      unfolding reads_as_deployment_def by blast
    from resource_text_as_deployment [OF assms this(2,1)] exact show False
      by (auto simp: env_qid_from_string_def EnvironmentQid_display_def)
  qed
next
  assume no: "\<not> reads_as_deployment (rid_name (res_id q))"
  have "\<exists>err. DeploymentQid_from_str (ResourceQid_display q) = Inl err"
  proof (rule ccontr)
    assume "\<not> (\<exists>err. DeploymentQid_from_str (ResourceQid_display q) = Inl err)"
    then obtain p where p: "DeploymentQid_from_str (ResourceQid_display q) = Inr p" by (metis sum.exhaust)
    from deployment_qid.parse_joined_sound [OF this]
    have wf: "DeploymentId_wf (dep_id p)" and eq: "DeploymentQid_display p = ResourceQid_display q"
      by (simp_all add: DeploymentQid_wf_def)
    then have "\<exists>m. rid_name (res_id q) = m @ CHR ''@'' # DeploymentId_display (dep_id p)"
      using suffix_after_separator [of "EnvironmentQid_display (dep_env p)" "DeploymentId_display (dep_id p)"
          "EnvironmentQid_display (res_env q) @ ''::'' @ region_str (rid_region (res_id q)) @ '':'' @ rid_typ (res_id q)"]
        DeploymentId_display_no_colon [OF wf]
      by (simp add: DeploymentQid_display_def ResourceQid_display_def ResourceId_display_def)
    with no wf show False by (auto simp: reads_as_deployment_def)
  qed
  then show "env_qid_from_string (ResourceQid_display q) = Some (EnvironmentQid_display (res_env q))"
    using resource_qid.parse_joined_display [OF assms] by (auto simp: env_qid_from_string_def)
qed

theorem watchdog_environment_exact_witness:
  "env_qid_from_string (ResourceQid_display (example_res (''a@'' @ DeploymentId_display (example_did 7)))) \<noteq>
    Some (EnvironmentQid_display example_env)"
proof -
  let ?q = "example_res (''a@'' @ DeploymentId_display (example_did 7))"
  have did: "DeploymentId_wf (example_did 7)"
    by (simp add: DeploymentId_wf_def example_did_def is_valid_oid_hex_def list_all_iff byte_class_defs byte_of_def)
  then have "reads_as_deployment (rid_name (res_id ?q))"
    unfolding reads_as_deployment_def by (intro exI [of _ "''a''"] exI [of _ "example_did 7"]) (simp add: example_res_def example_rid_def)
  moreover have "CHR '':'' \<notin> set (''a@'' @ DeploymentId_display (example_did 7))"
    using DeploymentId_display_no_colon [OF did] by simp
  then have "\<not> contains_str ''::'' (''a@'' @ DeploymentId_display (example_did 7))"
    by (rule contains_str_chars)
  then have "ResourceQid_wf ?q"
    by (simp add: ResourceQid_wf_def EnvironmentQid_wf_def RepoQid_wf_def ResourceId_wf_def example_res_def example_rid_def
        example_env_def is_valid_symbol_def is_valid_region_def byte_class_defs byte_of_def)
  ultimately show ?thesis using watchdog_environment_exact [of ?q] by (simp add: example_res_def)
qed

text \<open>A sweep touches only the entities it finds overdue.\<close>

definition untouched :: "string \<Rightarrow> (string \<times> IncidentId) list \<Rightarrow> HeartbeatEntry option \<Rightarrow> ReState \<Rightarrow> bool" where
  "untouched e rows entry st \<longleftrightarrow> open_slots (tables (re_sdb st)) e = rows \<and> heartbeats st e = entry"

abbreviation leaves :: "string \<Rightarrow> (string \<times> IncidentId) list \<Rightarrow> HeartbeatEntry option \<Rightarrow> (ReState, 'e, 'a) op \<Rightarrow> bool" where
  "leaves e rows entry m \<equiv> op_ok (untouched e rows entry) m (\<lambda>_. untouched e rows entry) (untouched e rows entry)"

lemma open_other:
  assumes "e' \<noteq> e" "open_slots (tables d) e = rows"
  shows "open_slots (tables (snd (open_incident net ulid e' q c at msg d))) e = rows"
proof -
  let ?I = "\<lambda>(n :: nat) t. open_slots t e = rows"
  have claim: "op_ok (\<lambda>d. ?I (executed d) (tables d)) (exec net SdbExecute (claim_open_slot e' k i))
      (\<lambda>_ d. ?I (executed d) (tables d)) (\<lambda>d. ?I (executed d) (tables d))" for k i
    using assms(1) by (intro op_ok_exec [where P = ?I]) (auto simp: claim_open_slot_def split: option.splits)
  have "keeps ?I (record_new_incident net i e' q c at msg)" for i
    unfolding record_new_incident_def Let_def
    by (intro keeps_seq keeps_write keeps_done) (auto simp: insert_incident_report_def)
  then have "op_ok (\<lambda>d. ?I (executed d) (tables d))
      (seq (exec net SdbExecute (claim_open_slot e' (category_as_str c) i)) (\<lambda>existing.
     case existing of
       Some existing_id \<Rightarrow> done_with (AlreadyOpen existing_id)
     | None \<Rightarrow> record_new_incident net i e' q c at msg))
      (\<lambda>_ d. ?I (executed d) (tables d)) (\<lambda>d. ?I (executed d) (tables d))" for i
    unfolding keeps_def by (intro op_ok_seq [OF claim] op_ok_cases_option op_ok_done)
  from op_ok_state [OF this assms(2)] show ?thesis by (simp add: open_incident_def Let_def)
qed

lemma leaves_open: "e' \<noteq> e \<Longrightarrow> leaves e rows entry (on_sdb (open_incident net ulid e' q c at msg))"
  by (rule op_ok_by_state) (auto simp: untouched_def on_sdb_state open_other)

lemma leaves_publish: "leaves e rows entry (on_nq m)"
  by (rule op_ok_by_state) (auto simp: untouched_def on_nq_def map_err_def lift_op_def split: prod.splits sum.splits)

lemma leaves_entry:
  assumes "x \<noteq> e \<or> \<not> overdue cadence now hb"
  shows "leaves e rows entry (sweep_entry env cadence now (x, hb))"
proof (cases "overdue cadence now hb")
  case True
  with assms have x: "x \<noteq> e" by simp
  have mark: "leaves e rows entry (modify_state (\<lambda>st. st\<lparr>heartbeats := mark_watchdog_open x (heartbeats st)\<rparr>))"
    using x by (auto simp: op_ok_def modify_state_def untouched_def mark_watchdog_open_def split: option.splits)
  have "leaves e rows entry (try_open_watchdog_incident env x now)"
    unfolding try_open_watchdog_incident_def
    by (intro op_ok_cases_option op_ok_done op_ok_seq [OF leaves_open [OF x]])
      (auto split: OpenIncidentOutcome.splits intro: op_ok_done op_ok_seq [OF leaves_publish])
  then show ?thesis
    by (auto simp: sweep_entry_def op_ok_done mark intro!: op_ok_seq split: WatchdogOutcome.splits)
qed (simp add: sweep_entry_def op_ok_done)

text \<open>
  C18. Whatever fails during a sweep, the watchdog leaves an entity alone, its open incidents and
  its cache entry, unless the entity has a cache entry that is overdue: not marked already, in a state
  with a cadence, and silent for longer than that cadence.
\<close>

theorem watchdog_spares_the_punctual:
  assumes "\<forall>entry. heartbeats st e = Some entry \<longrightarrow> \<not> overdue cadence now entry"
  shows "open_slots (tables (re_sdb (snd (sweep env cadence order now st)))) e = open_slots (tables (re_sdb st)) e \<and>
    heartbeats (snd (sweep env cadence order now st)) e = heartbeats st e"
proof -
  let ?P = "untouched e (open_slots (tables (re_sdb st)) e) (heartbeats st e)"
  have "op_ok ?P (seq_list (sweep_entry env cadence now) xs) (\<lambda>_. ?P) ?P"
    if "\<forall>(x, hb)\<in>set xs. heartbeats st x = Some hb" for xs
    using that
  proof (induction xs)
    case (Cons p xs)
    obtain x hb where p: "p = (x, hb)" by (cases p)
    have "x \<noteq> e \<or> \<not> overdue cadence now hb" using assms Cons.prems p by auto
    from leaves_entry [OF this] have "op_ok ?P (sweep_entry env cadence now p) (\<lambda>_. ?P) ?P" unfolding p .
    then show ?case unfolding seq_list.simps by (rule op_ok_seq) (use Cons in simp)
  qed (simp add: op_ok_done)
  moreover have "\<forall>(x, hb)\<in>set (hb_snapshot order (heartbeats st)). heartbeats st x = Some hb"
    by (auto simp: hb_snapshot_def List.map_filter_def)
  ultimately have "op_ok ?P (seq_list (sweep_entry env cadence now) (hb_snapshot order (heartbeats st))) (\<lambda>_. ?P) ?P" by blast
  from op_ok_state [OF this, of st]
  have "?P (snd (seq_list (sweep_entry env cadence now) (hb_snapshot order (heartbeats st)) st))"
    by (simp add: untouched_def)
  then show ?thesis by (simp add: untouched_def sweep_def)
qed

theorem watchdog_spares_the_punctual_witness:
  "let st = initial_re\<lparr>heartbeats := [''e'' \<mapsto> fresh_heartbeat_entry 0 (Some ''LIVE'') False]\<rparr>
   in heartbeats (snd (sweep (example_re up) CadenceConfig_default [''e''] 1000000000 st)) ''e'' = heartbeats st ''e''"
  unfolding Let_def
  using watchdog_spares_the_punctual [of "initial_re\<lparr>heartbeats := [''e'' \<mapsto> fresh_heartbeat_entry 0 (Some ''LIVE'') False]\<rparr>"
      "''e''" CadenceConfig_default 1000000000 "example_re up" "[''e'']"]
  by (simp add: overdue_def expected_cadence_def fresh_heartbeat_entry_def)

text \<open>What a sweep does to the overdue when nothing fails.\<close>

abbreviation system_slot :: "ReState \<Rightarrow> string \<Rightarrow> IncidentId option" where
  "system_slot st e \<equiv> get_row (category_as_str SystemError) (open_slots (tables (re_sdb st)) e)"

definition due :: "CadenceConfig \<Rightarrow> int \<Rightarrow> string \<times> HeartbeatEntry \<Rightarrow> bool" where
  "due cadence now = (\<lambda>(e, entry). overdue cadence now entry \<and> env_qid_from_string e \<noteq> None)"

lemma try_open_up:
  assumes "all_up env" "env_qid_from_string e = Some q"
  shows "\<exists>out d k rs. try_open_watchdog_incident env e now st =
      (Inr out, st\<lparr>re_sdb := d, re_nq := \<lparr>executed = k, tables = tables (re_nq st) @ rs\<rparr>\<rparr>) \<and> out \<noteq> WSkipped \<and>
    (\<forall>e'. system_slot (st\<lparr>re_sdb := d\<rparr>) e' = (if e' = e \<and> system_slot st e = None
       then Some (re_ulid env now (executed (re_sdb st))) else system_slot st e')) \<and>
    (system_slot st e \<noteq> None \<longrightarrow> rs = [])"
proof (cases "system_slot st e")
  case None
  let ?i = "re_ulid env now (executed (re_sdb st))"
  define t where "t = put_incident q ?i (new_row e SystemError now WATCHDOG_ERROR_MESSAGE)
    (insert_incident_report ?i now WATCHDOG_ERROR_MESSAGE (snd (claim_open_slot e ''SYSTEM_ERROR'' ?i (tables (re_sdb st)))))"
  have net: "sdb_net env = up" using assms(1) by (simp add: all_up_def)
  obtain inc d where opened: "open_incident up (re_ulid env) e q SystemError now WATCHDOG_ERROR_MESSAGE (re_sdb st) = (Inr (Opened inc), d)"
    and d: "tables d = t"
    using None by (auto simp: open_incident_def record_new_incident_def claim_open_slot_def done_with_def new_row_def t_def Let_def)
  have slots: "get_row (category_as_str SystemError) (open_slots t e') = (if e' = e then Some ?i else system_slot st e')" for e'
    using None by (simp add: t_def claim_open_slot_def insert_incident_report_def put_incident_def)
  have "\<exists>k rs. try_open_watchdog_incident env e now st =
      (Inr WOpened, st\<lparr>re_sdb := d, re_nq := \<lparr>executed = k, tables = tables (re_nq st) @ rs\<rparr>\<rparr>)"
    using on_sdb_up [of "open_incident up (re_ulid env) e q SystemError now WATCHDOG_ERROR_MESSAGE" st, OF opened]
    by (auto simp: try_open_watchdog_incident_def assms(2) net seq_def publish_up [OF assms(1)] done_with_def)
  then obtain k rs where "try_open_watchdog_incident env e now st =
      (Inr WOpened, st\<lparr>re_sdb := d, re_nq := \<lparr>executed = k, tables = tables (re_nq st) @ rs\<rparr>\<rparr>)" by blast
  then show ?thesis
    using slots d None by (intro exI [of _ WOpened] exI [of _ d] exI [of _ k] exI [of _ rs]) simp
next
  case (Some j)
  let ?d = "\<lparr>executed = Suc (executed (re_sdb st)), tables = tables (re_sdb st)\<rparr>"
  have net: "sdb_net env = up" using assms(1) by (simp add: all_up_def)
  have "open_incident up (re_ulid env) e q SystemError now WATCHDOG_ERROR_MESSAGE (re_sdb st) = (Inr (AlreadyOpen j), ?d)"
    using Some by (simp add: open_incident_def claim_open_slot_def done_with_def Let_def)
  from on_sdb_up [of "open_incident up (re_ulid env) e q SystemError now WATCHDOG_ERROR_MESSAGE" st, OF this]
  have "try_open_watchdog_incident env e now st =
      (Inr WAlreadyOpen, st\<lparr>re_sdb := ?d, re_nq := \<lparr>executed = executed (re_nq st), tables = tables (re_nq st) @ []\<rparr>\<rparr>)"
    by (simp add: try_open_watchdog_incident_def assms(2) net seq_def done_with_def)
  then show ?thesis
    using Some by (intro exI [of _ WAlreadyOpen] exI [of _ ?d] exI [of _ "executed (re_nq st)"] exI [of _ "[]"]) simp
qed

definition swept :: "(string \<times> HeartbeatEntry \<Rightarrow> bool) \<Rightarrow> (string \<times> HeartbeatEntry) list \<Rightarrow> ReState \<Rightarrow> ReState \<Rightarrow> bool" where
  "swept is_due xs st st' \<longleftrightarrow>
    (\<forall>e. heartbeats st' e = (if \<exists>x\<in>set xs. fst x = e \<and> is_due x
       then map_option (\<lambda>entry. entry\<lparr>hb_watchdog_open := True\<rparr>) (heartbeats st e) else heartbeats st e)) \<and>
    (\<forall>e. (\<exists>x\<in>set xs. fst x = e \<and> is_due x) \<or> system_slot st e \<noteq> None \<longrightarrow> system_slot st' e \<noteq> None) \<and>
    (\<exists>rs. tables (re_nq st') = tables (re_nq st) @ rs) \<and>
    (list_all (\<lambda>x. \<not> is_due x) xs \<longrightarrow> st' = st)"

lemma sweep_entry_up:
  assumes "all_up env"
  shows "\<exists>st'. sweep_entry env cadence now x st = (Inr (), st') \<and> swept (due cadence now) [x] st st'"
proof (cases "due cadence now x")
  case True
  obtain e hb where x: "x = (e, hb)" by (cases x)
  with True obtain q where q: "env_qid_from_string e = Some q" "overdue cadence now hb" by (auto simp: due_def)
  from try_open_up [OF assms q(1), of now st] obtain out d k rs where
    run: "try_open_watchdog_incident env e now st =
      (Inr out, st\<lparr>re_sdb := d, re_nq := \<lparr>executed = k, tables = tables (re_nq st) @ rs\<rparr>\<rparr>)" "out \<noteq> WSkipped"
    and slots: "\<forall>e'. system_slot (st\<lparr>re_sdb := d\<rparr>) e' = (if e' = e \<and> system_slot st e = None
       then Some (re_ulid env now (executed (re_sdb st))) else system_slot st e')"
    by blast
  let ?st = "st\<lparr>re_sdb := d, re_nq := \<lparr>executed = k, tables = tables (re_nq st) @ rs\<rparr>, heartbeats := mark_watchdog_open e (heartbeats st)\<rparr>"
  have "sweep_entry env cadence now x st = (Inr (), ?st)"
    using run q(2) by (cases out) (simp_all add: x sweep_entry_def seq_def modify_state_def)
  moreover have "swept (due cadence now) [x] st ?st"
    using slots True by (auto simp: swept_def x mark_watchdog_open_def split: option.splits)
  ultimately show ?thesis by blast
next
  case False
  then have "sweep_entry env cadence now x st = (Inr (), st)"
    by (cases x) (auto simp: due_def sweep_entry_def try_open_watchdog_incident_def done_with_def seq_def)
  with False show ?thesis by (auto simp: swept_def)
qed

lemma swept_Cons:
  assumes "swept is_due [x] st st1" "swept is_due xs st1 st2"
  shows "swept is_due (x # xs) st st2"
proof -
  let ?mark = "\<lambda>entry. entry\<lparr>hb_watchdog_open := True\<rparr>"
  have twice: "map_option ?mark (map_option ?mark y) = map_option ?mark y" for y by (cases y) simp_all
  show ?thesis
    unfolding swept_def
  proof (intro conjI allI)
    fix e
    show "heartbeats st2 e = (if \<exists>y\<in>set (x # xs). fst y = e \<and> is_due y then map_option ?mark (heartbeats st e) else heartbeats st e)"
      using assms twice [of "heartbeats st e"] by (auto simp: swept_def)
    show "(\<exists>y\<in>set (x # xs). fst y = e \<and> is_due y) \<or> system_slot st e \<noteq> None \<longrightarrow> system_slot st2 e \<noteq> None"
      using assms by (auto simp: swept_def)
  next
    show "\<exists>rs. tables (re_nq st2) = tables (re_nq st) @ rs"
      using assms by (fastforce simp: swept_def)
    show "list_all (\<lambda>x. \<not> is_due x) (x # xs) \<longrightarrow> st2 = st"
      using assms by (auto simp: swept_def)
  qed
qed

lemma sweep_up:
  assumes "all_up env"
  shows "\<exists>st'. sweep env cadence order now st = (Inr (), st') \<and>
    swept (due cadence now) (hb_snapshot order (heartbeats st)) st st'"
proof -
  have "\<exists>st'. seq_list (sweep_entry env cadence now) xs st = (Inr (), st') \<and> swept (due cadence now) xs st st'" for xs
  proof (induction xs arbitrary: st)
    case Nil
    show ?case by (auto simp: done_with_def swept_def)
  next
    case (Cons x xs)
    from sweep_entry_up [OF assms] obtain st1 where
      one: "sweep_entry env cadence now x st = (Inr (), st1)" "swept (due cadence now) [x] st st1" by blast
    with Cons [of st1] obtain st2 where "seq_list (sweep_entry env cadence now) xs st1 = (Inr (), st2)"
      "swept (due cadence now) xs st1 st2" by blast
    with one swept_Cons show ?case by (auto simp: seq_def)
  qed
  then show ?thesis by (simp add: sweep_def)
qed

text \<open>
  C17. When nothing fails, a sweep catches the silent: an entity with an overdue cache entry and a
  readable name ends up with an open \<open>SystemError\<close> incident and a mark in the cache, and a second
  sweep at that moment does nothing at all.
\<close>

theorem watchdog_catches_the_silent:
  assumes "all_up env" "set order = dom (heartbeats st)" "sweep env cadence order now st = (r, st')"
  shows "r = Inr () \<and>
    (\<forall>e entry. heartbeats st e = Some entry \<and> overdue cadence now entry \<and> env_qid_from_string e \<noteq> None \<longrightarrow>
      get_row (category_as_str SystemError) (open_slots (tables (re_sdb st')) e) \<noteq> None \<and>
      heartbeats st' e = Some (entry\<lparr>hb_watchdog_open := True\<rparr>)) \<and>
    sweep env cadence order now st' = (Inr (), st')"
proof -
  have snap: "set (hb_snapshot order m) = {(e, hb). e \<in> set order \<and> m e = Some hb}" for m
    by (force simp: hb_snapshot_def List.map_filter_def)
  from sweep_up [OF assms(1)] assms(3) have r: "r = Inr ()" and
    swept: "swept (due cadence now) (hb_snapshot order (heartbeats st)) st st'" by (metis prod.inject)+
  have caught: "system_slot st' e \<noteq> None \<and> heartbeats st' e = Some (entry\<lparr>hb_watchdog_open := True\<rparr>)"
    if "heartbeats st e = Some entry" "overdue cadence now entry" "env_qid_from_string e \<noteq> None" for e entry
  proof -
    have "\<exists>x\<in>set (hb_snapshot order (heartbeats st)). fst x = e \<and> due cadence now x"
      using that assms(2) by (auto simp: snap due_def)
    with swept that(1) show ?thesis by (auto simp: swept_def)
  qed
  have "\<not> due cadence now x" if "x \<in> set (hb_snapshot order (heartbeats st'))" for x
  proof
    assume x: "due cadence now x"
    obtain e hb where e: "x = (e, hb)" "e \<in> set order" "heartbeats st' e = Some hb" using \<open>x \<in> _\<close> by (auto simp: snap)
    then obtain entry where entry: "heartbeats st e = Some entry" using assms(2) by auto
    show False
    proof (cases "\<exists>y\<in>set (hb_snapshot order (heartbeats st)). fst y = e \<and> due cadence now y")
      case True
      with swept entry e(3) have "hb = entry\<lparr>hb_watchdog_open := True\<rparr>" by (auto simp: swept_def)
      with x e(1) show False by (simp add: due_def overdue_def)
    next
      case False
      with swept entry e(3) have "hb = entry" by (auto simp: swept_def)
      with False x e(1,2) entry show False by (auto simp: snap)
    qed
  qed
  then have "list_all (\<lambda>x. \<not> due cadence now x) (hb_snapshot order (heartbeats st'))" by (simp add: list_all_iff)
  with sweep_up [OF assms(1), of cadence order now st'] have "sweep env cadence order now st' = (Inr (), st')"
    by (auto simp: swept_def)
  with r caught show ?thesis by blast
qed

theorem watchdog_catches_the_silent_witness:
  "\<exists>st'. sweep (example_re up) CadenceConfig_default [DeploymentQid_display example_dep] 1000000000
      (initial_re\<lparr>heartbeats := [DeploymentQid_display example_dep \<mapsto> fresh_heartbeat_entry 0 (Some ''DESIRED'') False]\<rparr>) = (Inr (), st') \<and>
    get_row (category_as_str SystemError) (open_slots (tables (re_sdb st')) (DeploymentQid_display example_dep)) \<noteq> None"
proof -
  let ?e = "DeploymentQid_display example_dep"
  let ?st = "initial_re\<lparr>heartbeats := [?e \<mapsto> fresh_heartbeat_entry 0 (Some ''DESIRED'') False]\<rparr>"
  obtain r st' where run: "sweep (example_re up) CadenceConfig_default [?e] 1000000000 ?st = (r, st')" by fastforce
  have "DeploymentQid_wf example_dep" using example_dep_wf [of 7] by (simp add: example_dep_def)
  from deployment_qid.parse_joined_display [OF this] have "env_qid_from_string ?e \<noteq> None"
    by (simp add: env_qid_from_string_def)
  moreover have "overdue CadenceConfig_default 1000000000 (fresh_heartbeat_entry 0 (Some ''DESIRED'') False)"
    by (simp add: overdue_def expected_cadence_def fresh_heartbeat_entry_def for_state_str_def CadenceConfig_default_def from_secs_def)
  moreover have "all_up (example_re up)" by (simp add: all_up_def example_re_def)
  ultimately show ?thesis
    using watchdog_catches_the_silent [OF _ _ run] run by simp
qed

end
