(* ===== verification/Cdb.thy ===== *)
theory Cdb
  imports Ids Cql "HOL-Library.Char_ord" "HOL-Library.List_Lexorder"
begin

text \<open>
  The configuration database client, \<^verbatim>\<open>crates/cdb/src/client.rs\<close> and
  \<^verbatim>\<open>crates/cdb/src/deployment.rs\<close>: repositories, deployments with their index of active ones, and
  supersessions. A blob column is represented by the lower-case hexadecimal text of its bytes. The
  order in which the database returns the partitions of an \<^verbatim>\<open>IN\<close> query is a parameter.
\<close>

section \<open>Deployments\<close>

datatype DeploymentState = Down | Undesired | Lingering | Desired

record Deployment =
  d_repo :: RepoQid
  d_environment :: EnvironmentId
  d_deployment :: DeploymentId
  d_created_at :: int
  d_state :: DeploymentState
  d_bootstrapped :: bool

definition deployment_qid :: "Deployment \<Rightarrow> DeploymentQid" where
  "deployment_qid d = \<lparr>dep_env = \<lparr>env_repo = d_repo d, env_id = d_environment d\<rparr>, dep_id = d_deployment d\<rparr>"

definition environment_qid :: "Deployment \<Rightarrow> EnvironmentQid" where
  "environment_qid d = \<lparr>env_repo = d_repo d, env_id = d_environment d\<rparr>"

fun is_active :: "DeploymentState \<Rightarrow> bool" where
  "is_active Desired = True"
| "is_active _ = False"

fun state_display :: "DeploymentState \<Rightarrow> string" where
  "state_display Down = ''DOWN''"
| "state_display Undesired = ''UNDESIRED''"
| "state_display Lingering = ''LINGERING''"
| "state_display Desired = ''DESIRED''"

datatype InvalidDeploymentState = InvalidDeploymentState string

definition state_from_str :: "string \<Rightarrow> InvalidDeploymentState + DeploymentState" where
  "state_from_str s =
    (if s = ''DOWN'' then Inr Down
     else if s = ''UNDESIRED'' then Inr Undesired
     else if s = ''LINGERING'' then Inr Lingering
     else if s = ''DESIRED'' then Inr Desired
     else Inl (InvalidDeploymentState s))"

interpretation state_codec: string_codec "\<lambda>_. True" state_display state_from_str
proof unfold_locales
  fix a show "state_from_str (state_display a) = Inr a"
    by (cases a) (simp_all add: state_from_str_def)
next
  fix s a assume "state_from_str s = Inr a"
  then show "True \<and> state_display a = s"
    by (auto simp: state_from_str_def split: if_splits)
qed

section \<open>Errors\<close>

datatype RepositoryQueryError =
    RqScyllaPager | RqScyllaTypeCheck | RqScyllaNextRow | RqInvalidId ParseIdError | RqNotFound

datatype CreateRepositoryError = CrExecute | CrQuery RepositoryQueryError | CrAlreadyExists

datatype DeploymentQueryError =
    DqScyllaPager | DqScyllaExecution | DqScyllaTypeCheck | DqScyllaNextRow | DqScyllaIntoRows | DqScyllaSingleRow
  | DqInvalidState InvalidDeploymentState
  | DqInvalidId ParseIdError
  | DqNotFound

datatype SetDeploymentError = SdExecute | SdQuery DeploymentQueryError

section \<open>Tables\<close>

record DeploymentRow =
  dr_organization :: string
  dr_repository :: string
  dr_environment_id :: string
  dr_commit_hash :: string
  dr_nonce :: "64 word"
  dr_created_at :: int
  dr_state :: string
  dr_bootstrapped :: "bool option"

type_synonym dep_key = "string \<times> string \<times> string \<times> 64 word"

record CdbTables =
  repositories :: "string \<Rightarrow> (string \<times> int) list"
  deployments :: "string \<times> string \<Rightarrow> ((int \<times> string \<times> string \<times> 64 word) \<times> string \<times> bool option) list"
  deployments_by_id :: "string \<rightharpoonup> DeploymentRow"
  active_deployments :: "string \<Rightarrow> (dep_key \<times> string) list"
  supersessions :: "string \<Rightarrow> (dep_key \<times> string \<times> 64 word) list"

definition key_before :: "dep_key \<Rightarrow> dep_key \<Rightarrow> bool" where
  "key_before = (\<lambda>(r, e, c, n) (r', e', c', n').
    r < r' \<or> r = r' \<and> (e < e' \<or> e = e' \<and> (c < c' \<or> c = c' \<and> sint n < sint n')))"

definition created_before :: "int \<times> string \<times> string \<times> 64 word \<Rightarrow> int \<times> string \<times> string \<times> 64 word \<Rightarrow> bool" where
  "created_before = (\<lambda>(t, e, c, n) (t', e', c', n').
    t > t' \<or> t = t' \<and> (e < e' \<or> e = e' \<and> (c < c' \<or> c = c' \<and> sint n < sint n')))"

lemma sint_linear:
  fixes a b :: "64 word"
  assumes "a \<noteq> b" "\<not> sint b < sint a"
  shows "sint a < sint b"
proof -
  have "sint a \<noteq> sint b"
  proof
    assume "sint a = sint b"
    then have "(of_int (sint a) :: 64 word) = of_int (sint b)" by simp
    with assms(1) show False by simp
  qed
  with assms(2) show ?thesis by linarith
qed

interpretation key_before: clustering_order key_before
  by unfold_locales (auto simp: key_before_def intro: sint_linear)

interpretation created_before: clustering_order created_before
  by unfold_locales (auto simp: created_before_def intro: sint_linear)

definition ObjId_from_bytes :: "string \<Rightarrow> ObjId option" where
  "ObjId_from_bytes blob = (if length blob = 40 then Some (ObjId blob) else None)"

definition deployment_from_row :: "DeploymentRow \<Rightarrow> DeploymentQueryError + Deployment" where
  "deployment_from_row row =
    (case ObjId_from_bytes (dr_commit_hash row) of None \<Rightarrow> Inl DqNotFound | Some commit \<Rightarrow>
    (case OrgId_from_str (dr_organization row) of Inl e \<Rightarrow> Inl (DqInvalidId e) | Inr org \<Rightarrow>
    (case RepoId_from_str (dr_repository row) of Inl e \<Rightarrow> Inl (DqInvalidId e) | Inr repo \<Rightarrow>
    (case EnvironmentId_from_str (dr_environment_id row) of Inl e \<Rightarrow> Inl (DqInvalidId e) | Inr env \<Rightarrow>
    (case state_from_str (dr_state row) of Inl e \<Rightarrow> Inl (DqInvalidState e) | Inr state \<Rightarrow>
      Inr \<lparr>d_repo = \<lparr>qid_org = org, qid_repo = repo\<rparr>, d_environment = env,
           d_deployment = \<lparr>did_commit = commit, did_nonce = DeploymentNonce (dr_nonce row)\<rparr>,
           d_created_at = dr_created_at row, d_state = state,
           d_bootstrapped = (case dr_bootstrapped row of None \<Rightarrow> False | Some b \<Rightarrow> b)\<rparr>)))))"

text \<open>Two operations of a \<^verbatim>\<open>join!\<close>: both run, and the first error is reported.\<close>

definition join_ops :: "('s, 'e, unit) op \<Rightarrow> ('s, 'e, unit) op \<Rightarrow> ('s, 'e, unit) op" where
  "join_ops a b s = (let (r, s') = a s; (r', s'') = b s' in (case r of Inl e \<Rightarrow> Inl e | Inr _ \<Rightarrow> r', s''))"

text \<open>\<^verbatim>\<open>.ok()\<close>: an error counts as no value.\<close>

definition ok_op :: "('s, 'e, 'a) op \<Rightarrow> ('s, 'f, 'a option) op" where
  "ok_op m s = (case m s of (Inl _, s') \<Rightarrow> (Inr None, s') | (Inr x, s') \<Rightarrow> (Inr (Some x), s'))"

section \<open>Repositories\<close>

record Repository =
  repo_name :: RepoQid
  repo_created_at :: int

definition repository :: "network \<Rightarrow> RepoQid \<Rightarrow> (CdbTables Db, RepositoryQueryError, Repository) op" where
  "repository net name =
    seq (cql_read net RqScyllaPager (\<lambda>t. get_row (repo_str (qid_repo name)) (repositories t (org_str (qid_org name))))) (\<lambda>row.
    case row of
      None \<Rightarrow> fail_with RqNotFound
    | Some created_at \<Rightarrow> done_with \<lparr>repo_name = name, repo_created_at = created_at\<rparr>)"

definition set_repository :: "network \<Rightarrow> Repository \<Rightarrow> (CdbTables Db, CreateRepositoryError, unit) op" where
  "set_repository net r =
    (let org = org_str (qid_org (repo_name r)) in
     cql_write net CrExecute (\<lambda>t. t\<lparr>repositories := (repositories t)(org :=
       put_row (<) (repo_str (qid_repo (repo_name r))) (repo_created_at r) (repositories t org))\<rparr>))"

definition repositories_by_organization ::
  "network \<Rightarrow> string \<Rightarrow> (CdbTables Db, RepositoryQueryError, (RepositoryQueryError + Repository) list) op" where
  "repositories_by_organization net organization =
    cql_read net RqScyllaPager (\<lambda>t. map (\<lambda>(name, created_at).
      case OrgId_from_str organization of Inl e \<Rightarrow> Inl (RqInvalidId e) | Inr org \<Rightarrow>
      (case RepoId_from_str name of Inl e \<Rightarrow> Inl (RqInvalidId e) | Inr repo \<Rightarrow>
        Inr \<lparr>repo_name = \<lparr>qid_org = org, qid_repo = repo\<rparr>, repo_created_at = created_at\<rparr>)) (repositories t organization))"

definition create_repository :: "network \<Rightarrow> RepoQid \<Rightarrow> int \<Rightarrow> (CdbTables Db, CreateRepositoryError, Repository) op" where
  "create_repository net name now d =
    (case repository net name d of
       (Inr _, d') \<Rightarrow> (Inl CrAlreadyExists, d')
     | (Inl RqNotFound, d') \<Rightarrow>
         seq (set_repository net \<lparr>repo_name = name, repo_created_at = now\<rparr>)
           (\<lambda>_. done_with \<lparr>repo_name = name, repo_created_at = now\<rparr>) d'
     | (Inl e, d') \<Rightarrow> (Inl (CrQuery e), d'))"

section \<open>Reading and writing deployments\<close>

definition find_deployment ::
  "network \<Rightarrow> RepoQid \<Rightarrow> EnvironmentId \<Rightarrow> DeploymentId \<Rightarrow> (CdbTables Db, DeploymentQueryError, Deployment) op" where
  "find_deployment net repo env dep =
    (let qid = DeploymentQid_display \<lparr>dep_env = \<lparr>env_repo = repo, env_id = env\<rparr>, dep_id = dep\<rparr> in
     seq (cql_read net DqScyllaPager (\<lambda>t. deployments_by_id t qid)) (\<lambda>row.
     case row of
       None \<Rightarrow> fail_with DqNotFound
     | Some r \<Rightarrow>
         if dr_organization r \<noteq> org_str (qid_org repo) \<or> dr_repository r \<noteq> repo_str (qid_repo repo)
         then fail_with DqNotFound
         else of_result (deployment_from_row r)))"

definition deployment_key :: "Deployment \<Rightarrow> dep_key" where
  "deployment_key d = (repo_str (qid_repo (d_repo d)), env_str (d_environment d), oid_hex (did_commit (d_deployment d)),
    as_u64 (did_nonce (d_deployment d)))"

definition row_of_deployment :: "Deployment \<Rightarrow> DeploymentRow" where
  "row_of_deployment d =
    \<lparr>dr_organization = org_str (qid_org (d_repo d)), dr_repository = repo_str (qid_repo (d_repo d)),
     dr_environment_id = env_str (d_environment d), dr_commit_hash = oid_hex (did_commit (d_deployment d)),
     dr_nonce = as_u64 (did_nonce (d_deployment d)), dr_created_at = d_created_at d,
     dr_state = state_display (d_state d), dr_bootstrapped = Some (d_bootstrapped d)\<rparr>"

definition set_deployment_stmt :: "Deployment \<Rightarrow> CdbTables \<Rightarrow> CdbTables" where
  "set_deployment_stmt d t =
    (let part = (org_str (qid_org (d_repo d)), repo_str (qid_repo (d_repo d)));
         key = (d_created_at d, env_str (d_environment d), oid_hex (did_commit (d_deployment d)),
                as_u64 (did_nonce (d_deployment d)))
     in t\<lparr>deployments := (deployments t)(part := put_row created_before key
          (state_display (d_state d), Some (d_bootstrapped d)) (deployments t part))\<rparr>)"

definition set_deployment_by_id_stmt :: "Deployment \<Rightarrow> CdbTables \<Rightarrow> CdbTables" where
  "set_deployment_by_id_stmt d t =
    t\<lparr>deployments_by_id := (deployments_by_id t)(DeploymentQid_display (deployment_qid d) \<mapsto> row_of_deployment d)\<rparr>"

definition set_active_stmt :: "Deployment \<Rightarrow> CdbTables \<Rightarrow> CdbTables" where
  "set_active_stmt d t =
    (let org = org_str (qid_org (d_repo d)) in
     t\<lparr>active_deployments := (active_deployments t)(org := put_row key_before (deployment_key d)
       (DeploymentQid_display (deployment_qid d)) (active_deployments t org))\<rparr>)"

definition unset_active_stmt :: "Deployment \<Rightarrow> CdbTables \<Rightarrow> CdbTables" where
  "unset_active_stmt d t =
    (let org = org_str (qid_org (d_repo d)) in
     t\<lparr>active_deployments := (active_deployments t)(org := delete_row (deployment_key d) (active_deployments t org))\<rparr>)"

definition set_deployment :: "network \<Rightarrow> Deployment \<Rightarrow> (CdbTables Db, SetDeploymentError, unit) op" where
  "set_deployment net d =
    join_ops (cql_write net SdExecute (set_deployment_stmt d))
      (join_ops (cql_write net SdExecute (set_deployment_by_id_stmt d))
        (cql_write net SdExecute (if d_state d = Down then unset_active_stmt d else set_active_stmt d)))"

type_synonym arrange = "string list \<Rightarrow> string list"

definition find_deployments_by_qids ::
  "network \<Rightarrow> arrange \<Rightarrow> string list \<Rightarrow> (CdbTables Db, DeploymentQueryError, (DeploymentQueryError + Deployment) list) op" where
  "find_deployments_by_qids net arr qids =
    (if qids = [] then done_with []
     else cql_read net DqScyllaPager (\<lambda>t. map deployment_from_row (List.map_filter (deployments_by_id t) (arr qids))))"

text \<open>Scanning all the partitions visits the organizations in an order the database chooses.\<close>

definition all_active_deployments ::
  "network \<Rightarrow> arrange \<Rightarrow> string list \<Rightarrow> (CdbTables Db, DeploymentQueryError, (DeploymentQueryError + Deployment) list) op" where
  "all_active_deployments net arr orgs =
    seq (cql_read net DqScyllaPager (\<lambda>t. map snd (concat (map (active_deployments t) orgs)))) (find_deployments_by_qids net arr)"

definition active_deployments_of ::
  "network \<Rightarrow> arrange \<Rightarrow> RepoQid \<Rightarrow> (CdbTables Db, DeploymentQueryError, (DeploymentQueryError + Deployment) list) op" where
  "active_deployments_of net arr repo =
    seq (cql_read net DqScyllaPager (\<lambda>t. map snd (filter (\<lambda>(k, _). fst k = repo_str (qid_repo repo))
      (active_deployments t (org_str (qid_org repo)))))) (find_deployments_by_qids net arr)"

definition deployments_of ::
  "network \<Rightarrow> RepoQid \<Rightarrow> (CdbTables Db, DeploymentQueryError, (DeploymentQueryError + Deployment) list) op" where
  "deployments_of net repo =
    (let org = org_str (qid_org repo); name = repo_str (qid_repo repo) in
     cql_read net DqScyllaPager (\<lambda>t. map (\<lambda>((created_at, env, commit, nonce), (state, boot)).
       deployment_from_row \<lparr>dr_organization = org, dr_repository = name, dr_environment_id = env, dr_commit_hash = commit,
         dr_nonce = nonce, dr_created_at = created_at, dr_state = state, dr_bootstrapped = boot\<rparr>) (deployments t (org, name))))"

section \<open>A deployment's client\<close>

text \<open>A client scoped to a deployment is its qualified identifier.\<close>

abbreviation client_repo :: "DeploymentQid \<Rightarrow> RepoQid" where
  "client_repo q \<equiv> env_repo (dep_env q)"

abbreviation client_env :: "DeploymentQid \<Rightarrow> EnvironmentId" where
  "client_env q \<equiv> env_id (dep_env q)"

definition client_key :: "DeploymentQid \<Rightarrow> dep_key" where
  "client_key q = (repo_str (qid_repo (client_repo q)), env_str (client_env q), oid_hex (did_commit (dep_id q)),
    as_u64 (did_nonce (dep_id q)))"

definition dep_get :: "network \<Rightarrow> DeploymentQid \<Rightarrow> (CdbTables Db, DeploymentQueryError, Deployment) op" where
  "dep_get net q = find_deployment net (client_repo q) (client_env q) (dep_id q)"

definition dep_set :: "network \<Rightarrow> DeploymentQid \<Rightarrow> int \<Rightarrow> DeploymentState \<Rightarrow> (CdbTables Db, SetDeploymentError, unit) op" where
  "dep_set net q now state =
    seq (ok_op (dep_get net q)) (\<lambda>prev.
    if map_option d_state prev = Some Down \<and> state = Undesired then done_with ()
    else set_deployment net
      \<lparr>d_repo = client_repo q, d_environment = client_env q, d_deployment = dep_id q,
       d_created_at = (case prev of Some p \<Rightarrow> d_created_at p | None \<Rightarrow> now),
       d_state = state,
       d_bootstrapped = (case prev of Some p \<Rightarrow> d_bootstrapped p | None \<Rightarrow> False)\<rparr>)"

definition set_progress :: "network \<Rightarrow> DeploymentQid \<Rightarrow> bool \<Rightarrow> (CdbTables Db, SetDeploymentError, unit) op" where
  "set_progress net q boot =
    seq (map_err SdQuery (dep_get net q)) (\<lambda>prev. set_deployment net (prev\<lparr>d_bootstrapped := boot\<rparr>))"

definition create_supersession :: "DeploymentQid \<Rightarrow> DeploymentId \<Rightarrow> CdbTables \<Rightarrow> CdbTables" where
  "create_supersession q superseding t =
    (let org = org_str (qid_org (client_repo q)) in
     t\<lparr>supersessions := (supersessions t)(org := put_row key_before (client_key q)
       (oid_hex (did_commit superseding), as_u64 (did_nonce superseding)) (supersessions t org))\<rparr>)"

definition mark_superseded_by ::
  "network \<Rightarrow> DeploymentQid \<Rightarrow> DeploymentId \<Rightarrow> (CdbTables Db, SetDeploymentError, unit) op" where
  "mark_superseded_by net q superseding = cql_write net SdExecute (create_supersession q superseding)"

fun parse_superseded :: "DeploymentQid \<Rightarrow> (string \<times> 64 word) list \<Rightarrow> DeploymentQueryError + DeploymentQid list" where
  "parse_superseded q [] = Inr []"
| "parse_superseded q ((commit, nonce) # rows) =
    (case ObjId_from_bytes commit of
       None \<Rightarrow> Inl DqNotFound
     | Some c \<Rightarrow>
         (case parse_superseded q rows of
            Inl e \<Rightarrow> Inl e
          | Inr qs \<Rightarrow> Inr (q\<lparr>dep_id := \<lparr>did_commit = c, did_nonce = DeploymentNonce nonce\<rparr>\<rparr> # qs)))"

definition superseded :: "network \<Rightarrow> DeploymentQid \<Rightarrow> (CdbTables Db, DeploymentQueryError, DeploymentQid list) op" where
  "superseded net q =
    seq (cql_read net DqScyllaPager (\<lambda>t. map (\<lambda>((r, e, c, n), _). (c, n))
      (filter (\<lambda>((r, e, c, n), by). r = repo_str (qid_repo (client_repo q)) \<and> e = env_str (client_env q) \<and>
          by = (oid_hex (did_commit (dep_id q)), as_u64 (did_nonce (dep_id q))))
        (supersessions t (org_str (qid_org (client_repo q))))))) (\<lambda>rows. of_result (parse_superseded q rows))"

definition get_superseding :: "network \<Rightarrow> DeploymentQid \<Rightarrow> (CdbTables Db, DeploymentQueryError, DeploymentQid option) op" where
  "get_superseding net q =
    seq (cql_read net DqScyllaExecution (\<lambda>t. get_row (client_key q) (supersessions t (org_str (qid_org (client_repo q)))))) (\<lambda>row.
    done_with (case row of
       None \<Rightarrow> None
     | Some (commit, nonce) \<Rightarrow> map_option (\<lambda>c. q\<lparr>dep_id := \<lparr>did_commit = c, did_nonce = DeploymentNonce nonce\<rparr>\<rparr>) (ObjId_from_bytes commit)))"

text \<open>A stream of rows is consumed up to the first error.\<close>

fun collect_rows :: "('e + 'a) list \<Rightarrow> 'e + 'a list" where
  "collect_rows [] = Inr []"
| "collect_rows (Inl e # _) = Inl e"
| "collect_rows (Inr x # rows) = (case collect_rows rows of Inl e \<Rightarrow> Inl e | Inr xs \<Rightarrow> Inr (x # xs))"

definition supersede :: "network \<Rightarrow> DeploymentQid \<Rightarrow> int \<Rightarrow> Deployment \<Rightarrow> (CdbTables Db, SetDeploymentError, unit) op" where
  "supersede net q now dep =
    (let predecessor = \<lparr>dep_env = \<lparr>env_repo = client_repo q, env_id = d_environment dep\<rparr>, dep_id = d_deployment dep\<rparr> in
     join_ops (dep_set net predecessor now Lingering) (mark_superseded_by net predecessor (dep_id q)))"

definition predecessors :: "network \<Rightarrow> arrange \<Rightarrow> DeploymentQid \<Rightarrow> (CdbTables Db, SetDeploymentError, Deployment list) op" where
  "predecessors net arr q =
    seq (map_err SdQuery (active_deployments_of net arr (client_repo q))) (\<lambda>rows.
    seq (map_err SdQuery (of_result (collect_rows rows))) (\<lambda>deps.
    done_with (filter (\<lambda>dep. d_environment dep = client_env q \<and> d_deployment dep \<noteq> dep_id q \<and> is_active (d_state dep)) deps)))"

definition promote :: "network \<Rightarrow> DeploymentQid \<Rightarrow> int \<Rightarrow> Deployment list \<Rightarrow> (CdbTables Db, SetDeploymentError, unit) op" where
  "promote net q now active =
    seq (seq_list (supersede net q now) active) (\<lambda>_. dep_set net q now Desired)"

definition make_desired :: "network \<Rightarrow> arrange \<Rightarrow> DeploymentQid \<Rightarrow> int \<Rightarrow> (CdbTables Db, SetDeploymentError, unit) op" where
  "make_desired net arr q now = seq (predecessors net arr q) (promote net q now)"

fun first_unsuperseded ::
  "network \<Rightarrow> RepoQid \<Rightarrow> Deployment list \<Rightarrow> (CdbTables Db, DeploymentQueryError, Deployment option) op" where
  "first_unsuperseded net repo [] = done_with None"
| "first_unsuperseded net repo (dep # deps) =
    seq (get_superseding net \<lparr>dep_env = \<lparr>env_repo = repo, env_id = d_environment dep\<rparr>, dep_id = d_deployment dep\<rparr>) (\<lambda>by.
    if by = None then done_with (Some dep) else first_unsuperseded net repo deps)"

definition current_deployment ::
  "network \<Rightarrow> arrange \<Rightarrow> RepoQid \<Rightarrow> EnvironmentId \<Rightarrow> (CdbTables Db, DeploymentQueryError, Deployment option) op" where
  "current_deployment net arr repo env =
    seq (active_deployments_of net arr repo) (\<lambda>rows.
    seq (of_result (collect_rows rows)) (\<lambda>deps.
    first_unsuperseded net repo (filter (\<lambda>dep. d_environment dep = env) deps)))"

end
