(* ===== verification/Cdb_Registry.thy ===== *)
theory Cdb_Registry
  imports Cdb "HOL-Library.Multiset"
begin

text \<open>
  The deployment tables as a registry: a map from deployment identifiers to deployments and a map
  that says which deployment superseded which. The client's operations refine operations on the
  two maps.
\<close>

section \<open>The abstraction\<close>

record Registry =
  deps :: "DeploymentQid \<rightharpoonup> Deployment"
  superseder :: "DeploymentQid \<rightharpoonup> DeploymentId"

abbreviation qid_org_str :: "DeploymentQid \<Rightarrow> string" where
  "qid_org_str q \<equiv> org_str (qid_org (client_repo q))"

definition id_columns :: "DeploymentId \<Rightarrow> string \<times> 64 word" where
  "id_columns i = (oid_hex (did_commit i), as_u64 (did_nonce i))"

definition by_id_ok :: "(DeploymentQid \<rightharpoonup> Deployment) \<Rightarrow> CdbTables \<Rightarrow> bool" where
  "by_id_ok D t \<longleftrightarrow> (\<forall>q dep. D q = Some dep \<longrightarrow> deployment_qid dep = q \<and> DeploymentQid_wf q) \<and>
    (\<forall>q. DeploymentQid_wf q \<longrightarrow> deployments_by_id t (DeploymentQid_display q) = map_option row_of_deployment (D q))"

definition active_ok :: "(DeploymentQid \<rightharpoonup> Deployment) \<Rightarrow> CdbTables \<Rightarrow> bool" where
  "active_ok D t \<longleftrightarrow> (\<forall>org. clustered key_before (active_deployments t org) \<and>
    (\<forall>k s. (k, s) \<in> set (active_deployments t org) \<longleftrightarrow>
      (\<exists>q dep. D q = Some dep \<and> d_state dep \<noteq> Down \<and> org = qid_org_str q \<and> k = client_key q \<and> s = DeploymentQid_display q)))"

definition superseder_ok :: "(DeploymentQid \<rightharpoonup> DeploymentId) \<Rightarrow> CdbTables \<Rightarrow> bool" where
  "superseder_ok S t \<longleftrightarrow> (\<forall>q i. S q = Some i \<longrightarrow> DeploymentQid_wf q \<and> DeploymentId_wf i) \<and>
    (\<forall>org. clustered key_before (supersessions t org) \<and>
      (\<forall>k\<in>fst ` set (supersessions t org). \<exists>q. DeploymentQid_wf q \<and> org = qid_org_str q \<and> k = client_key q)) \<and>
    (\<forall>q. DeploymentQid_wf q \<longrightarrow> get_row (client_key q) (supersessions t (qid_org_str q)) = map_option id_columns (S q))"

definition represents :: "Registry \<Rightarrow> CdbTables \<Rightarrow> bool" where
  "represents r t \<longleftrightarrow> by_id_ok (deps r) t \<and> active_ok (deps r) t \<and> superseder_ok (superseder r) t"

section \<open>Identifiers\<close>

lemma DeploymentQid_display_inj: "DeploymentQid_wf p \<Longrightarrow> DeploymentQid_wf q \<Longrightarrow> DeploymentQid_display p = DeploymentQid_display q \<longleftrightarrow> p = q"
  using deployment_qid.parse_joined_display by (metis sum.inject(2))

lemma id_columns_inj: "id_columns i = id_columns j \<longleftrightarrow> i = j"
  by (cases i; cases j) (auto simp: id_columns_def ObjId.expand DeploymentNonce.expand)

lemma client_key_inj: "client_key p = client_key q \<Longrightarrow> qid_org_str p = qid_org_str q \<Longrightarrow> p = q"
proof -
  assume a: "client_key p = client_key q" "qid_org_str p = qid_org_str q"
  then have "dep_id p = dep_id q" using id_columns_inj [of "dep_id p" "dep_id q"] by (simp add: client_key_def id_columns_def)
  moreover have "client_env p = client_env q" using a by (simp add: client_key_def EnvironmentId.expand)
  moreover have "client_repo p = client_repo q"
    using a by (cases "client_repo p"; cases "client_repo q") (auto simp: client_key_def OrgId.expand RepoId.expand)
  ultimately show "p = q"
    by (cases p; cases q; cases "dep_env p"; cases "dep_env q") simp
qed

lemma deployment_from_row_of: "DeploymentQid_wf (deployment_qid dep) \<Longrightarrow> deployment_from_row (row_of_deployment dep) = Inr dep"
  by (cases dep; cases "d_repo dep"; cases "d_deployment dep")
    (auto simp: deployment_from_row_def row_of_deployment_def deployment_qid_def DeploymentQid_wf_def EnvironmentQid_wf_def
      RepoQid_wf_def DeploymentId_wf_def ObjId_from_bytes_def is_valid_oid_hex_def
      org_codec.parse_display repo_codec.parse_display env_codec.parse_display state_codec.parse_display)

lemma client_key_deployment: "client_key (deployment_qid dep) = deployment_key dep"
  by (simp add: client_key_def deployment_key_def deployment_qid_def)

section \<open>Reading\<close>

lemma qid_eta [simp]: "\<lparr>dep_env = \<lparr>env_repo = client_repo q, env_id = client_env q\<rparr>, dep_id = dep_id q\<rparr> = q"
  by (cases q; cases "dep_env q") simp

lemma by_id_okD:
  assumes "by_id_ok D t"
  shows "D q = Some dep \<Longrightarrow> deployment_qid dep = q" "D q = Some dep \<Longrightarrow> DeploymentQid_wf q"
    "DeploymentQid_wf q \<Longrightarrow> deployments_by_id t (DeploymentQid_display q) = map_option row_of_deployment (D q)"
  using assms by (auto simp: by_id_ok_def)

lemma dep_get_up:
  assumes "by_id_ok D (tables d)" "DeploymentQid_wf q"
  shows "dep_get up q d = (case D q of None \<Rightarrow> Inl DqNotFound | Some dep \<Rightarrow> Inr dep, \<lparr>executed = Suc (executed d), tables = tables d\<rparr>)"
proof (cases "D q")
  case None
  then show ?thesis
    using by_id_okD(3) [OF assms] by (simp add: dep_get_def find_deployment_def Let_def fail_with_def)
next
  case (Some dep)
  note q = by_id_okD(1) [OF assms(1) Some]
  then have "deployment_from_row (row_of_deployment dep) = Inr dep"
    using assms(2) by (intro deployment_from_row_of) simp
  moreover have "dr_organization (row_of_deployment dep) = org_str (qid_org (client_repo q))"
    "dr_repository (row_of_deployment dep) = repo_str (qid_repo (client_repo q))"
    by (simp_all add: row_of_deployment_def deployment_qid_def flip: q)
  ultimately show ?thesis
    using Some by_id_okD(3) [OF assms]
    by (simp add: dep_get_def find_deployment_def Let_def of_result_def done_with_def)
qed

definition active_of :: "(DeploymentQid \<rightharpoonup> Deployment) \<Rightarrow> RepoQid \<Rightarrow> Deployment set" where
  "active_of D repo = {dep. \<exists>q. D q = Some dep \<and> client_repo q = repo \<and> d_state dep \<noteq> Down}"

text \<open>What is assumed of the order of an \<^verbatim>\<open>IN\<close> query: it is an arrangement of the keys asked for.\<close>

definition arranges :: "arrange \<Rightarrow> bool" where
  "arranges arr \<longleftrightarrow> (\<forall>xs. mset (arr xs) = mset xs)"

lemma arranges_set: "arranges arr \<Longrightarrow> set (arr xs) = set xs"
  unfolding arranges_def by (metis set_mset_mset)

lemma set_map_filter: "set (List.map_filter f xs) = {y. \<exists>x\<in>set xs. f x = Some y}"
  by (force simp: List.map_filter_def)

abbreviation active_qid_list :: "CdbTables \<Rightarrow> RepoQid \<Rightarrow> string list" where
  "active_qid_list t repo \<equiv>
    map snd (filter (\<lambda>(k, _). fst k = repo_str (qid_repo repo)) (active_deployments t (org_str (qid_org repo))))"

lemma active_qids:
  assumes "active_ok D t"
  shows "set (active_qid_list t repo) =
    {DeploymentQid_display q | q dep. D q = Some dep \<and> d_state dep \<noteq> Down \<and> client_repo q = repo}" (is "?L = ?R")
proof -
  have same: "client_repo q = repo" if "org_str (qid_org repo) = qid_org_str q" "fst (client_key q) = repo_str (qid_repo repo)" for q
    using that by (cases repo; cases "client_repo q") (auto simp: client_key_def OrgId.expand RepoId.expand)
  have rows: "(k, s) \<in> set (active_deployments t (org_str (qid_org repo))) \<longleftrightarrow>
      (\<exists>q dep. D q = Some dep \<and> d_state dep \<noteq> Down \<and> org_str (qid_org repo) = qid_org_str q \<and> k = client_key q \<and> s = DeploymentQid_display q)" for k s
    using assms unfolding active_ok_def by blast
  have "?L \<subseteq> ?R"
  proof
    fix s
    assume "s \<in> ?L"
    then obtain k where "(k, s) \<in> set (active_deployments t (org_str (qid_org repo)))" and k: "fst k = repo_str (qid_repo repo)" by auto
    then obtain q dep where "D q = Some dep" "d_state dep \<noteq> Down" "org_str (qid_org repo) = qid_org_str q" "k = client_key q"
      "s = DeploymentQid_display q" unfolding rows by blast
    with k same show "s \<in> ?R" by blast
  qed
  moreover have "?R \<subseteq> ?L"
  proof
    fix s
    assume "s \<in> ?R"
    then obtain q dep where q: "s = DeploymentQid_display q" "D q = Some dep" "d_state dep \<noteq> Down" "client_repo q = repo" by blast
    then have "(client_key q, s) \<in> set (active_deployments t (org_str (qid_org repo)))"
      unfolding rows by blast
    moreover have "fst (client_key q) = repo_str (qid_repo repo)" using q(4) by (simp add: client_key_def)
    ultimately show "s \<in> ?L" by force
  qed
  ultimately show ?thesis by blast
qed

lemma active_rows:
  assumes "by_id_ok D t" "active_ok D t" "arranges arr"
  shows "set (map deployment_from_row (List.map_filter (deployments_by_id t) (arr (active_qid_list t repo)))) = Inr ` active_of D repo"
proof -
  have stored: "deployments_by_id t (DeploymentQid_display q) = Some (row_of_deployment dep)" if "D q = Some dep" for q dep
    using by_id_okD(2,3) [OF assms(1)] that by simp
  have "{row. \<exists>s\<in>set (active_qid_list t repo). deployments_by_id t s = Some row} = row_of_deployment ` active_of D repo" (is "?L = ?R")
  proof (intro set_eqI iffI)
    fix row
    assume "row \<in> ?L"
    then obtain q dep where "D q = Some dep" "d_state dep \<noteq> Down" "client_repo q = repo"
      "deployments_by_id t (DeploymentQid_display q) = Some row"
      unfolding active_qids [OF assms(2)] by blast
    then show "row \<in> ?R" using stored by (auto simp: active_of_def)
  next
    fix row
    assume "row \<in> ?R"
    then obtain q dep where "D q = Some dep" "d_state dep \<noteq> Down" "client_repo q = repo" "row = row_of_deployment dep"
      by (auto simp: active_of_def)
    then show "row \<in> ?L" using stored unfolding active_qids [OF assms(2)] by blast
  qed
  moreover have "deployment_from_row (row_of_deployment dep) = Inr dep" if "dep \<in> active_of D repo" for dep
  proof -
    from that obtain q where "D q = Some dep" by (auto simp: active_of_def)
    then show ?thesis using by_id_okD(1,2) [OF assms(1)] by (intro deployment_from_row_of) auto
  qed
  ultimately show ?thesis
    unfolding set_map [of deployment_from_row] set_map_filter arranges_set [OF assms(3)]
    by (simp add: image_image)
qed

lemma collect_rows_Inr: "collect_rows (map Inr xs) = Inr xs"
  by (induction xs) simp_all

lemma active_deployments_up:
  assumes "by_id_ok D (tables d)" "active_ok D (tables d)" "arranges arr"
  shows "\<exists>xs k. active_deployments_of up arr repo d = (Inr (map Inr xs), \<lparr>executed = k, tables = tables d\<rparr>) \<and> set xs = active_of D repo"
proof -
  let ?q = "active_qid_list (tables d) repo"
  define rows where "rows = map deployment_from_row (List.map_filter (deployments_by_id (tables d)) (arr ?q))"
  have rows: "set rows = Inr ` active_of D repo" unfolding rows_def by (rule active_rows [OF assms])
  then have "\<forall>r\<in>set rows. \<exists>x. r = Inr x" by auto
  then obtain xs where xs: "rows = map Inr xs" by (metis ex_map_conv)
  with rows have set_xs: "set xs = active_of D repo" by (auto simp: inj_image_eq_iff)
  show ?thesis
  proof (cases "?q = []")
    case True
    then have "active_of D repo = {}" using rows active_rows [OF assms, of repo] arranges_set [OF assms(3), of "[]"] 
      by (simp add: List.map_filter_def)
    with True show ?thesis
      by (intro exI [of _ "[]"] exI [of _ "Suc (executed d)"])
        (simp add: active_deployments_of_def find_deployments_by_qids_def done_with_def)
  next
    case False
    with xs set_xs show ?thesis
      by (intro exI [of _ xs] exI [of _ "Suc (Suc (executed d))"])
        (simp add: active_deployments_of_def find_deployments_by_qids_def rows_def)
  qed
qed

section \<open>Writing\<close>

definition written :: "Deployment \<Rightarrow> CdbTables \<Rightarrow> CdbTables" where
  "written dep t = (if d_state dep = Down then unset_active_stmt dep else set_active_stmt dep)
    (set_deployment_by_id_stmt dep (set_deployment_stmt dep t))"

lemma set_deployment_up:
  "set_deployment up dep d = (Inr (), \<lparr>executed = executed d + 3, tables = written dep (tables d)\<rparr>)"
  by (simp add: set_deployment_def join_ops_def written_def)

lemma written_tables:
  "deployments_by_id (written dep t) = (deployments_by_id t)(DeploymentQid_display (deployment_qid dep) \<mapsto> row_of_deployment dep)"
  "active_deployments (written dep t) = (active_deployments t)(qid_org_str (deployment_qid dep) :=
    (if d_state dep = Down then delete_row (deployment_key dep) (active_deployments t (qid_org_str (deployment_qid dep)))
     else put_row key_before (deployment_key dep) (DeploymentQid_display (deployment_qid dep))
       (active_deployments t (qid_org_str (deployment_qid dep)))))"
  "supersessions (written dep t) = supersessions t"
  by (auto simp: written_def unset_active_stmt_def set_active_stmt_def set_deployment_by_id_stmt_def set_deployment_stmt_def
      Let_def deployment_qid_def)

lemma by_id_ok_written:
  assumes "by_id_ok D t" "DeploymentQid_wf (deployment_qid dep)"
  shows "by_id_ok (D(deployment_qid dep \<mapsto> dep)) (written dep t)"
  using assms DeploymentQid_display_inj by (simp add: by_id_ok_def written_tables)

lemma active_ok_get:
  assumes "active_ok D t"
  shows "get_row k (active_deployments t org) = Some s \<longleftrightarrow>
    (\<exists>q dep. D q = Some dep \<and> d_state dep \<noteq> Down \<and> org = qid_org_str q \<and> k = client_key q \<and> s = DeploymentQid_display q)"
proof -
  have "clustered key_before (active_deployments t org)" using assms by (simp add: active_ok_def)
  from key_before.clustered_get_row [OF this, of k s] show ?thesis
    using assms [unfolded active_ok_def, THEN spec, of org, THEN conjunct2, THEN spec, of k, THEN spec, of s] by (simp only:)
qed

lemma active_okI:
  assumes "\<And>org. clustered key_before (active_deployments t org)"
    "\<And>org k s. get_row k (active_deployments t org) = Some s \<longleftrightarrow>
      (\<exists>q dep. D q = Some dep \<and> d_state dep \<noteq> Down \<and> org = qid_org_str q \<and> k = client_key q \<and> s = DeploymentQid_display q)"
  shows "active_ok D t"
  unfolding active_ok_def
proof (intro allI conjI)
  fix org k s
  show "clustered key_before (active_deployments t org)" by (rule assms(1))
  show "(k, s) \<in> set (active_deployments t org) \<longleftrightarrow>
      (\<exists>q dep. D q = Some dep \<and> d_state dep \<noteq> Down \<and> org = qid_org_str q \<and> k = client_key q \<and> s = DeploymentQid_display q)"
    unfolding key_before.clustered_get_row [OF assms(1)] by (rule assms(2))
qed

lemma active_ok_written:
  assumes "active_ok D t"
  shows "active_ok (D(deployment_qid dep \<mapsto> dep)) (written dep t)"
proof (rule active_okI)
  let ?p = "deployment_qid dep"
  fix org
  have "clustered key_before (active_deployments t org)" using assms by (simp add: active_ok_def)
  then show "clustered key_before (active_deployments (written dep t) org)"
    using assms by (auto simp: written_tables active_ok_def key_before.clustered_put_row clustered_delete_row)
  fix k s
  note old = active_ok_get [OF assms, of k org s]
  have same: "q = ?p" if "org = qid_org_str q" "k = client_key q" "k = deployment_key dep" "org = qid_org_str ?p" for q
    using that client_key_inj [of q ?p] by (simp add: client_key_deployment)
  show "get_row k (active_deployments (written dep t) org) = Some s \<longleftrightarrow>
      (\<exists>q dep'. (D(?p \<mapsto> dep)) q = Some dep' \<and> d_state dep' \<noteq> Down \<and> org = qid_org_str q \<and> k = client_key q \<and> s = DeploymentQid_display q)"
  proof (cases "org = qid_org_str ?p \<and> k = deployment_key dep")
    case True
    then have "(\<exists>q dep'. (D(?p \<mapsto> dep)) q = Some dep' \<and> d_state dep' \<noteq> Down \<and> org = qid_org_str q \<and> k = client_key q \<and> s = DeploymentQid_display q) \<longleftrightarrow>
        d_state dep \<noteq> Down \<and> s = DeploymentQid_display ?p"
      using same by (auto simp: client_key_deployment)
    with True show ?thesis by (auto simp: written_tables)
  next
    case False
    then have "get_row k (active_deployments (written dep t) org) = get_row k (active_deployments t org)"
      by (auto simp: written_tables)
    moreover have "(D(?p \<mapsto> dep)) q = Some dep' \<and> d_state dep' \<noteq> Down \<and> org = qid_org_str q \<and> k = client_key q \<and> s = DeploymentQid_display q \<longleftrightarrow>
        D q = Some dep' \<and> d_state dep' \<noteq> Down \<and> org = qid_org_str q \<and> k = client_key q \<and> s = DeploymentQid_display q" for q dep'
      using False by (cases "q = ?p") (auto simp: client_key_deployment)
    ultimately show ?thesis by (simp only: old)
  qed
qed

lemma represents_written:
  assumes "represents r t" "DeploymentQid_wf (deployment_qid dep)"
  shows "represents (r\<lparr>deps := (deps r)(deployment_qid dep \<mapsto> dep)\<rparr>) (written dep t)"
  using assms by_id_ok_written active_ok_written by (simp add: represents_def superseder_ok_def written_tables)

section \<open>The operations on the registry\<close>

definition abs_set :: "DeploymentQid \<Rightarrow> int \<Rightarrow> DeploymentState \<Rightarrow> Registry \<Rightarrow> Registry" where
  "abs_set q now state r =
    (if map_option d_state (deps r q) = Some Down \<and> state = Undesired then r
     else r\<lparr>deps := (deps r)(q \<mapsto> (case deps r q of
       Some dep \<Rightarrow> dep\<lparr>d_state := state\<rparr>
     | None \<Rightarrow> \<lparr>d_repo = client_repo q, d_environment = client_env q, d_deployment = dep_id q, d_created_at = now,
         d_state = state, d_bootstrapped = False\<rparr>))\<rparr>)"

definition abs_supersede :: "DeploymentId \<Rightarrow> DeploymentQid \<Rightarrow> Registry \<Rightarrow> Registry" where
  "abs_supersede i q r = r\<lparr>superseder := (superseder r)(q \<mapsto> i)\<rparr>"

definition refines :: "(Registry \<Rightarrow> Registry) \<Rightarrow> (CdbTables Db, 'e, unit) op \<Rightarrow> bool" where
  "refines f m \<longleftrightarrow> (\<forall>r d. represents r (tables d) \<longrightarrow> (\<exists>d'. m d = (Inr (), d') \<and> represents (f r) (tables d')))"

lemma refinesI:
  "(\<And>r d. represents r (tables d) \<Longrightarrow> \<exists>d'. m d = (Inr (), d') \<and> represents (f r) (tables d')) \<Longrightarrow> refines f m"
  by (simp add: refines_def)

lemma refinesD: "refines f m \<Longrightarrow> represents r (tables d) \<Longrightarrow> \<exists>d'. m d = (Inr (), d') \<and> represents (f r) (tables d')"
  by (simp add: refines_def)

lemma refines_seq: "refines f m \<Longrightarrow> refines g k \<Longrightarrow> refines (g \<circ> f) (seq m (\<lambda>_. k))"
  by (fastforce simp: refines_def seq_def)

lemma refines_join: "refines f m \<Longrightarrow> refines g k \<Longrightarrow> refines (g \<circ> f) (join_ops m k)"
  by (fastforce simp: refines_def join_ops_def)

lemma refines_seq_list: "(\<And>x. x \<in> set xs \<Longrightarrow> refines (f x) (m x)) \<Longrightarrow> refines (fold f xs) (seq_list m xs)"
proof (induction xs)
  case Nil
  show ?case by (auto simp: refines_def done_with_def)
next
  case (Cons x xs)
  then have "refines (fold f xs \<circ> f x) (seq (m x) (\<lambda>_. seq_list m xs))" by (intro refines_seq) auto
  then show ?case by (simp add: comp_def)
qed

lemma deployment_eta:
  "\<lparr>d_repo = d_repo a, d_environment = d_environment a, d_deployment = d_deployment a, d_created_at = d_created_at a,
     d_state = state, d_bootstrapped = d_bootstrapped a\<rparr> = a\<lparr>d_state := state\<rparr>"
  by (cases a) simp

lemma ok_get_up:
  assumes "by_id_ok D (tables d)" "DeploymentQid_wf q"
  shows "ok_op (dep_get up q) d = (Inr (D q), \<lparr>executed = Suc (executed d), tables = tables d\<rparr>)"
  by (cases "D q") (simp_all add: ok_op_def dep_get_up [OF assms])

lemma dep_set_refines:
  assumes "DeploymentQid_wf q"
  shows "refines (abs_set q now state) (dep_set up q now state)"
proof (rule refinesI)
  fix r and d :: "CdbTables Db"
  assume rep: "represents r (tables d)"
  then have ids: "by_id_ok (deps r) (tables d)" by (simp add: represents_def)
  let ?d = "\<lparr>executed = Suc (executed d), tables = tables d\<rparr>"
  show "\<exists>d'. dep_set up q now state d = (Inr (), d') \<and> represents (abs_set q now state r) (tables d')"
  proof (cases "map_option d_state (deps r q) = Some Down \<and> state = Undesired")
    case True
    with rep show ?thesis by (auto simp: dep_set_def seq_def ok_get_up [OF ids assms] done_with_def abs_set_def)
  next
    case False
    define new where "new = (case deps r q of
       Some dep \<Rightarrow> dep\<lparr>d_state := state\<rparr>
     | None \<Rightarrow> \<lparr>d_repo = client_repo q, d_environment = client_env q, d_deployment = dep_id q, d_created_at = now,
         d_state = state, d_bootstrapped = False\<rparr>)"
    have qid: "deployment_qid new = q"
      using by_id_okD(1) [OF ids, of q] by (cases "deps r q") (auto simp: new_def deployment_qid_def)
    have "dep_set up q now state d = set_deployment up new ?d"
      using False by_id_okD(1) [OF ids, of q]
      by (cases "deps r q") (auto simp: dep_set_def seq_def ok_get_up [OF ids assms] deployment_eta new_def deployment_qid_def)
    moreover have "represents (r\<lparr>deps := (deps r)(q \<mapsto> new)\<rparr>) (written new (tables d))"
      using represents_written [OF rep, of new] assms qid by simp
    moreover have "abs_set q now state r = r\<lparr>deps := (deps r)(q \<mapsto> new)\<rparr>" unfolding abs_set_def new_def by (rule if_not_P) (rule False)
    ultimately show ?thesis by (simp add: set_deployment_up)
  qed
qed

lemma mark_superseded_refines:
  assumes "DeploymentQid_wf q" "DeploymentId_wf i"
  shows "refines (abs_supersede i q) (mark_superseded_by up q i)"
proof (rule refinesI)
  fix r and d :: "CdbTables Db"
  assume rep: "represents r (tables d)"
  let ?t = "create_supersession q i (tables d)"
  have t: "supersessions ?t = (supersessions (tables d))(qid_org_str q :=
      put_row key_before (client_key q) (id_columns i) (supersessions (tables d) (qid_org_str q)))"
    "deployments_by_id ?t = deployments_by_id (tables d)" "active_deployments ?t = active_deployments (tables d)"
    by (simp_all add: create_supersession_def Let_def id_columns_def)
  from rep have ok: "superseder_ok (superseder r) (tables d)" by (simp add: represents_def)
  have "superseder_ok ((superseder r)(q \<mapsto> i)) ?t"
    unfolding superseder_ok_def t
  proof (intro conjI allI)
    fix org
    let ?rows = "((supersessions (tables d))(qid_org_str q :=
      put_row key_before (client_key q) (id_columns i) (supersessions (tables d) (qid_org_str q)))) org"
    from ok have old: "clustered key_before (supersessions (tables d) org)"
      "\<forall>k\<in>fst ` set (supersessions (tables d) org). \<exists>q. DeploymentQid_wf q \<and> org = qid_org_str q \<and> k = client_key q"
      unfolding superseder_ok_def by blast+
    from old(1) show "clustered key_before ?rows"
      by (cases "org = qid_org_str q") (simp_all add: key_before.clustered_put_row)
    have keys: "fst ` set ?rows =
        (if org = qid_org_str q then insert (client_key q) else (\<lambda>K. K)) (fst ` set (supersessions (tables d) org))"
      by (simp add: fst_put_row)
    from old(2) show "\<forall>k\<in>fst ` set ?rows. \<exists>q. DeploymentQid_wf q \<and> org = qid_org_str q \<and> k = client_key q"
      unfolding keys using assms(1) by (cases "org = qid_org_str q") auto
  qed (use ok assms client_key_inj in \<open>auto simp: superseder_ok_def\<close>)
  then have "represents (abs_supersede i q r) ?t"
    using rep by (simp add: represents_def by_id_ok_def active_ok_def t abs_supersede_def)
  then show "\<exists>d'. mark_superseded_by up q i d = (Inr (), d') \<and> represents (abs_supersede i q r) (tables d')"
    by (simp add: mark_superseded_by_def)
qed

lemma set_progress_up:
  assumes "DeploymentQid_wf q" "represents r (tables d)" "deps r q = Some dep"
  shows "\<exists>d'. set_progress up q boot d = (Inr (), d') \<and>
    represents (r\<lparr>deps := (deps r)(q \<mapsto> dep\<lparr>d_bootstrapped := boot\<rparr>)\<rparr>) (tables d')"
proof -
  have ids: "by_id_ok (deps r) (tables d)" using assms(2) by (simp add: represents_def)
  let ?new = "dep\<lparr>d_bootstrapped := boot\<rparr>"
  have "deployment_qid ?new = q" using by_id_okD(1) [OF ids assms(3)] by (simp add: deployment_qid_def)
  then have "represents (r\<lparr>deps := (deps r)(q \<mapsto> ?new)\<rparr>) (written ?new (tables d))"
    using represents_written [OF assms(2), of ?new] assms(1) by simp
  then show ?thesis
    by (simp add: set_progress_def seq_def map_err_def dep_get_up [OF ids assms(1)] assms(3) set_deployment_up)
qed

section \<open>Promotion\<close>

text \<open>The deployments a promotion takes over from: the other desired ones of the environment.\<close>

definition takes_over :: "Registry \<Rightarrow> DeploymentQid \<Rightarrow> DeploymentQid \<Rightarrow> bool" where
  "takes_over r q p \<longleftrightarrow> p \<noteq> q \<and> dep_env p = dep_env q \<and> map_option d_state (deps r p) = Some Desired"

definition abs_make_desired :: "DeploymentQid \<Rightarrow> int \<Rightarrow> Registry \<Rightarrow> Registry" where
  "abs_make_desired q now r = abs_set q now Desired
    \<lparr>deps = \<lambda>p. if takes_over r q p then map_option (\<lambda>dep. dep\<lparr>d_state := Lingering\<rparr>) (deps r p) else deps r p,
     superseder = \<lambda>p. if takes_over r q p then Some (dep_id q) else superseder r p\<rparr>"

definition victim :: "DeploymentQid \<Rightarrow> int \<Rightarrow> Deployment \<Rightarrow> Registry \<Rightarrow> Registry" where
  "victim q now dep = abs_supersede (dep_id q) (deployment_qid dep) \<circ> abs_set (deployment_qid dep) now Lingering"

lemma supersede_refines:
  assumes "DeploymentQid_wf q" "DeploymentQid_wf (deployment_qid dep)" "d_repo dep = client_repo q"
  shows "refines (victim q now dep) (supersede up q now dep)"
proof -
  have "\<lparr>dep_env = \<lparr>env_repo = client_repo q, env_id = d_environment dep\<rparr>, dep_id = d_deployment dep\<rparr> = deployment_qid dep"
    using assms(3) by (simp add: deployment_qid_def)
  moreover have "DeploymentId_wf (dep_id q)" using assms(1) by (simp add: DeploymentQid_wf_def)
  ultimately show ?thesis
    unfolding supersede_def victim_def Let_def
    by (simp only:) (intro refines_join dep_set_refines mark_superseded_refines assms(2))
qed

abbreviation lingers :: "Deployment option \<Rightarrow> Deployment option" where
  "lingers \<equiv> map_option (\<lambda>dep. dep\<lparr>d_state := Lingering\<rparr>)"

lemma victim_maps:
  assumes "deps r (deployment_qid dep) \<noteq> None"
  shows "deps (victim q now dep r) = (deps r)(deployment_qid dep := lingers (deps r (deployment_qid dep)))"
    "superseder (victim q now dep r) = (superseder r)(deployment_qid dep \<mapsto> dep_id q)"
  using assms by (auto simp: victim_def abs_supersede_def abs_set_def)

lemma fold_victims:
  assumes "\<forall>dep\<in>set xs. deps r (deployment_qid dep) \<noteq> None"
  shows "deps (fold (victim q now) xs r) p = (if p \<in> deployment_qid ` set xs then lingers (deps r p) else deps r p) \<and>
    superseder (fold (victim q now) xs r) p = (if p \<in> deployment_qid ` set xs then Some (dep_id q) else superseder r p)"
  using assms
proof (induction xs arbitrary: r)
  case (Cons x xs)
  have twice: "lingers (lingers y) = lingers y" for y by (cases y) simp_all
  have x: "deps r (deployment_qid x) \<noteq> None" using Cons.prems by simp
  have "\<forall>dep\<in>set xs. deps (victim q now x r) (deployment_qid dep) \<noteq> None"
    using Cons.prems by (auto simp: victim_maps [OF x])
  from Cons.IH [OF this] show ?case by (auto simp: victim_maps [OF x] twice)
qed simp

lemma is_active_iff: "is_active st \<longleftrightarrow> st = Desired"
  by (cases st) simp_all

lemma make_desired_refines:
  assumes "DeploymentQid_wf q" "arranges arr"
  shows "refines (abs_make_desired q now) (make_desired up arr q now)"
proof (rule refinesI)
  fix r and d :: "CdbTables Db"
  assume rep: "represents r (tables d)"
  then have ids: "by_id_ok (deps r) (tables d)" "active_ok (deps r) (tables d)" by (simp_all add: represents_def)
  obtain xs k where rows: "active_deployments_of up arr (client_repo q) d = (Inr (map Inr xs), \<lparr>executed = k, tables = tables d\<rparr>)"
    "set xs = active_of (deps r) (client_repo q)"
    using active_deployments_up [OF ids assms(2)] by blast
  define vs where "vs = filter (\<lambda>dep. d_environment dep = client_env q \<and> d_deployment dep \<noteq> dep_id q \<and> is_active (d_state dep)) xs"
  have vs: "deps r (deployment_qid dep) = Some dep" "DeploymentQid_wf (deployment_qid dep)" "d_repo dep = client_repo q"
    if "dep \<in> set vs" for dep
  proof -
    from that rows(2) obtain p where p: "deps r p = Some dep" "client_repo p = client_repo q" by (auto simp: vs_def active_of_def)
    with by_id_okD(1,2) [OF ids(1) p(1)] show "deps r (deployment_qid dep) = Some dep" "DeploymentQid_wf (deployment_qid dep)"
      "d_repo dep = client_repo q" by (auto simp: deployment_qid_def)
  qed
  have "refines (abs_set q now Desired \<circ> fold (victim q now) vs)
      (seq (seq_list (supersede up q now) vs) (\<lambda>_. dep_set up q now Desired))"
    using vs by (intro refines_seq refines_seq_list supersede_refines dep_set_refines assms(1)) auto
  from refinesD [OF this, of r "\<lparr>executed = k, tables = tables d\<rparr>"] rep obtain d' where
    "seq (seq_list (supersede up q now) vs) (\<lambda>_. dep_set up q now Desired) \<lparr>executed = k, tables = tables d\<rparr> = (Inr (), d')"
    and rep': "represents (abs_set q now Desired (fold (victim q now) vs r)) (tables d')"
    by auto
  then have run: "make_desired up arr q now d = (Inr (), d')"
    using rows(1) by (simp add: make_desired_def predecessors_def promote_def seq_def map_err_def collect_rows_Inr of_result_def done_with_def vs_def)
  have mem: "p \<in> deployment_qid ` set vs \<longleftrightarrow> takes_over r q p" for p
  proof
    assume "p \<in> deployment_qid ` set vs"
    then obtain dep where dep: "dep \<in> set vs" "p = deployment_qid dep" by blast
    then have "dep_id p \<noteq> dep_id q" by (simp add: vs_def deployment_qid_def)
    then have "p \<noteq> q" by blast
    moreover have "dep_env p = dep_env q" using dep vs(3) [of dep] by (simp add: vs_def deployment_qid_def)
    ultimately show "takes_over r q p" using dep vs(1) [of dep] by (simp add: takes_over_def vs_def is_active_iff)
  next
    assume p: "takes_over r q p"
    then obtain dep where dep: "deps r p = Some dep" "d_state dep = Desired" by (auto simp: takes_over_def)
    note qid = by_id_okD(1) [OF ids(1) dep(1)]
    have "dep \<in> active_of (deps r) (client_repo q)" using dep p by (auto simp: active_of_def takes_over_def)
    moreover have "dep_id p = d_deployment dep" "client_env p = d_environment dep"
      by (simp_all add: deployment_qid_def flip: qid)
    moreover have "dep_id p \<noteq> dep_id q" "dep_env p = dep_env q"
      using p by (auto simp: takes_over_def)
    ultimately have "dep \<in> set vs" using rows(2) dep(2) by (simp add: vs_def)
    with qid show "p \<in> deployment_qid ` set vs" by blast
  qed
  have "\<forall>dep\<in>set vs. deps r (deployment_qid dep) \<noteq> None" using vs(1) by simp
  from fold_victims [OF this, of q now] have
    "deps (fold (victim q now) vs r) = (\<lambda>p. if takes_over r q p then lingers (deps r p) else deps r p)"
    "superseder (fold (victim q now) vs r) = (\<lambda>p. if takes_over r q p then Some (dep_id q) else superseder r p)"
    by (simp_all add: fun_eq_iff mem)
  then have "fold (victim q now) vs r = \<lparr>deps = \<lambda>p. if takes_over r q p then lingers (deps r p) else deps r p,
      superseder = \<lambda>p. if takes_over r q p then Some (dep_id q) else superseder r p\<rparr>"
    by (intro Registry.equality) simp_all
  then have "abs_set q now Desired (fold (victim q now) vs r) = abs_make_desired q now r"
    by (simp only: abs_make_desired_def)
  with run rep' show "\<exists>d'. make_desired up arr q now d = (Inr (), d') \<and> represents (abs_make_desired q now r) (tables d')" by auto
qed

lemma get_superseding_up:
  assumes "superseder_ok S (tables d)" "DeploymentQid_wf q"
  shows "get_superseding up q d = (Inr (map_option (\<lambda>i. q\<lparr>dep_id := i\<rparr>) (S q)), \<lparr>executed = Suc (executed d), tables = tables d\<rparr>)"
proof (cases "S q")
  case None
  then show ?thesis using assms by (simp add: get_superseding_def superseder_ok_def done_with_def)
next
  case (Some i)
  then have "DeploymentId_wf i" using assms(1) by (simp add: superseder_ok_def)
  then have "ObjId_from_bytes (oid_hex (did_commit i)) = Some (did_commit i)"
    by (simp add: ObjId_from_bytes_def DeploymentId_wf_def is_valid_oid_hex_def)
  then show ?thesis
    using assms Some by (simp add: get_superseding_def superseder_ok_def id_columns_def done_with_def)
qed

section \<open>Properties\<close>

text \<open>
  C2. Without failures the client refines the registry of deployments: reading a deployment
  returns the registry's, setting a state changes that deployment and nothing else, and a
  promotion makes its deployment desired, turns every other desired deployment of the environment
  into a lingering one that it supersedes, and leaves all others as they were.
\<close>

theorem cdb_refines_registry:
  assumes "represents r (tables d)" "DeploymentQid_wf q" "arranges arr"
  shows "fst (dep_get up q d) = (case deps r q of None \<Rightarrow> Inl DqNotFound | Some dep \<Rightarrow> Inr dep) \<and>
    (\<exists>d'. dep_set up q now state d = (Inr (), d') \<and> represents (abs_set q now state r) (tables d')) \<and>
    (\<exists>d'. make_desired up arr q now d = (Inr (), d') \<and> represents (abs_make_desired q now r) (tables d'))"
  using assms refinesD [OF dep_set_refines [OF assms(2)] assms(1)] refinesD [OF make_desired_refines [OF assms(2,3)] assms(1)]
    dep_get_up [OF _ assms(2)] by (auto simp: represents_def)

definition empty_cdb :: CdbTables where
  "empty_cdb = \<lparr>repositories = \<lambda>_. [], deployments = \<lambda>_. [], deployments_by_id = Map.empty,
    active_deployments = \<lambda>_. [], supersessions = \<lambda>_. []\<rparr>"

definition no_deployments :: Registry where
  "no_deployments = \<lparr>deps = Map.empty, superseder = Map.empty\<rparr>"

lemma represents_empty: "represents no_deployments (tables \<lparr>executed = 0, tables = empty_cdb\<rparr>)"
  by (simp add: represents_def no_deployments_def empty_cdb_def by_id_ok_def active_ok_def superseder_ok_def clustered_def)

lemma arranges_id: "arranges (\<lambda>xs. xs)"
  by (simp add: arranges_def)

theorem cdb_refines_registry_witness:
  "\<exists>d'. make_desired up (\<lambda>xs. xs) example_dep 5 \<lparr>executed = 0, tables = empty_cdb\<rparr> = (Inr (), d') \<and>
    represents (abs_make_desired example_dep 5 no_deployments) (tables d')"
proof -
  have "DeploymentQid_wf example_dep" using example_dep_wf [of 7] by (simp add: example_dep_def)
  from cdb_refines_registry [OF represents_empty this arranges_id, of 5 Down] show ?thesis by blast
qed

text \<open>
  C10. When a promotion has gone through, its deployment is the only desired one of its
  environment.
\<close>

theorem promotion_leaves_one_desired:
  assumes "represents r (tables d)" "DeploymentQid_wf q" "arranges arr" "make_desired up arr q now d = (res, d')"
    "DeploymentQid_wf p" "dep_env p = dep_env q" "fst (dep_get up p d') = Inr dep"
  shows "res = Inr () \<and> (d_state dep = Desired \<longleftrightarrow> p = q)"
proof -
  from refinesD [OF make_desired_refines [OF assms(2,3), of now] assms(1)] assms(4)
  have res: "res = Inr ()" and rep: "represents (abs_make_desired q now r) (tables d')" by auto
  from rep have "by_id_ok (deps (abs_make_desired q now r)) (tables d')" by (simp add: represents_def)
  from dep_get_up [OF this assms(5)] assms(7) have dep: "deps (abs_make_desired q now r) p = Some dep"
    by (auto split: option.splits)
  show ?thesis
    using res dep assms(6)
    by (auto simp: abs_make_desired_def abs_set_def takes_over_def split: if_splits option.splits)
qed

abbreviation example_dep2 :: DeploymentQid where
  "example_dep2 \<equiv> example_dep\<lparr>dep_id := example_did 8\<rparr>"

lemma example_deps: "DeploymentQid_wf example_dep" "DeploymentQid_wf example_dep2" "example_dep \<noteq> example_dep2"
  using example_dep_wf [of 7] example_dep_wf [of 8] by (auto simp: example_dep_def example_did_def)

text \<open>Two deployments of an environment, one after the other.\<close>

lemma example_run:
  "\<exists>d d'. make_desired up (\<lambda>xs. xs) example_dep 5 \<lparr>executed = 0, tables = empty_cdb\<rparr> = (Inr (), d) \<and>
    represents (abs_make_desired example_dep 5 no_deployments) (tables d) \<and>
    make_desired up (\<lambda>xs. xs) example_dep2 6 d = (Inr (), d') \<and>
    represents (abs_make_desired example_dep2 6 (abs_make_desired example_dep 5 no_deployments)) (tables d')"
  using refinesD [OF make_desired_refines [OF example_deps(1) arranges_id, of 5] represents_empty]
    refinesD [OF make_desired_refines [OF example_deps(2) arranges_id, of 6]] by blast

theorem promotion_leaves_one_desired_witness:
  "\<exists>d d' dep. make_desired up (\<lambda>xs. xs) example_dep2 6 d = (Inr (), d') \<and>
    fst (dep_get up example_dep d') = Inr dep \<and> d_state dep \<noteq> Desired"
proof -
  from example_run obtain d d' where d: "represents (abs_make_desired example_dep 5 no_deployments) (tables d)"
    "make_desired up (\<lambda>xs. xs) example_dep2 6 d = (Inr (), d')"
    "represents (abs_make_desired example_dep2 6 (abs_make_desired example_dep 5 no_deployments)) (tables d')" by blast
  from d(3) have "by_id_ok (deps (abs_make_desired example_dep2 6 (abs_make_desired example_dep 5 no_deployments))) (tables d')"
    by (simp add: represents_def)
  from dep_get_up [OF this example_deps(1)] obtain dep where dep: "fst (dep_get up example_dep d') = Inr dep"
    using example_deps(3) by (auto simp: abs_make_desired_def abs_set_def takes_over_def no_deployments_def)
  from promotion_leaves_one_desired [OF d(1) example_deps(2) arranges_id d(2) example_deps(1) _ dep] example_deps(3) d(2) dep
  show ?thesis by (intro exI [of _ d] exI [of _ d'] exI [of _ dep]) simp
qed

text \<open>
  C35. Promoting is not atomic. When another promotion in the environment goes through between
  reading the active deployments and writing, both deployments end up desired and neither is
  superseded by the other.
\<close>

theorem concurrent_promotions_leave_two_desired:
  assumes "represents r (tables d)" "DeploymentQid_wf p" "DeploymentQid_wf q" "arranges arr" "p \<noteq> q" "dep_env p = dep_env q"
    "\<forall>x. dep_env x = dep_env q \<longrightarrow> map_option d_state (deps r x) \<noteq> Some Desired"
    "superseder r p = None" "superseder r q = None"
    "predecessors up arr q d = (Inr stale, d0)" "make_desired up arr p now d0 = (Inr (), d1)" "promote up q now stale d1 = (Inr (), d2)"
  shows "(\<forall>x\<in>{p, q}. map_sum id d_state (fst (dep_get up x d2)) = Inr Desired \<and> fst (get_superseding up x d2) = Inr None)"
proof -
  have ids: "by_id_ok (deps r) (tables d)" "active_ok (deps r) (tables d)" using assms(1) by (simp_all add: represents_def)
  obtain xs k where rows: "active_deployments_of up arr (client_repo q) d = (Inr (map Inr xs), \<lparr>executed = k, tables = tables d\<rparr>)"
    "set xs = active_of (deps r) (client_repo q)"
    using active_deployments_up [OF ids assms(4)] by blast
  have none: "\<not> (d_environment dep = client_env q \<and> is_active (d_state dep))" if dep: "dep \<in> set xs" for dep
  proof
    assume a: "d_environment dep = client_env q \<and> is_active (d_state dep)"
    from dep rows(2) obtain x where x: "deps r x = Some dep" "client_repo x = client_repo q" by (auto simp: active_of_def)
    have "client_env x = d_environment dep" using by_id_okD(1) [OF ids(1) x(1)] by (auto simp: deployment_qid_def)
    with a x(2) have "dep_env x = dep_env q" by (simp add: EnvironmentQid.equality)
    with assms(7) x(1) a show False by (simp add: is_active_iff)
  qed
  have "predecessors up arr q d = (Inr [], \<lparr>executed = k, tables = tables d\<rparr>)"
    using rows(1) none
    by (auto simp: predecessors_def seq_def map_err_def collect_rows_Inr of_result_def done_with_def filter_empty_conv)
  with assms(10) have stale: "stale = []" "tables d0 = tables d" by auto
  from refinesD [OF make_desired_refines [OF assms(2,4), of now], of r d0] assms(1,11) stale(2)
  have "represents (abs_make_desired p now r) (tables d1)" by auto
  from refinesD [OF dep_set_refines [OF assms(3), of now Desired] this] assms(12) stale(1)
  have rep: "represents (abs_set q now Desired (abs_make_desired p now r)) (tables d2)"
    by (auto simp: promote_def seq_def done_with_def)
  let ?r = "abs_set q now Desired (abs_make_desired p now r)"
  have maps: "map_option d_state (deps ?r x) = Some Desired \<and> superseder ?r x = None" if "x \<in> {p, q}" for x
    using that assms(5-9) by (auto simp: abs_make_desired_def abs_set_def takes_over_def split: option.splits)
  have oks: "by_id_ok (deps ?r) (tables d2)" "superseder_ok (superseder ?r) (tables d2)" using rep by (simp_all add: represents_def)
  show ?thesis
  proof
    fix x
    assume x: "x \<in> {p, q}"
    then have wf: "DeploymentQid_wf x" using assms(2,3) by auto
    show "map_sum id d_state (fst (dep_get up x d2)) = Inr Desired \<and> fst (get_superseding up x d2) = Inr None"
      using maps [OF x] by (auto simp: dep_get_up [OF oks(1) wf] get_superseding_up [OF oks(2) wf])
  qed
qed

theorem concurrent_promotions_leave_two_desired_witness:
  "\<exists>d0 d1 d2. predecessors up (\<lambda>xs. xs) example_dep2 \<lparr>executed = 0, tables = empty_cdb\<rparr> = (Inr [], d0) \<and>
    make_desired up (\<lambda>xs. xs) example_dep 5 d0 = (Inr (), d1) \<and> promote up example_dep2 5 [] d1 = (Inr (), d2) \<and>
    map_sum id d_state (fst (dep_get up example_dep d2)) = Inr Desired \<and>
    map_sum id d_state (fst (dep_get up example_dep2 d2)) = Inr Desired"
proof -
  let ?d = "\<lparr>executed = 0, tables = empty_cdb\<rparr>"
  have read: "predecessors up (\<lambda>xs. xs) example_dep2 ?d = (Inr [], \<lparr>executed = 1, tables = empty_cdb\<rparr>)"
    by (simp add: predecessors_def active_deployments_of_def find_deployments_by_qids_def seq_def map_err_def of_result_def
        done_with_def empty_cdb_def)
  have rep: "represents no_deployments (tables \<lparr>executed = 1, tables = empty_cdb\<rparr>)" using represents_empty by simp
  from refinesD [OF make_desired_refines [OF example_deps(1) arranges_id, of 5] rep] obtain d1 where
    first: "make_desired up (\<lambda>xs. xs) example_dep 5 \<lparr>executed = 1, tables = empty_cdb\<rparr> = (Inr (), d1)"
    "represents (abs_make_desired example_dep 5 no_deployments) (tables d1)" by blast
  from refinesD [OF dep_set_refines [OF example_deps(2), of 5 Desired] first(2)] obtain d2 where
    second: "promote up example_dep2 5 [] d1 = (Inr (), d2)" by (auto simp: promote_def seq_def done_with_def)
  from concurrent_promotions_leave_two_desired [OF represents_empty example_deps(1,2) arranges_id example_deps(3) _ _ _ _ read first(1) second]
  have "\<forall>x\<in>{example_dep, example_dep2}. map_sum id d_state (fst (dep_get up x d2)) = Inr Desired"
    by (simp add: no_deployments_def)
  with read first(1) second show ?thesis by blast
qed

text \<open>
  Setting a state reads the deployment first and treats a failed read like a deployment that
  does not exist. So when that read fails and the writes succeed, the call succeeds, the deployment
  loses its creation time and its bootstrapped flag, and one that is down comes back.
\<close>

theorem set_after_failed_read_forgets:
  assumes "represents r (tables d)" "DeploymentQid_wf q" "deps r q = Some dep"
    "net (executed d) = ExecLost" "\<forall>k>executed d. net k = ExecOk"
  shows "\<exists>d'. dep_set net q now state d = (Inr (), d') \<and>
    fst (dep_get up q d') = Inr (dep\<lparr>d_created_at := now, d_state := state, d_bootstrapped := False\<rparr>)"
proof -
  let ?new = "dep\<lparr>d_created_at := now, d_state := state, d_bootstrapped := False\<rparr>"
  have ids: "by_id_ok (deps r) (tables d)" using assms(1) by (simp add: represents_def)
  have qid: "deployment_qid ?new = q" using by_id_okD(1) [OF ids assms(3)] by (simp add: deployment_qid_def)
  have new: "\<lparr>d_repo = client_repo q, d_environment = client_env q, d_deployment = dep_id q, d_created_at = now, d_state = state,
      d_bootstrapped = False\<rparr> = ?new"
    using qid by (cases dep) (auto simp: deployment_qid_def)
  have "dep_set net q now state d = set_deployment net ?new \<lparr>executed = Suc (executed d), tables = tables d\<rparr>"
    using assms(4)
    by (cases d) (simp add: dep_set_def ok_op_def dep_get_def find_deployment_def Let_def seq_def cql_read_def exec_def new)
  also have "\<dots> = (Inr (), \<lparr>executed = executed d + 4, tables = written ?new (tables d)\<rparr>)"
    using assms(5) by (simp add: set_deployment_def join_ops_def cql_write_def exec_def written_def)
  finally have "dep_set net q now state d = (Inr (), \<lparr>executed = executed d + 4, tables = written ?new (tables d)\<rparr>)" .
  moreover have "by_id_ok ((deps r)(q \<mapsto> ?new)) (written ?new (tables d))"
    using by_id_ok_written [OF ids, of ?new] assms(2) qid by simp
  ultimately show ?thesis using dep_get_up [OF _ assms(2), of "(deps r)(q \<mapsto> ?new)"] by auto
qed

theorem set_after_failed_read_forgets_witness:
  "\<exists>d d' net dep. represents (abs_set example_dep 6 Down (abs_make_desired example_dep 5 no_deployments)) (tables d) \<and>
    dep_set net example_dep 9 Undesired d = (Inr (), d') \<and> fst (dep_get up example_dep d') = Inr dep \<and>
    d_state dep = Undesired \<and> d_created_at dep = 9"
proof -
  let ?r = "abs_set example_dep 6 Down (abs_make_desired example_dep 5 no_deployments)"
  obtain d :: "CdbTables Db" where d: "represents (abs_make_desired example_dep 5 no_deployments) (tables d)"
    using example_run by blast
  from refinesD [OF dep_set_refines [OF example_deps(1), of 6 Down] this] obtain d2 :: "CdbTables Db" where d2: "represents ?r (tables d2)" by blast
  define net :: network where "net = (\<lambda>k. if k = executed d2 then ExecLost else ExecOk)"
  obtain dep where dep: "deps ?r example_dep = Some dep" by (auto simp: abs_set_def abs_make_desired_def no_deployments_def)
  from set_after_failed_read_forgets [OF d2 example_deps(1) dep, of net 9 Undesired] obtain d' where
    "dep_set net example_dep 9 Undesired d2 = (Inr (), d')"
    "fst (dep_get up example_dep d') = Inr (dep\<lparr>d_created_at := 9, d_state := Undesired, d_bootstrapped := False\<rparr>)"
    by (auto simp: net_def)
  with d2 show ?thesis by fastforce
qed

text \<open>The order of an \<^verbatim>\<open>IN\<close> query that puts one key first.\<close>

definition favour :: "string \<Rightarrow> arrange" where
  "favour s xs = (if s \<in> set xs then s # remove1 s xs else xs)"

lemma arranges_favour: "arranges (favour s)"
  by (simp add: arranges_def favour_def)

lemma ne_NilI: "x \<in> set xs \<Longrightarrow> xs \<noteq> []"
  by auto

lemma first_row:
  assumes "represents r (tables d)" "deps r p = Some dep" "d_state dep \<noteq> Down"
  shows "\<exists>xs k. active_deployments_of up (favour (DeploymentQid_display p)) (client_repo p) d =
    (Inr (map Inr (dep # xs)), \<lparr>executed = k, tables = tables d\<rparr>)"
proof -
  have ids: "by_id_ok (deps r) (tables d)" "active_ok (deps r) (tables d)" using assms(1) by (simp_all add: represents_def)
  let ?s = "DeploymentQid_display p" and ?q = "active_qid_list (tables d) (client_repo p)"
  obtain xs k where rows: "active_deployments_of up (favour ?s) (client_repo p) d = (Inr (map Inr xs), \<lparr>executed = k, tables = tables d\<rparr>)"
    using active_deployments_up [OF ids arranges_favour] by blast
  have mem: "?s \<in> set ?q" using assms(2,3) unfolding active_qids [OF ids(2)] by blast
  then have "?q \<noteq> []" by (rule ne_NilI)
  have "map Inr xs = map deployment_from_row (List.map_filter (deployments_by_id (tables d)) (favour ?s ?q))"
    using rows \<open>?q \<noteq> []\<close> by (simp add: active_deployments_of_def find_deployments_by_qids_def)
  moreover have "deployments_by_id (tables d) ?s = Some (row_of_deployment dep)"
    using by_id_okD(2,3) [OF ids(1)] assms(2) by simp
  moreover have "deployment_from_row (row_of_deployment dep) = Inr dep"
    using by_id_okD(1,2) [OF ids(1) assms(2)] by (intro deployment_from_row_of) simp
  ultimately have "hd xs = dep \<and> xs \<noteq> []"
    using mem by (cases xs) (simp_all add: favour_def List.map_filter_simps)
  then show ?thesis using rows by (metis list.collapse)
qed

text \<open>
  The current deployment of an environment is not determined by supersession: when a deployment
  has been set undesired without being superseded, as deleting its branch does, and another
  one is deployed before it is down, both are candidates and the answer is whichever the database
  lists first.
\<close>

theorem current_deployment_is_ambiguous:
  assumes "represents r (tables d)" "dep_env p = dep_env q"
    "deps r p = Some undesired" "d_state undesired = Undesired" "superseder r p = None"
    "deps r q = Some desired" "d_state desired = Desired" "superseder r q = None"
  shows "\<exists>arr arr'. arranges arr \<and> arranges arr' \<and>
    fst (current_deployment up arr (client_repo q) (client_env q) d) = Inr (Some undesired) \<and>
    fst (current_deployment up arr' (client_repo q) (client_env q) d) = Inr (Some desired)"
proof -
  have ids: "by_id_ok (deps r) (tables d)" "superseder_ok (superseder r) (tables d)" using assms(1) by (simp_all add: represents_def)
  have answer: "fst (current_deployment up (favour (DeploymentQid_display x)) (client_repo x) (client_env x) d) = Inr (Some dep)"
    if x: "deps r x = Some dep" "d_state dep \<noteq> Down" "superseder r x = None" for x dep
  proof -
    from first_row [OF assms(1) x(1,2)] obtain xs k where
      rows: "active_deployments_of up (favour (DeploymentQid_display x)) (client_repo x) d = (Inr (map Inr (dep # xs)), \<lparr>executed = k, tables = tables d\<rparr>)"
      by blast
    note wf = by_id_okD(2) [OF ids(1) x(1)] and qid = by_id_okD(1) [OF ids(1) x(1)]
    have env: "d_environment dep = client_env x" "\<lparr>dep_env = \<lparr>env_repo = client_repo x, env_id = d_environment dep\<rparr>, dep_id = d_deployment dep\<rparr> = x"
      using qid by (auto simp: deployment_qid_def)
    show ?thesis
      using rows env x(3) get_superseding_up [OF _ wf, of "superseder r" "\<lparr>executed = k, tables = tables d\<rparr>"] ids(2)
      by (simp add: current_deployment_def seq_def collect_rows_Inr of_result_def done_with_def split: sum.splits)
  qed
  show ?thesis
    using answer [OF assms(3) _ assms(5)] answer [OF assms(6) _ assms(8)] assms(2,4,7) arranges_favour by auto
qed

theorem current_deployment_is_ambiguous_witness:
  "\<exists>d arr arr' undesired desired.
    fst (current_deployment up arr (client_repo example_dep) (client_env example_dep) d) = Inr (Some undesired) \<and>
    fst (current_deployment up arr' (client_repo example_dep) (client_env example_dep) d) = Inr (Some desired) \<and>
    d_state undesired = Undesired \<and> d_state desired = Desired"
proof -
  let ?r1 = "abs_set example_dep 6 Undesired (abs_make_desired example_dep 5 no_deployments)"
  let ?r = "abs_make_desired example_dep2 7 ?r1"
  obtain d :: "CdbTables Db" where d: "represents (abs_make_desired example_dep 5 no_deployments) (tables d)"
    using example_run by blast
  from refinesD [OF dep_set_refines [OF example_deps(1), of 6 Undesired] this] obtain d1 :: "CdbTables Db" where
    "represents ?r1 (tables d1)" by blast
  from refinesD [OF make_desired_refines [OF example_deps(2) arranges_id, of 7] this] obtain d2 :: "CdbTables Db" where
    d2: "represents ?r (tables d2)" by blast
  obtain u v where u: "deps ?r example_dep = Some u" "d_state u = Undesired" "superseder ?r example_dep = None"
    "deps ?r example_dep2 = Some v" "d_state v = Desired" "superseder ?r example_dep2 = None"
    using example_deps(3) by (auto simp: abs_make_desired_def abs_set_def takes_over_def no_deployments_def)
  with current_deployment_is_ambiguous [OF d2, of example_dep example_dep2 u v] obtain arr arr' where
    "fst (current_deployment up arr (client_repo example_dep) (client_env example_dep) d2) = Inr (Some u)"
    "fst (current_deployment up arr' (client_repo example_dep) (client_env example_dep) d2) = Inr (Some v)" by auto
  with u show ?thesis by blast
qed

end
