(* ===== verification/De.thy ===== *)
theory De
  imports Complex_Main Cdb Rdb Rtq Sdb
begin

text \<open>
  The deployment engine, \<^verbatim>\<open>crates/de/src\<close>: the assignment of deployments to daemons, the status
  reporter, the worker of a deployment with its handler for each deployment state, the evaluation
  of a configuration with the messages its effects become, and the daemon that starts workers. The
  compiler and the evaluator (\<^verbatim>\<open>crates/sclc\<close>) and the lookup of \<^verbatim>\<open>Main.scl\<close> in the commit are
  parameters: what they answer in an iteration is part of its input. Logging is left out. The
  instants of the monotonic clock are nanoseconds.
\<close>

section \<open>Assignment of deployments to daemons\<close>

definition deployment_owned_by_worker :: "DeploymentId \<Rightarrow> 16 word \<Rightarrow> 16 word \<Rightarrow> bool" where
  "deployment_owned_by_worker dep idx workers =
    (if workers \<le> 1 then True
     else let hash = (case u64_from_str_radix_16 (take 16 (oid_hex (did_commit dep))) of None \<Rightarrow> 0 | Some h \<Rightarrow> h)
          in hash mod unat workers = unat idx)"

datatype DeStartError = DeNoWorkers | DeIndexTooLarge

definition de_check_args :: "16 word \<Rightarrow> 16 word \<Rightarrow> DeStartError + unit" where
  "de_check_args idx workers =
    (if workers = 0 then Inl DeNoWorkers
     else if idx \<ge> workers then Inl DeIndexTooLarge
     else Inr ())"

section \<open>Backoff\<close>

text \<open>
  The precision of \<^verbatim>\<open>f64::powi\<close> is unspecified, so the power is an argument; the delay is rounded to
  nanoseconds. The cast of the exponent to \<^verbatim>\<open>i32\<close> wraps.
\<close>

definition BACKOFF_INITIAL :: rat where
  "BACKOFF_INITIAL = 5"

definition BACKOFF_MAX :: rat where
  "BACKOFF_MAX = 24 * 60 * 60"

definition backoff_duration :: "(int \<Rightarrow> rat) \<Rightarrow> 32 word \<Rightarrow> int" where
  "backoff_duration pow failures =
    (if failures = 0 then 0
     else round (1000000000 * min (BACKOFF_INITIAL * pow (sint (failures - 1))) BACKOFF_MAX))"

section \<open>Reports\<close>

datatype FailureKind = FkBadConfiguration | FkCannotProgress | FkSystemError

fun failure_category :: "FailureKind \<Rightarrow> IncidentCategory" where
  "failure_category FkBadConfiguration = BadConfiguration"
| "failure_category FkCannotProgress = CannotProgress"
| "failure_category FkSystemError = SystemError"

fun operational_state_for :: "DeploymentState \<Rightarrow> DeploymentOperationalState" where
  "operational_state_for Desired = OpDesired"
| "operational_state_for Lingering = OpLingering"
| "operational_state_for Undesired = OpUndesired"
| "operational_state_for Down = OpDown"

datatype DeOutcome = DeSuccess | DeFailure FailureKind string

fun into_outcome :: "DeOutcome \<Rightarrow> Outcome" where
  "into_outcome DeSuccess = Success"
| "into_outcome (DeFailure kind msg) = Failure (failure_category kind) msg"

definition build_deployment_report ::
  "DeploymentQid \<Rightarrow> DeploymentState \<Rightarrow> bool \<Rightarrow> nat \<Rightarrow> int \<Rightarrow> DeOutcome \<Rightarrow> 'v Report" where
  "build_deployment_report q state terminal elapsed now out =
    \<lparr>entity_qid = EDeployment q, timestamp = now, outcome = into_outcome out,
     metrics = wall_time (of_nat (min elapsed (2 ^ 64 - 1))),
     extension = XDeployment \<lparr>dep_state = operational_state_for state, dep_terminal = terminal\<rparr>\<rparr>"

section \<open>Effects and iterations\<close>

datatype 'r Effect =
    CreateResource ResourceId 'r "ResourceId list" SourceTrace "DeploymentQid option"
  | UpdateResource ResourceId 'r "ResourceId list" SourceTrace "DeploymentQid option"
  | TouchResource ResourceId 'r "ResourceId list" SourceTrace "DeploymentQid option"

fun effect_owner :: "'r Effect \<Rightarrow> DeploymentQid option" where
  "effect_owner (CreateResource _ _ _ _ owner) = owner"
| "effect_owner (UpdateResource _ _ _ _ owner) = owner"
| "effect_owner (TouchResource _ _ _ _ owner) = owner"

fun effect_id :: "'r Effect \<Rightarrow> ResourceId" where
  "effect_id (CreateResource rid _ _ _ _) = rid"
| "effect_id (UpdateResource rid _ _ _ _) = rid"
| "effect_id (TouchResource rid _ _ _ _) = rid"

text \<open>
  What compiling a commit answers: a failure of the compiler itself, diagnostics with errors, or a
  program, that is whether the manifest has volatile pins and what evaluating it against the known
  resources emits and whether it ends in an error.
\<close>

datatype 'r Compiled =
    CompilerFailed string
  | CompileErrors string
  | Program bool "'r Resource list \<Rightarrow> 'r Effect list \<times> string option"

record 'r Iteration =
  it_main :: "string + bool"
  it_compiled :: "'r Compiled"
  it_checked_at :: int
  it_failed_at :: int
  it_elapsed :: nat
  it_now :: int

section \<open>A worker\<close>

datatype DeError =
    DeCdbQuery DeploymentQueryError | DeCdbSet SetDeploymentError | DeRdb ResourceError | DePublish | DeOther string

record ('r, 'v) DeEnv =
  de_client :: DeploymentQid
  de_region :: RegionId
  de_js :: "'r codec"
  de_to_value :: "'r \<Rightarrow> 'v option"
  de_error_text :: "DeError \<Rightarrow> string"
  de_powi :: "int \<Rightarrow> rat"
  de_cdb_net :: network
  de_sdb_net :: network
  de_rtq_net :: network
  de_rq_net :: network
  de_rdb_net :: "RegionId \<Rightarrow> network"

record 'v DeState =
  de_cdb :: "CdbTables Db"
  de_rdb :: "RegionId \<Rightarrow> RdbTables Db"
  de_sdb :: "SdbTables Db"
  de_rtq :: "(RegionId \<times> 'v Message) list Db"
  de_rq :: "(RegionId \<times> 'v Report) list Db"
  last_failure :: "(int \<times> FailureKind \<times> string) option"
  terminal_reported :: bool
  last_observed_state :: "DeploymentState option"

abbreviation de_ns :: "('r, 'v) DeEnv \<Rightarrow> string" where
  "de_ns env \<equiv> EnvironmentQid_display (dep_env (de_client env))"

abbreviation de_owner :: "('r, 'v) DeEnv \<Rightarrow> string" where
  "de_owner env \<equiv> DeploymentQid_display (de_client env)"

definition on_cdb :: "('e \<Rightarrow> DeError) \<Rightarrow> (CdbTables Db, 'e, 'a) op \<Rightarrow> ('v DeState, DeError, 'a) op" where
  "on_cdb f m = map_err f (lift_op de_cdb (\<lambda>s st. st\<lparr>de_cdb := s\<rparr>) m)"

definition on_region :: "RegionId \<Rightarrow> (RdbTables Db, ResourceError, 'a) op \<Rightarrow> ('v DeState, DeError, 'a) op" where
  "on_region r m = map_err DeRdb (lift_op (\<lambda>st. de_rdb st r) (\<lambda>s st. st\<lparr>de_rdb := (de_rdb st)(r := s)\<rparr>) m)"

definition on_status :: "(SdbTables Db, SdbError, 'a) op \<Rightarrow> ('v DeState, SdbError, 'a) op" where
  "on_status m = lift_op de_sdb (\<lambda>s st. st\<lparr>de_sdb := s\<rparr>) m"

text \<open>
  A queue is the list of what its broker has accepted. A message that cannot be encoded or sent is
  not accepted.
\<close>

definition enqueue_transition :: "('r, 'v) DeEnv \<Rightarrow> RegionId \<Rightarrow> 'v Message \<Rightarrow> ('v DeState, DeError, unit) op" where
  "enqueue_transition env region msg =
    lift_op de_rtq (\<lambda>s st. st\<lparr>de_rtq := s\<rparr>) (cql_write (de_rtq_net env) DePublish (\<lambda>q. q @ [(region, msg)]))"

definition enqueue_report :: "('r, 'v) DeEnv \<Rightarrow> 'v Report \<Rightarrow> ('v DeState, DeError, unit) op" where
  "enqueue_report env report =
    lift_op de_rq (\<lambda>s st. st\<lparr>de_rq := s\<rparr>) (cql_write (de_rq_net env) DePublish (\<lambda>q. q @ [(de_region env, report)]))"

definition publish_report :: "('r, 'v) DeEnv \<Rightarrow> 'v Report \<Rightarrow> 'v DeState \<Rightarrow> 'v DeState" where
  "publish_report env report st = snd (enqueue_report env report st)"

fun publish_attempts :: "nat \<Rightarrow> ('r, 'v) DeEnv \<Rightarrow> 'v Report \<Rightarrow> 'v DeState \<Rightarrow> 'v DeState" where
  "publish_attempts 0 env report st = st"
| "publish_attempts (Suc n) env report st =
    (case enqueue_report env report st of
       (Inr _, st') \<Rightarrow> st'
     | (Inl _, st') \<Rightarrow> publish_attempts n env report st')"

definition publish_terminal_report :: "('r, 'v) DeEnv \<Rightarrow> 'v Report \<Rightarrow> 'v DeState \<Rightarrow> 'v DeState" where
  "publish_terminal_report = publish_attempts 12"

section \<open>Signals from the status database\<close>

record SdbPreview =
  pv_failure_count :: "32 word option"
  pv_deployment_crash :: bool
  pv_resource_crash :: bool

definition any_open_crash :: "SdbPreview \<Rightarrow> bool" where
  "any_open_crash p \<longleftrightarrow> pv_deployment_crash p \<or> pv_resource_crash p"

definition failure_count :: "SdbPreview \<Rightarrow> 32 word" where
  "failure_count p = (case pv_failure_count p of None \<Rightarrow> 0 | Some n \<Rightarrow> n)"

definition probe_open_crash :: "('r, 'v) DeEnv \<Rightarrow> string \<Rightarrow> ('v DeState, 'e, bool) op" where
  "probe_open_crash env entity =
    seq (ok_op (on_status (find_open_incident_id (de_sdb_net env) entity Crash))) (\<lambda>found.
    done_with (case found of Some (Some _) \<Rightarrow> True | _ \<Rightarrow> False))"

definition probe_deployment :: "('r, 'v) DeEnv \<Rightarrow> ('v DeState, 'e, SdbPreview) op" where
  "probe_deployment env =
    seq (ok_op (on_status (status_summary (de_sdb_net env) (de_owner env)))) (\<lambda>summary.
    seq (probe_open_crash env (de_owner env)) (\<lambda>crash.
    done_with \<lparr>pv_failure_count = (case summary of Some (Some s) \<Rightarrow> Some (ss_consecutive_failure_count s) | _ \<Rightarrow> None),
      pv_deployment_crash = crash, pv_resource_crash = False\<rparr>))"

definition resource_id_from :: "'r Resource \<Rightarrow> ResourceId" where
  "resource_id_from r = \<lparr>rid_region = res_region r, rid_typ = res_resource_type r, rid_name = res_name r\<rparr>"

fun probe_resources :: "('r, 'v) DeEnv \<Rightarrow> (ResourceError + 'r Resource) list \<Rightarrow> ('v DeState, 'e, bool) op" where
  "probe_resources env [] = done_with False"
| "probe_resources env (Inl _ # rows) = done_with False"
| "probe_resources env (Inr r # rows) =
    (if res_owner r \<noteq> Some (de_owner env) then probe_resources env rows
     else seq (probe_open_crash env
         (ResourceQid_display \<lparr>res_env = dep_env (de_client env), res_id = resource_id_from r\<rparr>)) (\<lambda>crash.
       if crash then done_with True else probe_resources env rows))"

definition home_resources :: "('r, 'v) DeEnv \<Rightarrow> ('v DeState, DeError, (ResourceError + 'r Resource) list) op" where
  "home_resources env =
    on_region (de_region env) (list_resources (de_js env) (de_rdb_net env (de_region env)) (de_region env) (de_ns env))"

definition read_sdb_preview :: "('r, 'v) DeEnv \<Rightarrow> ('v DeState, 'e, SdbPreview) op" where
  "read_sdb_preview env =
    seq (probe_deployment env) (\<lambda>preview.
    seq (ok_op (home_resources env)) (\<lambda>listed.
    case listed of
      None \<Rightarrow> done_with preview
    | Some rows \<Rightarrow> seq (probe_resources env rows) (\<lambda>crash. done_with (preview\<lparr>pv_resource_crash := crash\<rparr>))))"

section \<open>Compiling and evaluating\<close>

definition map_dependencies :: "EnvironmentQid \<Rightarrow> ResourceId list \<Rightarrow> ResourceRef list" where
  "map_dependencies env_qid deps = map (\<lambda>dep. \<lparr>ref_env = env_qid, ref_id = dep\<rparr>) deps"

definition resource_ref :: "EnvironmentQid \<Rightarrow> ResourceId \<Rightarrow> ResourceRef" where
  "resource_ref env_qid rid = \<lparr>ref_env = env_qid, ref_id = rid\<rparr>"

definition extract_deployment_identity :: "string \<Rightarrow> DeploymentId option" where
  "extract_deployment_identity owner =
    (case DeploymentQid_from_str owner of Inl _ \<Rightarrow> None | Inr qid \<Rightarrow> Some (dep_id qid))"

definition enqueue_message :: "('r, 'v) DeEnv \<Rightarrow> 'v Message \<Rightarrow> ResourceId \<Rightarrow> 'v DeState \<Rightarrow> 'v DeState" where
  "enqueue_message env msg rid st = snd (enqueue_transition env (rid_region rid) msg st)"

record Known =
  unowned_owner :: "ResourceId \<rightharpoonup> string"
  volatile_ids :: "ResourceId set"
  volatile_owned :: bool

definition nothing_known :: Known where
  "nothing_known = \<lparr>unowned_owner = Map.empty, volatile_ids = {}, volatile_owned = False\<rparr>"

definition absorb_resource :: "string \<Rightarrow> 'r Resource \<Rightarrow> Known \<Rightarrow> Known" where
  "absorb_resource owner_qid r k =
    (let rid = resource_id_from r;
         is_owned = (res_owner r = Some owner_qid);
         k1 = (case res_owner r of
                 Some owner \<Rightarrow> if \<not> is_owned then k\<lparr>unowned_owner := (unowned_owner k)(rid \<mapsto> owner)\<rparr> else k
               | None \<Rightarrow> k)
     in if Volatile \<in> res_markers r
        then k1\<lparr>volatile_ids := insert rid (volatile_ids k1), volatile_owned := (volatile_owned k1 \<or> is_owned)\<rparr>
        else k1)"

record Drain =
  had_effect :: bool
  had_mutation :: bool
  touched :: "ResourceId set"

definition adopt_message ::
  "('r, 'v) DeEnv \<Rightarrow> ResourceId \<Rightarrow> DeploymentId \<Rightarrow> 'v \<Rightarrow> ResourceId list \<Rightarrow> SourceTrace \<Rightarrow> 'v Message" where
  "adopt_message env rid from inputs deps trace =
    Adopt \<lparr>am_resource = resource_ref (dep_env (de_client env)) rid, am_from_deployment_id = from,
      am_to_deployment_id = dep_id (de_client env), am_home_region = de_region env, am_desired_inputs = inputs,
      am_dependencies = map_dependencies (dep_env (de_client env)) deps, am_source_trace = trace\<rparr>"

text \<open>The message an effect of this deployment is turned into, if any.\<close>

fun effect_message :: "('r, 'v) DeEnv \<Rightarrow> Known \<Rightarrow> 'r Effect \<Rightarrow> 'v Message option" where
  "effect_message env k (CreateResource rid inputs deps trace _) =
    (case de_to_value env inputs of
       None \<Rightarrow> None
     | Some v \<Rightarrow> Some (Create \<lparr>cm_resource = resource_ref (dep_env (de_client env)) rid,
         cm_deployment_id = dep_id (de_client env), cm_home_region = de_region env, cm_inputs = v,
         cm_dependencies = map_dependencies (dep_env (de_client env)) deps, cm_source_trace = trace\<rparr>))"
| "effect_message env k (UpdateResource rid inputs deps trace _) =
    (case de_to_value env inputs of
       None \<Rightarrow> None
     | Some v \<Rightarrow>
         (case unowned_owner k rid of
            Some owner \<Rightarrow> map_option (\<lambda>from. adopt_message env rid from v deps trace) (extract_deployment_identity owner)
          | None \<Rightarrow> Some (Restore \<lparr>rm_resource = resource_ref (dep_env (de_client env)) rid,
              rm_deployment_id = dep_id (de_client env), rm_home_region = de_region env, rm_desired_inputs = v,
              rm_dependencies = map_dependencies (dep_env (de_client env)) deps, rm_source_trace = trace\<rparr>)))"
| "effect_message env k (TouchResource rid inputs deps trace _) =
    (case unowned_owner k rid of
       Some owner \<Rightarrow>
         (case de_to_value env inputs of
            None \<Rightarrow> None
          | Some v \<Rightarrow> map_option (\<lambda>from. adopt_message env rid from v deps trace) (extract_deployment_identity owner))
     | None \<Rightarrow>
         if rid \<in> volatile_ids k
         then Some (Check \<lparr>km_resource = resource_ref (dep_env (de_client env)) rid,
           km_deployment_id = dep_id (de_client env), km_home_region = de_region env\<rparr>)
         else None)"

fun note_effect :: "Known \<Rightarrow> 'r Effect \<Rightarrow> Drain \<Rightarrow> Drain" where
  "note_effect k (CreateResource rid _ _ _ _) d = d\<lparr>had_effect := True, had_mutation := True, touched := insert rid (touched d)\<rparr>"
| "note_effect k (UpdateResource rid _ _ _ _) d = d\<lparr>had_effect := True, had_mutation := True, touched := insert rid (touched d)\<rparr>"
| "note_effect k (TouchResource rid _ _ _ _) d =
    d\<lparr>had_effect := (had_effect d \<or> unowned_owner k rid \<noteq> None), touched := insert rid (touched d)\<rparr>"

fun drain_effects :: "('r, 'v) DeEnv \<Rightarrow> Known \<Rightarrow> 'r Effect list \<Rightarrow> Drain \<Rightarrow> 'v DeState \<Rightarrow> Drain \<times> 'v DeState" where
  "drain_effects env k [] d st = (d, st)"
| "drain_effects env k (e # es) d st =
    (if effect_owner e \<noteq> Some (de_client env) then drain_effects env k es d st
     else drain_effects env k es (note_effect k e d)
       (case effect_message env k e of None \<Rightarrow> st | Some msg \<Rightarrow> enqueue_message env msg (effect_id e) st))"

record EvalOutcome =
  touched_resource_ids :: "ResourceId set"
  fully_explored :: bool
  eo_had_effect :: bool
  compile_error_message :: "string option"
  has_volatile_owned_resource :: bool
  has_volatile_cross_repo_pins :: bool

text \<open>
  The other regions that host resources of the environment are read concurrently and their
  resources are absorbed region by region; resources of different regions have different
  identifiers.
\<close>

fun region_reads :: "('r, 'v) DeEnv \<Rightarrow> RegionId list \<Rightarrow> ('v DeState, DeError, 'r Resource list) op" where
  "region_reads env [] = done_with []"
| "region_reads env (r # rs) =
    seq (on_region r (list_resources (de_js env) (de_rdb_net env r) r (de_ns env))) (\<lambda>rows.
    seq (map_err DeRdb (of_result (collect_rows rows))) (\<lambda>found.
    seq (region_reads env rs) (\<lambda>others. done_with (found @ others))))"

definition all_known_resources :: "('r, 'v) DeEnv \<Rightarrow> ('v DeState, DeError, 'r Resource list) op" where
  "all_known_resources env =
    seq (home_resources env) (\<lambda>rows.
    seq (map_err DeRdb (of_result (collect_rows rows))) (\<lambda>home.
    seq (on_region (de_region env) (list_resource_regions (de_rdb_net env (de_region env)) (de_ns env))) (\<lambda>index.
    seq (region_reads env (remdups (filter (\<lambda>r. r \<noteq> de_region env) (map rg_region index)))) (\<lambda>remote.
    done_with (home @ remote)))))"

definition compile_and_evaluate :: "('r, 'v) DeEnv \<Rightarrow> 'r Iteration \<Rightarrow> ('v DeState, DeError, EvalOutcome) op" where
  "compile_and_evaluate env it =
    (case it_compiled it of
       CompilerFailed msg \<Rightarrow> fail_with (DeOther msg)
     | CompileErrors msg \<Rightarrow>
         done_with \<lparr>touched_resource_ids = {}, fully_explored = False, eo_had_effect = False,
           compile_error_message = Some msg, has_volatile_owned_resource = False, has_volatile_cross_repo_pins = False\<rparr>
     | Program pins evaluate \<Rightarrow>
         seq (all_known_resources env) (\<lambda>resources st.
           let k = fold (absorb_resource (de_owner env)) resources nothing_known;
               (d, st') = drain_effects env k (fst (evaluate resources))
                 \<lparr>had_effect = False, had_mutation = False, touched = {}\<rparr> st
           in (Inr \<lparr>touched_resource_ids = touched d, fully_explored = (\<not> had_mutation d), eo_had_effect = had_effect d,
                 compile_error_message = None, has_volatile_owned_resource = volatile_owned k,
                 has_volatile_cross_repo_pins = pins\<rparr>, st')))"

section \<open>Tearing down\<close>

definition destroy_message :: "('r, 'v) DeEnv \<Rightarrow> DeploymentId \<Rightarrow> ResourceId \<Rightarrow> 'v Message" where
  "destroy_message env dep rid =
    Destroy \<lparr>dm_resource = resource_ref (dep_env (de_client env)) rid, dm_deployment_id = dep,
      dm_home_region = de_region env\<rparr>"

definition enqueue_destroy :: "('r, 'v) DeEnv \<Rightarrow> DeploymentId \<Rightarrow> 'r Resource \<Rightarrow> ('v DeState, DeError, unit) op" where
  "enqueue_destroy env dep r =
    enqueue_transition env (rid_region (resource_id_from r)) (destroy_message env dep (resource_id_from r))"

definition dependency_targets :: "'r Resource list \<Rightarrow> ResourceId set" where
  "dependency_targets rs = set (concat (map res_dependencies rs))"

definition destroy_untouched_resources :: "('r, 'v) DeEnv \<Rightarrow> string \<Rightarrow> DeploymentId \<Rightarrow> ResourceId set
    \<Rightarrow> ('v DeState, DeError, unit) op" where
  "destroy_untouched_resources env owner dep touched_ids =
    seq (home_resources env) (\<lambda>rows.
    seq (map_err DeRdb (of_result (collect_rows rows))) (\<lambda>all.
    let untouched_owned = filter (\<lambda>r. res_owner r = Some owner \<and> resource_id_from r \<notin> touched_ids) all;
        living = dependency_targets
          (filter (\<lambda>r. res_owner r \<noteq> Some owner \<or> resource_id_from r \<in> touched_ids) all)
    in seq_list (enqueue_destroy env dep)
         (filter (\<lambda>r. Sticky \<notin> res_markers r \<and> resource_id_from r \<notin> living) untouched_owned)))"

text \<open>
  What a teardown destroys: the deployment's resources that are not sticky and that no resource
  depends on, other than the deployment's sticky ones.
\<close>

definition living_targets :: "string \<Rightarrow> 'r Resource list \<Rightarrow> ResourceId set" where
  "living_targets owner all =
    dependency_targets (filter (\<lambda>r. \<not> (res_owner r = Some owner \<and> Sticky \<in> res_markers r)) all)"

definition doomed :: "string \<Rightarrow> 'r Resource list \<Rightarrow> 'r Resource list" where
  "doomed owner all =
    filter (\<lambda>r. res_owner r = Some owner \<and> Sticky \<notin> res_markers r \<and> resource_id_from r \<notin> living_targets owner all) all"

definition run_undesired :: "('r, 'v) DeEnv \<Rightarrow> Deployment \<Rightarrow> int \<Rightarrow> ('v DeState, DeError, unit) op" where
  "run_undesired env d now =
    seq (home_resources env) (\<lambda>rows.
    seq (map_err DeRdb (of_result (collect_rows rows))) (\<lambda>all.
    let owner = DeploymentQid_display (deployment_qid d);
        owned = filter (\<lambda>r. res_owner r = Some owner) all
    in seq (seq_list (enqueue_destroy env (d_deployment d)) (doomed owner all)) (\<lambda>_.
       if doomed owner all \<noteq> [] then done_with ()
       else if \<not> list_ex (\<lambda>r. Sticky \<notin> res_markers r) owned
       then on_cdb DeCdbSet (dep_set (de_cdb_net env) (de_client env) now Down)
       else done_with ())))"

section \<open>Supersession\<close>

definition retire :: "('r, 'v) DeEnv \<Rightarrow> int \<Rightarrow> DeploymentQid \<Rightarrow> ('v DeState, DeError, unit) op" where
  "retire env now q =
    seq (on_cdb DeCdbQuery (dep_get (de_cdb_net env) q)) (\<lambda>d.
    if d_state d = Desired \<or> d_state d = Lingering
    then on_cdb DeCdbSet (dep_set (de_cdb_net env) q now Undesired)
    else done_with ())"

definition transition_superseded_to_undesired :: "('r, 'v) DeEnv \<Rightarrow> int \<Rightarrow> ('v DeState, DeError, unit) op" where
  "transition_superseded_to_undesired env now =
    seq (on_cdb DeCdbQuery (superseded (de_cdb_net env) (de_client env))) (seq_list (retire env now))"

text \<open>
  The walk along the supersession chain, with fuel: \<open>Some True\<close> when it ends at a current
  deployment that is bootstrapped, \<open>Some False\<close> when it ends otherwise, \<open>None\<close> out of fuel.
\<close>

fun follow_supersessions ::
  "nat \<Rightarrow> network \<Rightarrow> DeploymentQid \<Rightarrow> DeploymentId set \<Rightarrow> (CdbTables Db, DeploymentQueryError, bool option) op" where
  "follow_supersessions 0 net cursor seen = done_with None"
| "follow_supersessions (Suc n) net cursor seen =
    seq (get_superseding net cursor) (\<lambda>by.
    case by of
      None \<Rightarrow> done_with (Some False)
    | Some superseding \<Rightarrow>
        seq (dep_get net superseding) (\<lambda>d.
        if d_deployment d \<in> seen then done_with (Some False)
        else seq (get_superseding net superseding) (\<lambda>next.
          if next = None then done_with (Some (d_bootstrapped d))
          else follow_supersessions n net superseding (insert (d_deployment d) seen))))"

text \<open>The walk never visits more deployments than the organization has supersessions.\<close>

definition chain_fuel :: "DeploymentQid \<Rightarrow> CdbTables \<Rightarrow> nat" where
  "chain_fuel q t = Suc (Suc (length (supersessions t (org_str (qid_org (client_repo q))))))"

definition run_lingering :: "('r, 'v) DeEnv \<Rightarrow> int \<Rightarrow> ('v DeState, DeError, unit) op" where
  "run_lingering env now =
    seq (read_state (\<lambda>st. chain_fuel (de_client env) (tables (de_cdb st)))) (\<lambda>fuel.
    seq (on_cdb DeCdbQuery (follow_supersessions fuel (de_cdb_net env) (de_client env) {})) (\<lambda>bootstrapped.
    if bootstrapped = Some True then on_cdb DeCdbSet (dep_set (de_cdb_net env) (de_client env) now Undesired)
    else done_with ()))"

section \<open>An iteration of the worker\<close>

record WorkResult =
  wr_keep_running :: bool
  wr_state :: DeploymentState
  wr_outcome :: DeOutcome
  wr_backoff_replay :: bool

definition worked :: "bool \<Rightarrow> DeploymentState \<Rightarrow> DeOutcome \<Rightarrow> WorkResult" where
  "worked keep state out = \<lparr>wr_keep_running = keep, wr_state = state, wr_outcome = out, wr_backoff_replay = False\<rparr>"

text \<open>An operation whose failure is handled by what follows.\<close>

definition tried :: "('s, 'e, 'a) op \<Rightarrow> ('s, 'f, 'e + 'a) op" where
  "tried m s = (case m s of (r, s') \<Rightarrow> (Inr r, s'))"

definition backing_off :: "('r, 'v) DeEnv \<Rightarrow> SdbPreview \<Rightarrow> int \<Rightarrow> 'v DeState \<Rightarrow> (FailureKind \<times> string) option" where
  "backing_off env preview now st =
    (if failure_count preview > 0
     then (case last_failure st of
             Some (since, kind, msg) \<Rightarrow> if now - since < backoff_duration (de_powi env) (failure_count preview) then Some (kind, msg) else None
           | None \<Rightarrow> None)
     else None)"

definition converged :: "('r, 'v) DeEnv \<Rightarrow> int \<Rightarrow> Deployment \<Rightarrow> EvalOutcome \<Rightarrow> ('v DeState, DeError, WorkResult) op" where
  "converged env now d ev =
    seq (if d_bootstrapped d then done_with () else on_cdb DeCdbSet (set_progress (de_cdb_net env) (de_client env) True)) (\<lambda>_.
    seq (transition_superseded_to_undesired env now) (\<lambda>_.
    done_with (worked (has_volatile_owned_resource ev \<or> has_volatile_cross_repo_pins ev) Desired DeSuccess)))"

definition evaluated :: "('r, 'v) DeEnv \<Rightarrow> int \<Rightarrow> Deployment \<Rightarrow> EvalOutcome \<Rightarrow> ('v DeState, DeError, WorkResult) op" where
  "evaluated env now d ev =
    (case compile_error_message ev of
       Some msg \<Rightarrow> done_with (worked True Desired (DeFailure FkBadConfiguration msg))
     | None \<Rightarrow>
         seq (if fully_explored ev
              then destroy_untouched_resources env (DeploymentQid_display (deployment_qid d)) (d_deployment d) (touched_resource_ids ev)
              else done_with ()) (\<lambda>_.
         if \<not> eo_had_effect ev then converged env now d ev
         else done_with (worked True Desired DeSuccess)))"

definition no_main :: "('r, 'v) DeEnv \<Rightarrow> int \<Rightarrow> Deployment \<Rightarrow> ('v DeState, DeError, WorkResult) op" where
  "no_main env now d =
    seq (if d_bootstrapped d then done_with ()
         else seq (on_cdb DeCdbSet (set_progress (de_cdb_net env) (de_client env) True))
           (\<lambda>_. transition_superseded_to_undesired env now)) (\<lambda>_.
    done_with (worked False Desired DeSuccess))"

definition reconcile :: "('r, 'v) DeEnv \<Rightarrow> 'r Iteration \<Rightarrow> Deployment \<Rightarrow> ('v DeState, DeError, WorkResult) op" where
  "reconcile env it d =
    seq (on_cdb DeCdbQuery (get_superseding (de_cdb_net env) (de_client env))) (\<lambda>by.
    if by \<noteq> None
    then seq (on_cdb DeCdbSet (dep_set (de_cdb_net env) (de_client env) (it_now it) Lingering))
      (\<lambda>_. done_with (worked True Desired DeSuccess))
    else seq (map_err DeOther (of_result (it_main it))) (\<lambda>has_main.
      if \<not> has_main then no_main env (it_now it) d
      else seq (tried (compile_and_evaluate env it)) (\<lambda>r.
        case r of
          Inl e \<Rightarrow> done_with (worked True Desired (DeFailure FkCannotProgress (de_error_text env e)))
        | Inr ev \<Rightarrow> evaluated env (it_now it) d ev)))"

definition run_desired :: "('r, 'v) DeEnv \<Rightarrow> 'r Iteration \<Rightarrow> Deployment \<Rightarrow> SdbPreview \<Rightarrow> ('v DeState, DeError, WorkResult) op" where
  "run_desired env it d preview =
    (if any_open_crash preview then done_with (worked True Desired DeSuccess)
     else seq (read_state (backing_off env preview (it_checked_at it))) (\<lambda>backoff.
       case backoff of
         Some (kind, msg) \<Rightarrow> done_with ((worked True Desired (DeFailure kind msg))\<lparr>wr_backoff_replay := True\<rparr>)
       | None \<Rightarrow> reconcile env it d))"

fun run_state :: "('r, 'v) DeEnv \<Rightarrow> 'r Iteration \<Rightarrow> SdbPreview \<Rightarrow> Deployment \<Rightarrow> DeploymentState \<Rightarrow> ('v DeState, DeError, WorkResult) op" where
  "run_state env it preview d Down = done_with (worked True Down DeSuccess)"
| "run_state env it preview d Desired = run_desired env it d preview"
| "run_state env it preview d Lingering =
    seq (run_lingering env (it_now it)) (\<lambda>_. done_with (worked True Lingering DeSuccess))"
| "run_state env it preview d Undesired =
    seq (run_undesired env d (it_now it)) (\<lambda>_. done_with (worked True Undesired DeSuccess))"

definition work :: "('r, 'v) DeEnv \<Rightarrow> 'r Iteration \<Rightarrow> SdbPreview \<Rightarrow> ('v DeState, DeError, WorkResult) op" where
  "work env it preview =
    seq (on_cdb DeCdbQuery (dep_get (de_cdb_net env) (de_client env))) (\<lambda>d.
    seq (run_state env it preview d (d_state d)) (\<lambda>wr.
    seq (on_cdb DeCdbQuery (dep_get (de_cdb_net env) (de_client env))) (\<lambda>d'.
    seq (modify_state (\<lambda>st. st\<lparr>last_observed_state := Some (d_state d')\<rparr>)) (\<lambda>_.
    done_with (wr\<lparr>wr_state := d_state d'\<rparr>)))))"

definition note_failure :: "int \<Rightarrow> WorkResult \<Rightarrow> 'v DeState \<Rightarrow> 'v DeState" where
  "note_failure now wr st =
    (case wr_outcome wr of
       DeSuccess \<Rightarrow> st\<lparr>last_failure := None\<rparr>
     | DeFailure kind msg \<Rightarrow> if wr_backoff_replay wr then st else st\<lparr>last_failure := Some (now, kind, msg)\<rparr>)"

text \<open>What an iteration reports after an error of the infrastructure.\<close>

definition settle_work :: "('r, 'v) DeEnv \<Rightarrow> DeError + WorkResult \<Rightarrow> 'v DeState \<Rightarrow> WorkResult" where
  "settle_work env r st =
    (case r of
       Inr wr \<Rightarrow> wr
     | Inl e \<Rightarrow> worked True (case last_observed_state st of Some s \<Rightarrow> s | None \<Rightarrow> Desired)
         (DeFailure FkSystemError (de_error_text env e)))"

definition work_and_report :: "('r, 'v) DeEnv \<Rightarrow> 'r Iteration \<Rightarrow> 'v DeState \<Rightarrow> bool \<times> 'v DeState" where
  "work_and_report env it st =
    (if terminal_reported st then (True, st)
     else
       let (r, st1) = seq (read_sdb_preview env) (work env it) st;
           wr = settle_work env r st1;
           st2 = note_failure (it_failed_at it) wr st1;
           terminal = (wr_state wr = Down \<or> \<not> wr_keep_running wr);
           report = build_deployment_report (de_client env) (wr_state wr) terminal (it_elapsed it) (it_now it) (wr_outcome wr)
       in if terminal then (True, (publish_terminal_report env report st2)\<lparr>terminal_reported := True\<rparr>)
          else (False, publish_report env report st2))"

text \<open>
  The loop of a worker: each turn it looks for a stop signal, whether sent or by the sender going
  away, and otherwise runs an iteration. It has exited when the first component is true.
\<close>

fun run_loop :: "('r, 'v) DeEnv \<Rightarrow> (bool \<times> 'r Iteration) list \<Rightarrow> 'v DeState \<Rightarrow> bool \<times> 'v DeState" where
  "run_loop env [] st = (False, st)"
| "run_loop env ((stop_signal, it) # turns) st =
    (if stop_signal then (True, st)
     else case work_and_report env it st of
       (True, st') \<Rightarrow> (True, st')
     | (False, st') \<Rightarrow> run_loop env turns st')"

section \<open>The daemon\<close>

datatype Slot = Running | Idle

record DaemonState =
  dm_cdb :: "CdbTables Db"
  dm_workers :: "string \<rightharpoonup> Slot"
  dm_spawned :: "DeploymentQid list"

text \<open>
  What a daemon is given: its index and the number of daemons, how the database behaves and orders
  its answers, which workers have exited, and whether the log topic of a deployment can be opened.
\<close>

record Daemon =
  dm_index :: "16 word"
  dm_count :: "16 word"
  dm_net :: network
  dm_arrange :: arrange
  dm_orgs :: "string list"
  dm_exited :: "string \<Rightarrow> bool"
  dm_topic :: "string \<Rightarrow> bool"

definition on_daemon_cdb :: "(CdbTables Db, 'e, 'a) op \<Rightarrow> (DaemonState, 'e, 'a) op" where
  "on_daemon_cdb m = lift_op dm_cdb (\<lambda>s st. st\<lparr>dm_cdb := s\<rparr>) m"

definition flip_exited :: "(string \<Rightarrow> bool) \<Rightarrow> (string \<rightharpoonup> Slot) \<Rightarrow> (string \<rightharpoonup> Slot)" where
  "flip_exited exited workers q =
    (case workers q of Some Running \<Rightarrow> if exited q then Some Idle else Some Running | slot \<Rightarrow> slot)"

definition should_spawn :: "network \<Rightarrow> DeploymentQid \<Rightarrow> (DaemonState, DeploymentQueryError, bool) op" where
  "should_spawn net q =
    seq (read_state (\<lambda>st. dm_workers st (DeploymentQid_display q))) (\<lambda>slot.
    case slot of
      Some Running \<Rightarrow> done_with False
    | Some Idle \<Rightarrow> seq (on_daemon_cdb (get_superseding net q)) (\<lambda>by. done_with (by \<noteq> None))
    | None \<Rightarrow> done_with True)"

definition visit_deployment :: "Daemon \<Rightarrow> Deployment \<Rightarrow> (DaemonState, DeploymentQueryError, unit) op" where
  "visit_deployment dm d =
    (let q = deployment_qid d; key = DeploymentQid_display q in
     seq (should_spawn (dm_net dm) q) (\<lambda>spawn.
     if spawn \<and> dm_topic dm key
     then modify_state (\<lambda>st. st\<lparr>dm_workers := (dm_workers st)(key \<mapsto> Running), dm_spawned := dm_spawned st @ [q]\<rparr>)
     else done_with ()))"

fun visit_deployments ::
  "Daemon \<Rightarrow> (DeploymentQueryError + Deployment) list \<Rightarrow> string set \<Rightarrow> (DaemonState, DeploymentQueryError, string set) op" where
  "visit_deployments dm [] untouched = done_with untouched"
| "visit_deployments dm (Inl e # rows) untouched = fail_with e"
| "visit_deployments dm (Inr d # rows) untouched =
    seq (visit_deployment dm d) (\<lambda>_. visit_deployments dm rows (untouched - {DeploymentQid_display (deployment_qid d)}))"

definition daemon_process :: "Daemon \<Rightarrow> (DaemonState, DeploymentQueryError, unit) op" where
  "daemon_process dm =
    seq (on_daemon_cdb (all_active_deployments (dm_net dm) (dm_arrange dm) (dm_orgs dm))) (\<lambda>rows.
    let mine = filter (\<lambda>row. case row of Inr d \<Rightarrow> deployment_owned_by_worker (d_deployment d) (dm_index dm) (dm_count dm)
                                       | Inl _ \<Rightarrow> True) rows
    in seq (modify_state (\<lambda>st. st\<lparr>dm_workers := flip_exited (dm_exited dm) (dm_workers st)\<rparr>)) (\<lambda>_.
       seq (read_state (\<lambda>st. dom (dm_workers st))) (\<lambda>keys.
       seq (visit_deployments dm mine keys) (\<lambda>untouched.
       modify_state (\<lambda>st. st\<lparr>dm_workers := dm_workers st |` (- untouched)\<rparr>)))))"

end
