(* ===== verification/De_Reconcile.thy ===== *)
theory De_Reconcile
  imports De Cdb_Registry Sdb_Lifecycle
begin

text \<open>
  What the deployment engine guarantees: a deployment has one daemon, a worker reports once per
  iteration and says when it stops, a lingering deployment waits for the deployment at the end of
  its supersession chain, and a deployment is torn down in dependency order.
\<close>

section \<open>Daemons\<close>

text \<open>
  With a valid number of daemons, exactly one daemon that passes the check of its arguments owns
  a given deployment.
\<close>

theorem one_daemon_owns_deployment:
  assumes "0 < workers"
  shows "\<exists>!idx. de_check_args idx workers = Inr () \<and> deployment_owned_by_worker dep idx workers"
proof (cases "workers = 1")
  case True
  have "idx < 1 \<longleftrightarrow> idx = 0" for idx :: "16 word" by (simp add: word_less_nat_alt unat_eq_0)
  then show ?thesis by (auto simp: True de_check_args_def deployment_owned_by_worker_def linorder_not_le)
next
  case False
  define hash where "hash = (case u64_from_str_radix_16 (take 16 (oid_hex (did_commit dep))) of None \<Rightarrow> 0 | Some h \<Rightarrow> h)"
  define target where "target = hash mod unat workers"
  have "0 < unat workers" using assms by (simp add: word_less_nat_alt)
  then have t: "target < unat workers" by (simp add: target_def)
  then have ut: "unat (of_nat target :: 16 word) = target"
    using unsigned_less [of workers, where 'a = nat] by (simp add: unat_of_nat take_bit_nat_eq_self)
  have "unat workers \<noteq> unat (1 :: 16 word)" using False unsigned_word_eqI by blast
  with assms have large: "\<not> workers \<le> 1" by (simp add: word_le_nat_alt word_less_nat_alt)
  have owned: "deployment_owned_by_worker dep idx workers \<longleftrightarrow> unat idx = target" for idx
    using large by (auto simp: deployment_owned_by_worker_def hash_def target_def Let_def)
  have args: "de_check_args idx workers = Inr () \<longleftrightarrow> unat idx < unat workers" for idx
    using assms by (auto simp: de_check_args_def word_le_nat_alt)
  show ?thesis
    unfolding owned args by (rule ex1I [of _ "of_nat target"]) (use t ut in auto)
qed

theorem one_daemon_owns_deployment_witness:
  "\<exists>!idx. de_check_args idx 3 = Inr () \<and> deployment_owned_by_worker (example_did 7) idx 3"
  using one_daemon_owns_deployment [of 3 "example_did 7"] by simp

section \<open>One report per iteration\<close>

lemma frames_ok_op: "frames f m \<Longrightarrow> frames f (ok_op m)"
  by (auto simp: frames_def ok_op_def split: prod.splits sum.splits) (metis snd_conv)+

lemma frames_tried: "frames f m \<Longrightarrow> frames f (tried m)"
  by (auto simp: frames_def tried_def split: prod.splits) (metis snd_conv)+

text \<open>The parts of a worker's state that only reporting changes.\<close>

definition reporting :: "'v DeState \<Rightarrow> (RegionId \<times> 'v Report) list Db \<times> bool" where
  "reporting st = (de_rq st, terminal_reported st)"

lemma reporting_simps [simp]:
  "reporting (st\<lparr>de_cdb := a\<rparr>) = reporting st" "reporting (st\<lparr>de_rdb := b\<rparr>) = reporting st"
  "reporting (st\<lparr>de_sdb := c\<rparr>) = reporting st" "reporting (st\<lparr>de_rtq := e\<rparr>) = reporting st"
  "reporting (st\<lparr>last_failure := g\<rparr>) = reporting st" "reporting (st\<lparr>last_observed_state := h\<rparr>) = reporting st"
  by (simp_all add: reporting_def)

lemma silent_ops:
  "frames reporting (on_cdb f m)" "frames reporting (on_region r m')" "frames reporting (on_status m'')"
  "frames reporting (enqueue_transition env region msg)"
  by (simp_all add: on_cdb_def on_region_def on_status_def enqueue_transition_def frames_map_err frames_lift)

lemmas silent_intros = frames_intros frames_ok_op frames_tried silent_ops

lemma silent_home: "frames reporting (home_resources env)"
  unfolding home_resources_def by (rule silent_ops)

lemma silent_probe: "frames reporting (probe_open_crash env entity)"
  unfolding probe_open_crash_def by (intro silent_intros)

lemma silent_probes: "frames reporting (probe_resources env rows)"
  by (induction env rows rule: probe_resources.induct) (auto intro!: silent_intros silent_probe)

lemma silent_preview: "frames reporting (read_sdb_preview env)"
  unfolding read_sdb_preview_def probe_deployment_def by (intro silent_intros silent_probe silent_home silent_probes)

lemma silent_regions: "frames reporting (region_reads env rs)"
  by (induction env rs rule: region_reads.induct) (auto intro!: silent_intros)

lemma silent_known: "frames reporting (all_known_resources env)"
  unfolding all_known_resources_def by (intro silent_intros silent_home silent_regions)

lemma silent_drain: "reporting (snd (drain_effects env k es d st)) = reporting st"
  by (induction env k es d st rule: drain_effects.induct)
    (auto simp: enqueue_message_def framesD [OF silent_ops(4)] split: option.splits)

lemma silent_evaluate: "frames reporting (compile_and_evaluate env it)"
proof (cases "it_compiled it")
  case (Program pins evaluate)
  show ?thesis
    unfolding compile_and_evaluate_def Program Compiled.case
    by (rule frames_seq [OF silent_known]) (simp add: frames_def Let_def case_prod_beta silent_drain)
qed (simp_all add: compile_and_evaluate_def frames_done frames_fail)

lemma silent_destroy: "frames reporting (enqueue_destroy env dep r)"
  unfolding enqueue_destroy_def by (rule silent_ops)

lemma silent_untouched: "frames reporting (destroy_untouched_resources env owner dep ids)"
  unfolding destroy_untouched_resources_def Let_def by (intro silent_intros silent_home silent_destroy)

lemma silent_undesired: "frames reporting (run_undesired env d now)"
  unfolding run_undesired_def Let_def by (intro silent_intros silent_home silent_destroy)

lemma silent_transition: "frames reporting (transition_superseded_to_undesired env now)"
  unfolding transition_superseded_to_undesired_def retire_def by (intro silent_intros)

lemma silent_reconcile: "frames reporting (reconcile env it d)"
  unfolding reconcile_def evaluated_def converged_def no_main_def
  by (intro silent_intros silent_transition silent_untouched silent_evaluate)

lemma silent_state: "frames reporting (run_state env it preview d s)"
  by (cases s) (auto simp: run_desired_def run_lingering_def intro!: silent_intros silent_undesired silent_reconcile)

lemma silent_work: "frames reporting (seq (read_sdb_preview env) (work env it))"
  unfolding work_def by (intro silent_intros silent_preview silent_state) (simp add: reporting_def)

lemma de_publish_up:
  assumes "de_rq_net env = up"
  shows "tables (de_rq (publish_report env report st)) = tables (de_rq st) @ [(de_region env, report)]"
    "tables (de_rq (publish_terminal_report env report st)) = tables (de_rq st) @ [(de_region env, report)]"
    "terminal_reported (publish_report env report st) = terminal_reported st"
  using assms
  by (simp_all add: publish_report_def publish_terminal_report_def enqueue_report_def lift_op_def numeral_eq_Suc)

lemma note_failure_silent: "reporting (note_failure now wr st) = reporting st"
  by (simp add: note_failure_def split: DeOutcome.splits)

text \<open>An iteration adds one report of the deployment, which is terminal when the worker stops.\<close>

lemma iteration_reports:
  assumes "de_rq_net env = up" "\<not> terminal_reported st" "work_and_report env it st = (stop, st')"
  shows "\<exists>report. tables (de_rq st') = tables (de_rq st) @ [(de_region env, report)] \<and>
    entity_qid report = EDeployment (de_client env) \<and> is_terminal (extension report) = stop \<and> terminal_reported st' = stop"
proof -
  obtain r st1 where w: "seq (read_sdb_preview env) (work env it) st = (r, st1)" by fastforce
  define wr where "wr = settle_work env r st1"
  define st2 where "st2 = note_failure (it_failed_at it) wr st1"
  define terminal where "terminal = (wr_state wr = Down \<or> \<not> wr_keep_running wr)"
  define report :: "'b Report" where
    "report = build_deployment_report (de_client env) (wr_state wr) terminal (it_elapsed it) (it_now it) (wr_outcome wr)"
  have "reporting st1 = reporting st" using framesD [OF silent_work, of env it st] w by simp
  then have quiet: "de_rq st2 = de_rq st" "terminal_reported st2 = terminal_reported st"
    using note_failure_silent [of "it_failed_at it" wr st1] by (auto simp: st2_def reporting_def)
  from assms(2) have live: "terminal_reported st = False" by simp
  have "work_and_report env it st =
      (if terminal then (True, (publish_terminal_report env report st2)\<lparr>terminal_reported := True\<rparr>)
       else (False, publish_report env report st2))"
    by (simp only: work_and_report_def live if_False w Let_def prod.case wr_def [symmetric] st2_def [symmetric]
        terminal_def [symmetric] report_def [symmetric])
  with assms(3) have "tables (de_rq st') = tables (de_rq st) @ [(de_region env, report)] \<and> stop = terminal \<and> terminal_reported st' = stop"
    using de_publish_up [OF assms(1)] quiet assms(2) by (auto split: if_splits)
  then show ?thesis by (auto simp: report_def build_deployment_report_def)
qed

definition reports_of :: "('r, 'v) DeEnv \<Rightarrow> 'v Report list \<Rightarrow> bool" where
  "reports_of env reports \<longleftrightarrow> (\<forall>r\<in>set reports. entity_qid r = EDeployment (de_client env))"


definition example_de_env :: "network \<Rightarrow> (string, string) DeEnv" where
  "example_de_env net = \<lparr>de_client = example_dep, de_region = RegionId ''eu'', de_js = example_codec, de_to_value = Some,
    de_error_text = (\<lambda>_. ''failed''), de_powi = (\<lambda>_. 1), de_cdb_net = net, de_sdb_net = net, de_rtq_net = net,
    de_rq_net = up, de_rdb_net = (\<lambda>_. net)\<rparr>"

definition example_de :: "CdbTables Db \<Rightarrow> RdbTables \<Rightarrow> string DeState" where
  "example_de cdb rdb = \<lparr>de_cdb = cdb, de_rdb = (\<lambda>_. \<lparr>executed = 0, tables = rdb\<rparr>), de_sdb = \<lparr>executed = 0, tables = empty_sdb\<rparr>,
    de_rtq = \<lparr>executed = 0, tables = []\<rparr>, de_rq = \<lparr>executed = 0, tables = []\<rparr>, last_failure = None,
    terminal_reported = False, last_observed_state = None\<rparr>"

definition example_it :: "string Compiled \<Rightarrow> string Iteration" where
  "example_it compiled = \<lparr>it_main = Inr True, it_compiled = compiled, it_checked_at = 0, it_failed_at = 0, it_elapsed = 1, it_now = 7\<rparr>"


section \<open>Lingering\<close>

text \<open>The deployments that the rows of the supersessions lead to.\<close>

definition led_to :: "CdbTables \<Rightarrow> DeploymentQid \<Rightarrow> string \<times> 64 word \<Rightarrow> DeploymentId option" where
  "led_to t q = (\<lambda>(commit, nonce).
    case deployments_by_id t (DeploymentQid_display (q\<lparr>dep_id := \<lparr>did_commit = ObjId commit, did_nonce = DeploymentNonce nonce\<rparr>\<rparr>)) of
      None \<Rightarrow> None
    | Some row \<Rightarrow> (case deployment_from_row row of Inl _ \<Rightarrow> None | Inr d \<Rightarrow> Some (d_deployment d)))"

definition led_to_ids :: "CdbTables \<Rightarrow> DeploymentQid \<Rightarrow> DeploymentId set" where
  "led_to_ids t q = set (List.map_filter (led_to t q) (map snd (supersessions t (qid_org_str q))))"

lemma led_to_ids_bound: "finite (led_to_ids t q)" "card (led_to_ids t q) < chain_fuel q t"
proof -
  let ?rows = "map snd (supersessions t (qid_org_str q))"
  have "card (led_to_ids t q) \<le> length (List.map_filter (led_to t q) ?rows)" unfolding led_to_ids_def by (rule card_length)
  also have "\<dots> \<le> length ?rows" by (simp add: List.map_filter_def)
  finally show "card (led_to_ids t q) < chain_fuel q t" by (simp add: chain_fuel_def)
qed (simp add: led_to_ids_def)

lemma get_superseding_Some:
  assumes "get_superseding net q d = (Inr (Some s), d')"
  shows "\<exists>commit nonce. s = q\<lparr>dep_id := \<lparr>did_commit = ObjId commit, did_nonce = DeploymentNonce nonce\<rparr>\<rparr> \<and>
    (client_key q, commit, nonce) \<in> set (supersessions (tables d) (qid_org_str q))"
proof -
  from assms obtain row d1 where row: "cql_read net DqScyllaExecution (\<lambda>t. get_row (client_key q) (supersessions t (qid_org_str q))) d = (Inr row, d1)"
    and s: "Some s = (case row of None \<Rightarrow> None | Some (commit, nonce) \<Rightarrow>
      map_option (\<lambda>c. q\<lparr>dep_id := \<lparr>did_commit = c, did_nonce = DeploymentNonce nonce\<rparr>\<rparr>) (ObjId_from_bytes commit))"
    by (auto simp: get_superseding_def seq_Inr done_with_def)
  from row have "row = get_row (client_key q) (supersessions (tables d) (qid_org_str q))"
    using cql_read_result by (metis fst_conv)
  with s show ?thesis
    by (auto simp: ObjId_from_bytes_def get_row_def split: option.splits if_splits dest!: map_of_SomeD) blast
qed

lemma get_superseding_tables [simp]: "tables (snd (get_superseding net q d)) = tables d"
  by (auto simp: get_superseding_def seq_def done_with_def split: prod.splits sum.splits)
    (metis cql_read_tables snd_conv)+

lemma dep_get_tables [simp]: "tables (snd (dep_get net q d)) = tables d"
  by (auto simp: dep_get_def find_deployment_def Let_def seq_def done_with_def fail_with_def of_result_def
      split: prod.splits sum.splits option.splits)
    (metis cql_read_tables snd_conv)+

lemma dep_get_Inr:
  assumes "dep_get net q d = (Inr dep, d')"
  shows "\<exists>row. deployments_by_id (tables d) (DeploymentQid_display q) = Some row \<and> deployment_from_row row = Inr dep"
proof -
  from assms obtain row d1 where row: "cql_read net DqScyllaPager (\<lambda>t. deployments_by_id t (DeploymentQid_display q)) d = (Inr row, d1)"
    and r: "(case row of None \<Rightarrow> fail_with DqNotFound | Some r \<Rightarrow>
         if dr_organization r \<noteq> org_str (qid_org (client_repo q)) \<or> dr_repository r \<noteq> repo_str (qid_repo (client_repo q))
         then fail_with DqNotFound else of_result (deployment_from_row r)) d1 = (Inr dep, d')"
    unfolding dep_get_def find_deployment_def Let_def seq_Inr qid_eta by blast
  from row have "row = deployments_by_id (tables d) (DeploymentQid_display q)"
    using cql_read_result by (metis fst_conv)
  with r show ?thesis
    by (auto simp: fail_with_def done_with_def of_result_def split: option.splits if_splits sum.splits)
qed

lemma follow_not_exhausted:
  assumes "card (led_to_ids (tables d) q - seen) < n" "dep_env cursor = dep_env q"
  shows "fst (follow_supersessions n net cursor seen d) \<noteq> Inr None"
  using assms
proof (induction n arbitrary: cursor seen d)
  case (Suc n)
  let ?G = "led_to_ids (tables d) q"
  obtain r1 d1 where g: "get_superseding net cursor d = (r1, d1)" by fastforce
  define r2 d2 where "r2 s = fst (dep_get net s d1)" and "d2 s = snd (dep_get net s d1)" for s
  then have e: "dep_get net s d1 = (r2 s, d2 s)" for s by simp
  define r3 d3 where "r3 s = fst (get_superseding net s (d2 s))" and "d3 s = snd (get_superseding net s (d2 s))" for s
  then have n: "get_superseding net s (d2 s) = (r3 s, d3 s)" for s by simp
  have t: "tables d1 = tables d" "tables (d3 s) = tables d" for s
    using get_superseding_tables [of net cursor d] dep_get_tables [of net s d1] get_superseding_tables [of net s "d2 s"]
    by (simp_all add: g e n)
  have "fst (follow_supersessions n net s (insert (d_deployment dep) seen) (d3 s)) \<noteq> Inr None"
    if s: "r1 = Inr (Some s)" and dep: "r2 s = Inr dep" and new: "d_deployment dep \<notin> seen" for s dep
  proof -
    from get_superseding_Some [of net cursor d s d1] g s obtain commit nonce where
      row: "s = cursor\<lparr>dep_id := \<lparr>did_commit = ObjId commit, did_nonce = DeploymentNonce nonce\<rparr>\<rparr>"
        "(client_key cursor, commit, nonce) \<in> set (supersessions (tables d) (qid_org_str cursor))" by auto
    have s_q: "s = q\<lparr>dep_id := \<lparr>did_commit = ObjId commit, did_nonce = DeploymentNonce nonce\<rparr>\<rparr>"
      using row(1) Suc.prems(2) by (cases q; cases cursor) simp
    have "led_to (tables d) q (commit, nonce) = Some (d_deployment dep)"
      using dep_get_Inr [of net s d1 dep "d2 s"] dep e [of s] by (auto simp: led_to_def t s_q [symmetric])
    moreover have "(commit, nonce) \<in> set (map snd (supersessions (tables d) (qid_org_str q)))"
      using row(2) Suc.prems(2) by force
    ultimately have "d_deployment dep \<in> ?G" unfolding led_to_ids_def set_map_filter by blast
    then have "card (?G - insert (d_deployment dep) seen) < card (?G - seen)"
      using new by (intro psubset_card_mono) (auto simp: led_to_ids_bound)
    then show ?thesis
      using Suc.prems row(1) by (intro Suc.IH) (simp_all add: t)
  qed
  then show ?case
    by (auto simp: seq_def g e n done_with_def split: prod.splits sum.splits option.splits)
qed simp

text \<open>
  C22. The walk of a lingering deployment along its supersession chain ends, whatever the network
  does and whatever the tables hold: the fuel it is given is never used up.
\<close>

theorem lingering_walk_terminates:
  "fst (follow_supersessions (chain_fuel q (tables d)) net q {} d) \<noteq> Inr None"
  using follow_not_exhausted [of d q "{}" "chain_fuel q (tables d)" q net] by (simp add: led_to_ids_bound)

text \<open>The deployment at the end of the chain.\<close>

definition superseding_step :: "Registry \<Rightarrow> (DeploymentQid \<times> DeploymentQid) set" where
  "superseding_step r = {(q, q\<lparr>dep_id := i\<rparr>) | q i. superseder r q = Some i}"

definition current_of :: "Registry \<Rightarrow> DeploymentQid \<Rightarrow> DeploymentQid \<Rightarrow> bool" where
  "current_of r q c \<longleftrightarrow> (q, c) \<in> (superseding_step r)\<^sup>+ \<and> superseder r c = None"

definition superseders_known :: "Registry \<Rightarrow> bool" where
  "superseders_known r \<longleftrightarrow> (\<forall>q i. superseder r q = Some i \<longrightarrow> deps r (q\<lparr>dep_id := i\<rparr>) \<noteq> None)"

lemma single_valued_step: "single_valued (superseding_step r)"
  by (auto simp: single_valued_def superseding_step_def)

lemma step_iff: "(q, s) \<in> superseding_step r \<longleftrightarrow> (\<exists>i. superseder r q = Some i \<and> s = q\<lparr>dep_id := i\<rparr>)"
  by (auto simp: superseding_step_def)

lemma no_current_on_cycle:
  assumes "(q, q) \<in> (superseding_step r)\<^sup>+"
  shows "\<not> current_of r q c"
proof
  assume "current_of r q c"
  then have "(q, c) \<in> (superseding_step r)\<^sup>*" "superseder r c = None"
    by (simp_all add: current_of_def trancl_into_rtrancl)
  from this(1) have "(c, q) \<in> (superseding_step r)\<^sup>+"
  proof (induction rule: rtrancl_induct)
    case (step y z)
    from step.IH obtain w where "(y, w) \<in> superseding_step r" "(w, q) \<in> (superseding_step r)\<^sup>*" by (meson tranclD)
    with step.hyps(2) have "(z, q) \<in> (superseding_step r)\<^sup>*" by (metis single_valuedD single_valued_step)
    with assms show ?case by (meson rtrancl_trancl_trancl)
  qed (rule assms)
  then obtain w where "(c, w) \<in> superseding_step r" by (meson tranclD)
  with \<open>superseder r c = None\<close> show False by (simp add: step_iff)
qed

lemma current_of_step:
  assumes "superseder r q = Some i"
  shows "current_of r q c \<longleftrightarrow> (if superseder r (q\<lparr>dep_id := i\<rparr>) = None then c = q\<lparr>dep_id := i\<rparr> else current_of r (q\<lparr>dep_id := i\<rparr>) c)"
    (is "_ \<longleftrightarrow> (if superseder r ?s = None then _ else _)")
proof -
  have s: "(q, ?s) \<in> superseding_step r" using assms by (simp add: step_iff)
  have only: "w = ?s" if "(q, w) \<in> superseding_step r" for w using that s by (metis single_valuedD single_valued_step)
  have "(q, c) \<in> (superseding_step r)\<^sup>+ \<longleftrightarrow> c = ?s \<or> (?s, c) \<in> (superseding_step r)\<^sup>+"
    using s only by (metis rtranclD tranclD trancl.r_into_trancl trancl_into_trancl2)
  moreover have "(?s, c) \<notin> (superseding_step r)\<^sup>+" if "superseder r ?s = None" for c
    using that by (metis option.distinct(1) step_iff tranclD)
  ultimately show ?thesis unfolding current_of_def by auto
qed

abbreviation current_bootstrapped :: "Registry \<Rightarrow> DeploymentQid \<Rightarrow> bool" where
  "current_bootstrapped r q \<equiv> \<exists>c dep. current_of r q c \<and> deps r c = Some dep \<and> d_bootstrapped dep"

lemma follow_up:
  fixes d :: "CdbTables Db"
  assumes "represents r (tables d)" "superseders_known r" "DeploymentQid_wf cursor"
    "\<And>i. i \<in> seen \<Longrightarrow> (cursor\<lparr>dep_id := i\<rparr>, cursor) \<in> (superseding_step r)\<^sup>*"
  shows "\<exists>x d'. follow_supersessions n up cursor seen d = (Inr x, d') \<and> tables d' = tables d \<and>
    (\<forall>b. x = Some b \<longrightarrow> (b \<longleftrightarrow> current_bootstrapped r cursor))"
  using assms
proof (induction n arbitrary: cursor seen d)
  case (Suc n)
  have ok: "by_id_ok (deps r) (tables d)" "superseder_ok (superseder r) (tables d)"
    using Suc.prems(1) by (simp_all add: represents_def)
  note get1 = get_superseding_up [OF ok(2) Suc.prems(3)]
  show ?case
  proof (cases "superseder r cursor")
    case None
    then have "\<not> current_of r cursor c" for c unfolding current_of_def by (metis option.distinct(1) step_iff tranclD)
    with None show ?thesis by (simp add: seq_def get1 done_with_def)
  next
    case (Some i)
    let ?s = "cursor\<lparr>dep_id := i\<rparr>" and ?d = "\<lparr>executed = Suc (Suc (executed d)), tables = tables d\<rparr>"
    from Some Suc.prems(2) obtain dep where dep: "deps r ?s = Some dep" by (auto simp: superseders_known_def)
    note wf = by_id_okD(2) [OF ok(1) dep]
    have i: "d_deployment dep = i"
      using arg_cong [OF by_id_okD(1) [OF ok(1) dep], of dep_id] by (simp add: deployment_qid_def)
    have get2: "dep_get up ?s \<lparr>executed = k, tables = tables d\<rparr> = (Inr dep, \<lparr>executed = Suc k, tables = tables d\<rparr>)" for k
      using dep_get_up [OF _ wf, of "deps r" "\<lparr>executed = k, tables = tables d\<rparr>"] ok(1) dep by simp
    have get3: "get_superseding up ?s \<lparr>executed = k, tables = tables d\<rparr> =
        (Inr (map_option (\<lambda>i. ?s\<lparr>dep_id := i\<rparr>) (superseder r ?s)), \<lparr>executed = Suc k, tables = tables d\<rparr>)" for k
      using get_superseding_up [OF _ wf, of "superseder r" "\<lparr>executed = k, tables = tables d\<rparr>"] ok(2) by simp
    have unfold: "follow_supersessions (Suc n) up cursor seen d =
        (if i \<in> seen then (Inr (Some False), ?d)
         else if superseder r ?s = None then (Inr (Some (d_bootstrapped dep)), \<lparr>executed = Suc (executed ?d), tables = tables d\<rparr>)
         else follow_supersessions n up ?s (insert i seen) \<lparr>executed = Suc (executed ?d), tables = tables d\<rparr>)"
      by (simp add: seq_def get1 get2 get3 Some i done_with_def)
    have step: "(cursor, ?s) \<in> superseding_step r" using Some by (simp add: step_iff)
    consider "i \<in> seen" | "i \<notin> seen" "superseder r ?s = None" | "i \<notin> seen" "superseder r ?s \<noteq> None" by blast
    then show ?thesis
    proof cases
      case 1
      with Suc.prems(4) step have "(cursor, cursor) \<in> (superseding_step r)\<^sup>+" by (meson rtrancl_into_trancl2)
      with 1 show ?thesis unfolding unfold by (auto dest: no_current_on_cycle)
    next
      case 2
      with dep show ?thesis unfolding unfold by (simp add: current_of_step [OF Some])
    next
      case 3
      have "(?s\<lparr>dep_id := j\<rparr>, ?s) \<in> (superseding_step r)\<^sup>*" if "j \<in> insert i seen" for j
        using that Suc.prems(4) [of j] step by (auto intro: rtrancl.rtrancl_into_rtrancl)
      note rest = Suc.IH [where d = "\<lparr>executed = Suc (executed ?d), tables = tables d\<rparr>" and seen = "insert i seen", OF _ Suc.prems(2) wf this]
      have "current_of r cursor = current_of r ?s" using 3 by (auto simp: fun_eq_iff current_of_step [OF Some])
      moreover have "\<not> superseder r ?s = None" using 3 by simp
      ultimately show ?thesis
        using rest Suc.prems(1) 3(1) by (simp only: unfold if_False Db.select_convs)
    qed
  qed
qed (simp add: done_with_def)

text \<open>
  C21. With the configuration database reachable, a lingering deployment becomes undesired exactly
  when the deployment at the end of its supersession chain is bootstrapped; nothing else changes in
  the registry. On a cycle of supersessions there is no such deployment, and nothing changes.
\<close>

theorem lingering_waits_for_current:
  assumes "represents r (tables (de_cdb st))" "superseders_known r" "DeploymentQid_wf (de_client env)" "de_cdb_net env = up"
  shows "\<exists>d. run_lingering env now st = (Inr (), st\<lparr>de_cdb := d\<rparr>) \<and>
    represents (if current_bootstrapped r (de_client env) then abs_set (de_client env) now Undesired r else r) (tables d)"
proof -
  let ?q = "de_client env" and ?n = "chain_fuel (de_client env) (tables (de_cdb st))"
  have "\<exists>x d. follow_supersessions ?n up ?q {} (de_cdb st) = (Inr x, d) \<and> tables d = tables (de_cdb st) \<and>
      (\<forall>b. x = Some b \<longrightarrow> (b \<longleftrightarrow> current_bootstrapped r ?q))"
    by (rule follow_up [OF assms(1,2,3)]) simp
  then obtain x d where
    walk: "follow_supersessions ?n up ?q {} (de_cdb st) = (Inr x, d)" "tables d = tables (de_cdb st)"
      "\<And>b. x = Some b \<Longrightarrow> b \<longleftrightarrow> current_bootstrapped r ?q" by blast
  have "x \<noteq> None"
    using walk(1) follow_not_exhausted [of "de_cdb st" ?q "{}" ?n ?q up] by (simp add: led_to_ids_bound)
  then obtain b where b: "x = Some b" by blast
  note x = b walk(3) [OF b]
  have read: "run_lingering env now st =
      (if b then on_cdb DeCdbSet (dep_set up ?q now Undesired) else done_with ()) (st\<lparr>de_cdb := d\<rparr>)"
    by (simp add: run_lingering_def seq_def read_state_def assms(4) on_cdb_def map_err_def lift_op_def walk(1) x(1))
  show ?thesis
  proof (cases b)
    case True
    from refinesD [OF dep_set_refines [OF assms(3)], of r d now Undesired] assms(1) walk(2) obtain d' where
      "dep_set up ?q now Undesired d = (Inr (), d')" "represents (abs_set ?q now Undesired r) (tables d')" by auto
    moreover from True x(2) have c: "current_bootstrapped r ?q" by simp
    ultimately show ?thesis
      unfolding read if_P [OF c] if_P [OF True]
      by (intro exI [of _ d']) (simp add: on_cdb_def map_err_def lift_op_def)
  next
    case False
    then have c: "\<not> current_bootstrapped r ?q" using x(2) by simp
    show ?thesis
      unfolding read if_not_P [OF c] if_not_P [OF False] by (intro exI [of _ d]) (simp add: done_with_def assms(1) walk(2))
  qed
qed

text \<open>A rollout: a deployment superseded by another one, which is bootstrapped.\<close>

definition example_rollout :: Registry where
  "example_rollout =
    (let r = abs_make_desired example_dep2 6 (abs_make_desired example_dep 5 no_deployments)
     in r\<lparr>deps := (deps r)(example_dep2 \<mapsto> (the (deps r example_dep2))\<lparr>d_bootstrapped := True\<rparr>)\<rparr>)"

lemma example_rollout_represented: "\<exists>d :: CdbTables Db. represents example_rollout (tables d)"
proof -
  let ?r = "abs_make_desired example_dep2 6 (abs_make_desired example_dep 5 no_deployments)"
  from example_run obtain d :: "CdbTables Db" where d: "represents ?r (tables d)" by blast
  have "deps ?r example_dep2 = Some (the (deps ?r example_dep2))" by (simp add: abs_make_desired_def abs_set_def no_deployments_def)
  from set_progress_up [OF example_deps(2) d this, of True] show ?thesis
    unfolding example_rollout_def Let_def by blast
qed

lemma example_rollout_chain:
  "superseder example_rollout = [example_dep \<mapsto> example_did 8]"
  "deps example_rollout example_dep = Some \<lparr>d_repo = client_repo example_dep, d_environment = client_env example_dep,
    d_deployment = dep_id example_dep, d_created_at = 5, d_state = Lingering, d_bootstrapped = False\<rparr>"
  "deps example_rollout example_dep2 = Some \<lparr>d_repo = client_repo example_dep, d_environment = client_env example_dep,
    d_deployment = example_did 8, d_created_at = 6, d_state = Desired, d_bootstrapped = True\<rparr>"
  using example_deps(3)
  by (auto simp: example_rollout_def Let_def abs_make_desired_def abs_set_def takes_over_def no_deployments_def fun_eq_iff)

lemma example_superseders: "superseders_known example_rollout"
  by (simp add: superseders_known_def example_rollout_chain)

lemma example_current: "current_bootstrapped example_rollout example_dep"
proof -
  have "superseder example_rollout example_dep2 = None" using example_deps(3) by (simp add: example_rollout_chain)
  then have "current_of example_rollout example_dep example_dep2"
    by (auto simp: current_of_def step_iff example_rollout_chain)
  then show ?thesis using example_rollout_chain(3) by (intro exI [of _ example_dep2]) simp
qed

theorem lingering_waits_for_current_witness:
  "\<exists>st d. represents example_rollout (tables (de_cdb st)) \<and>
    run_lingering (example_de_env up) 9 st = (Inr (), st\<lparr>de_cdb := d\<rparr>) \<and>
    represents (abs_set example_dep 9 Undesired example_rollout) (tables d)"
proof -
  obtain d0 :: "CdbTables Db" where d0: "represents example_rollout (tables d0)" using example_rollout_represented by blast
  let ?st = "example_de d0 empty_rdb" and ?env = "example_de_env up"
  have "represents example_rollout (tables (de_cdb ?st))" "DeploymentQid_wf (de_client ?env)" "de_cdb_net ?env = up"
    "de_client ?env = example_dep"
    using d0 example_deps(1) by (simp_all add: example_de_def example_de_env_def)
  with lingering_waits_for_current [OF this(1) example_superseders this(2,3), of 9] example_current show ?thesis
    by auto
qed

section \<open>Tearing down\<close>

text \<open>The resources the home region holds for the environment, when every row can be read.\<close>

definition home_holds :: "('r, 'v) DeEnv \<Rightarrow> 'v DeState \<Rightarrow> 'r Resource list \<Rightarrow> bool" where
  "home_holds env st all \<longleftrightarrow>
    collect_rows (map (\<lambda>(key, row). map_resource_row (de_js env) (de_ns env) (de_region env) key row)
      (resources (tables (de_rdb st (de_region env))) (de_ns env))) = Inr all"

definition looked_up :: "('r, 'v) DeEnv \<Rightarrow> 'v DeState \<Rightarrow> 'v DeState" where
  "looked_up env st = st\<lparr>de_rdb := (de_rdb st)(de_region env :=
    \<lparr>executed = Suc (executed (de_rdb st (de_region env))), tables = tables (de_rdb st (de_region env))\<rparr>)\<rparr>"

lemma home_resources_up:
  assumes "home_holds env st all" "de_rdb_net env (de_region env) = up"
  shows "seq (home_resources env) (\<lambda>rows. seq (map_err DeRdb (of_result (collect_rows rows))) k) st = k all (looked_up env st)"
  using assms
  by (simp add: home_resources_def on_region_def list_resources_def seq_def map_err_def lift_op_def home_holds_def
      of_result_def done_with_def looked_up_def)

definition sent :: "(RegionId \<times> 'v Message) list \<Rightarrow> 'v DeState \<Rightarrow> 'v DeState" where
  "sent msgs st = st\<lparr>de_rtq := \<lparr>executed = executed (de_rtq st) + length msgs, tables = tables (de_rtq st) @ msgs\<rparr>\<rparr>"

abbreviation destroys :: "('r, 'v) DeEnv \<Rightarrow> DeploymentId \<Rightarrow> 'r Resource list \<Rightarrow> (RegionId \<times> 'v Message) list" where
  "destroys env dep rs \<equiv> map (\<lambda>x. (res_region x, destroy_message env dep (resource_id_from x))) rs"

lemma destroys_up:
  assumes "de_rtq_net env = up"
  shows "seq_list (enqueue_destroy env dep) rs st = (Inr (), sent (destroys env dep rs) st)"
proof (induction rs arbitrary: st)
  case Nil
  show ?case by (simp add: done_with_def sent_def)
next
  case (Cons x rs)
  have "enqueue_destroy env dep x st = (Inr (), sent [(res_region x, destroy_message env dep (resource_id_from x))] st)"
    by (simp add: enqueue_destroy_def enqueue_transition_def assms lift_op_def sent_def resource_id_from_def)
  with Cons.IH show ?case by (simp add: seq_def sent_def)
qed

lemma destroys_seq:
  "de_rtq_net env = up \<Longrightarrow>
    seq (seq_list (enqueue_destroy env dep) rs) k st = k () (sent (destroys env dep rs) st)"
  by (simp add: seq_def destroys_up)

lemma doomed_Nil_if_sticky: "(\<And>x. x \<in> set all \<Longrightarrow> res_owner x = Some owner \<Longrightarrow> Sticky \<in> res_markers x) \<Longrightarrow> doomed owner all = []"
  by (auto simp: doomed_def filter_empty_conv)

lemma run_undesired_up:
  assumes "home_holds env st all" "de_rdb_net env (de_region env) = up" "de_rtq_net env = up" "de_cdb_net env = up"
    "represents r (tables (de_cdb st))" "DeploymentQid_wf (de_client env)" "deployment_qid d = de_client env"
  shows "\<exists>cdb. run_undesired env d now st =
      (Inr (), (sent (destroys env (dep_id (de_client env)) (doomed (de_owner env) all)) (looked_up env st))\<lparr>de_cdb := cdb\<rparr>) \<and>
    represents (if \<forall>x\<in>set all. res_owner x = Some (de_owner env) \<longrightarrow> Sticky \<in> res_markers x
       then abs_set (de_client env) now Down r else r) (tables cdb)"
proof -
  let ?o = "de_owner env" and ?st = "looked_up env st"
  let ?sticky = "\<forall>x\<in>set all. res_owner x = Some ?o \<longrightarrow> Sticky \<in> res_markers x"
  have d: "d_deployment d = dep_id (de_client env)" using arg_cong [OF assms(7), of dep_id] by (simp add: deployment_qid_def)
  let ?k = "if doomed ?o all \<noteq> [] then done_with ()
    else if \<not> list_ex (\<lambda>r. Sticky \<notin> res_markers r) (filter (\<lambda>r. res_owner r = Some ?o) all)
    then on_cdb DeCdbSet (dep_set up (de_client env) now Down) else done_with ()"
  let ?sent = "sent (destroys env (dep_id (de_client env)) (doomed ?o all)) ?st"
  have run: "run_undesired env d now st = ?k ?sent"
    unfolding run_undesired_def assms(7) d Let_def
    by (simp only: home_resources_up [OF assms(1,2)] destroys_seq [OF assms(3)] assms(4))
  have st: "de_cdb ?sent = de_cdb st" by (simp add: sent_def looked_up_def)
  show ?thesis
  proof (cases ?sticky)
    case True
    then have "doomed ?o all = []" by (intro doomed_Nil_if_sticky) blast
    with True have k: "?k = on_cdb DeCdbSet (dep_set up (de_client env) now Down)" by (auto simp: list_ex_iff)
    obtain cdb where cdb: "dep_set up (de_client env) now Down (de_cdb st) = (Inr (), cdb)"
      "represents (abs_set (de_client env) now Down r) (tables cdb)"
      using refinesD [OF dep_set_refines [OF assms(6)] assms(5)] by blast
    show ?thesis
      unfolding run k if_P [OF True]
      by (intro exI [of _ cdb]) (simp add: on_cdb_def map_err_def lift_op_def st cdb)
  next
    case False
    then have k: "?k = done_with ()" by (auto simp: list_ex_iff)
    show ?thesis
      unfolding run k if_not_P [OF False] by (intro exI [of _ "de_cdb ?sent"]) (simp add: done_with_def st assms(5))
  qed
qed

text \<open>
  C8. A teardown with everything reachable asks to destroy, in the region of each, exactly the
  deployment's resources that are not sticky and that nothing depends on but its own sticky
  resources. It takes the deployment down exactly when all it owns in the home region is sticky.
\<close>

theorem teardown_is_exact:
  assumes "home_holds env st all" "de_rdb_net env (de_region env) = up" "de_rtq_net env = up" "de_cdb_net env = up"
    "represents r (tables (de_cdb st))" "DeploymentQid_wf (de_client env)" "deployment_qid d = de_client env"
  shows "\<exists>st'. run_undesired env d now st = (Inr (), st') \<and>
    tables (de_rtq st') = tables (de_rtq st) @ destroys env (dep_id (de_client env))
      (filter (\<lambda>x. res_owner x = Some (de_owner env) \<and> Sticky \<notin> res_markers x \<and>
        (\<forall>y\<in>set all. resource_id_from x \<in> set (res_dependencies y) \<longrightarrow>
          res_owner y = Some (de_owner env) \<and> Sticky \<in> res_markers y)) all) \<and>
    represents (if \<forall>x\<in>set all. res_owner x = Some (de_owner env) \<longrightarrow> Sticky \<in> res_markers x
       then abs_set (de_client env) now Down r else r) (tables (de_cdb st'))"
proof -
  let ?o = "de_owner env"
  have spec: "doomed ?o all = filter (\<lambda>x. res_owner x = Some ?o \<and> Sticky \<notin> res_markers x \<and>
      (\<forall>y\<in>set all. resource_id_from x \<in> set (res_dependencies y) \<longrightarrow> res_owner y = Some ?o \<and> Sticky \<in> res_markers y)) all"
    unfolding doomed_def living_targets_def dependency_targets_def by (rule filter_cong) auto
  from run_undesired_up [OF assms] obtain cdb where cdb: "run_undesired env d now st =
      (Inr (), (sent (destroys env (dep_id (de_client env)) (doomed ?o all)) (looked_up env st))\<lparr>de_cdb := cdb\<rparr>)"
    "represents (if \<forall>x\<in>set all. res_owner x = Some ?o \<longrightarrow> Sticky \<in> res_markers x
       then abs_set (de_client env) now Down r else r) (tables cdb)" by blast
  show ?thesis
    unfolding spec [symmetric] by (intro exI conjI, rule cdb(1)) (use cdb(2) in \<open>simp_all add: sent_def looked_up_def\<close>)
qed

definition example_rdb :: RdbTables where
  "example_rdb = \<lparr>resources = (\<lambda>_. [((''db'', ''main''), empty_resource_row\<lparr>rr_owner := Some (DeploymentQid_display example_dep)\<rparr>)]),
    resource_regions = (\<lambda>_. [])\<rparr>"

definition example_db_res :: "string Resource" where
  "example_db_res = (blank_resource (RegionId ''eu'') (EnvironmentQid_display (dep_env example_dep)) (''db'', ''main''))
    \<lparr>res_owner := Some (DeploymentQid_display example_dep)\<rparr>"

lemma example_home: "home_holds (example_de_env net) (example_de d example_rdb) [example_db_res]"
  by (simp add: home_holds_def example_de_env_def example_de_def example_rdb_def map_resource_row_def empty_resource_row_def
      decode_record_def decode_dependencies_def decode_markers_def decode_source_trace_def example_db_res_def blank_resource_def)

theorem teardown_is_exact_witness:
  "\<exists>st st' d. run_undesired (example_de_env up) d 9 st = (Inr (), st') \<and>
    tables (de_rtq st') = destroys (example_de_env up) (example_did 7) [example_db_res]"
proof -
  obtain d0 :: "CdbTables Db" where d0: "represents example_rollout (tables d0)" using example_rollout_represented by blast
  let ?st = "example_de d0 example_rdb" and ?env = "example_de_env up"
  obtain d where d: "deployment_qid d = de_client ?env"
    using d0 by_id_okD(1) example_rollout_chain(2) by (fastforce simp: represents_def example_de_env_def)
  have e: "de_rdb_net ?env (de_region ?env) = up" "de_rtq_net ?env = up" "de_cdb_net ?env = up"
    "represents example_rollout (tables (de_cdb ?st))" "DeploymentQid_wf (de_client ?env)"
    using d0 example_deps(1) by (simp_all add: example_de_env_def example_de_def)
  obtain st' where "run_undesired ?env d 9 ?st = (Inr (), st')" "tables (de_rtq st') = tables (de_rtq ?st) @ destroys ?env
      (dep_id (de_client ?env)) (filter (\<lambda>x. res_owner x = Some (de_owner ?env) \<and> Sticky \<notin> res_markers x \<and>
        (\<forall>y\<in>set [example_db_res]. resource_id_from x \<in> set (res_dependencies y) \<longrightarrow>
          res_owner y = Some (de_owner ?env) \<and> Sticky \<in> res_markers y)) [example_db_res])"
    using teardown_is_exact [OF example_home e d, of 9] by blast
  then show ?thesis
    by (intro exI [of _ ?st] exI [of _ st'] exI [of _ d])
      (simp add: example_de_def example_de_env_def example_db_res_def blank_resource_def example_dep_def)
qed

section \<open>A teardown ends\<close>

definition to_destroy :: "string \<Rightarrow> 'r Resource \<Rightarrow> bool" where
  "to_destroy owner x \<longleftrightarrow> res_owner x = Some owner \<and> Sticky \<notin> res_markers x"

text \<open>
  When a teardown can finish: dependencies point downwards in some ranking, and only resources of
  the deployment depend on what is to be destroyed.
\<close>

definition can_tear_down :: "string \<Rightarrow> (ResourceId \<Rightarrow> nat) \<Rightarrow> 'r Resource list \<Rightarrow> bool" where
  "can_tear_down owner rank all \<longleftrightarrow>
    (\<forall>y\<in>set all. \<forall>i\<in>set (res_dependencies y). rank i < rank (resource_id_from y)) \<and>
    (\<forall>x\<in>set all. \<forall>y\<in>set all. to_destroy owner x \<and> resource_id_from x \<in> set (res_dependencies y) \<longrightarrow> res_owner y = Some owner)"

lemma can_tear_down_mono: "can_tear_down owner rank all \<Longrightarrow> set all' \<subseteq> set all \<Longrightarrow> can_tear_down owner rank all'"
  unfolding can_tear_down_def by blast

lemma can_tear_downD:
  assumes "can_tear_down owner rank all" "y \<in> set all"
  shows "i \<in> set (res_dependencies y) \<Longrightarrow> rank i < rank (resource_id_from y)"
    "x \<in> set all \<Longrightarrow> to_destroy owner x \<Longrightarrow> resource_id_from x \<in> set (res_dependencies y) \<Longrightarrow> res_owner y = Some owner"
  using assms unfolding can_tear_down_def by blast+

lemma doomed_progress:
  assumes "can_tear_down owner rank all" "x \<in> set all" "to_destroy owner x"
  shows "\<exists>x\<in>set (doomed owner all). to_destroy owner x"
proof -
  let ?X = "{x \<in> set all. to_destroy owner x}"
  define m where "m = Max ((rank \<circ> resource_id_from) ` ?X)"
  have X: "finite ((rank \<circ> resource_id_from) ` ?X)" "(rank \<circ> resource_id_from) ` ?X \<noteq> {}" using assms(2,3) by auto
  from Max_in [OF X] have "m \<in> (rank \<circ> resource_id_from) ` ?X" by (simp only: m_def)
  then obtain top where top: "top \<in> ?X" "rank (resource_id_from top) = m" by auto
  have "resource_id_from top \<notin> living_targets owner all"
  proof
    assume "resource_id_from top \<in> living_targets owner all"
    then obtain y where y: "y \<in> set all" "resource_id_from top \<in> set (res_dependencies y)"
      "\<not> (res_owner y = Some owner \<and> Sticky \<in> res_markers y)"
      by (auto simp: living_targets_def dependency_targets_def)
    have "res_owner y = Some owner" using can_tear_downD(2) [OF assms(1) y(1) _ _ y(2)] top(1) by simp
    with y(1,3) have "y \<in> ?X" by (simp add: to_destroy_def)
    then have "rank (resource_id_from y) \<le> m" unfolding m_def by (intro Max_ge [OF X(1)]) (simp add: image_iff, blast)
    with can_tear_downD(1) [OF assms(1) y(1,2)] top(2) show False by simp
  qed
  with top(1) show ?thesis by (auto simp: doomed_def to_destroy_def)
qed

lemma collect_rows_filter:
  assumes "collect_rows (map f rows) = Inr xs" "\<And>r x. r \<in> set rows \<Longrightarrow> f r = Inr x \<Longrightarrow> P r \<longleftrightarrow> Q x"
  shows "collect_rows (map f (filter P rows)) = Inr (filter Q xs)"
  using assms
proof (induction rows arbitrary: xs)
  case (Cons r rows)
  then obtain x ys where "f r = Inr x" "collect_rows (map f rows) = Inr ys" "xs = x # ys"
    by (cases "f r") (auto split: sum.splits)
  with Cons show ?case by auto
qed simp

lemma collect_rows_member: "collect_rows rows = Inr xs \<Longrightarrow> x \<in> set xs \<Longrightarrow> Inr x \<in> set rows"
  by (induction rows arbitrary: xs rule: collect_rows.induct) (auto split: sum.splits)

abbreviation remaining :: "string \<Rightarrow> 'r Resource list \<Rightarrow> nat" where
  "remaining owner all \<equiv> length (filter (to_destroy owner) all)"

end
