(* ===== verification/De_Rollout.thy ===== *)
theory De_Rollout
  imports De_Reconcile
begin

text \<open>
  How a rollout ends: a deployment that has converged retires the ones it supersedes. What a failed
  evaluation does to a deployment, and which workers a daemon keeps running.
\<close>

section \<open>Retiring predecessors\<close>

lemma parse_superseded_ok:
  assumes "\<And>c n. (c, n) \<in> set rows \<Longrightarrow> length c = 40"
  shows "parse_superseded q rows =
    Inr (map (\<lambda>(c, n). q\<lparr>dep_id := \<lparr>did_commit = ObjId c, did_nonce = DeploymentNonce n\<rparr>\<rparr>) rows)"
  using assms
proof (induction rows)
  case (Cons row rows)
  obtain c n where row: "row = (c, n)" by fastforce
  have "length c = 40" using Cons.prems row by auto
  moreover have "parse_superseded q rows = Inr (map (\<lambda>(c, n). q\<lparr>dep_id := \<lparr>did_commit = ObjId c, did_nonce = DeploymentNonce n\<rparr>\<rparr>) rows)"
    by (rule Cons.IH) (use Cons.prems in auto)
  ultimately show ?case by (simp add: row ObjId_from_bytes_def)
qed simp

definition supersedes :: "Registry \<Rightarrow> DeploymentQid \<Rightarrow> DeploymentQid \<Rightarrow> bool" where
  "supersedes r q p \<longleftrightarrow> superseder r p = Some (dep_id q) \<and> dep_env p = dep_env q"

lemma wf_commit_length: "DeploymentQid_wf q \<Longrightarrow> length (oid_hex (did_commit (dep_id q))) = 40"
  by (simp add: DeploymentQid_wf_def DeploymentId_wf_def is_valid_oid_hex_def)

lemma client_key_cases:
  assumes "client_key p = (repo_str (qid_repo (client_repo q)), env_str (client_env q), c, n)" "qid_org_str p = qid_org_str q"
  shows "p = q\<lparr>dep_id := \<lparr>did_commit = ObjId c, did_nonce = DeploymentNonce n\<rparr>\<rparr>"
  by (rule client_key_inj) (use assms in \<open>simp_all add: client_key_def\<close>)

lemma superseded_up:
  fixes d :: "CdbTables Db"
  assumes ok: "superseder_ok (superseder r) (tables d)"
  shows "\<exists>ps k. superseded up q d = (Inr ps, \<lparr>executed = k, tables = tables d\<rparr>) \<and> set ps = {p. supersedes r q p}"
proof -
  let ?rows = "supersessions (tables d) (qid_org_str q)" and ?by = "(oid_hex (did_commit (dep_id q)), as_u64 (did_nonce (dep_id q)))"
  let ?mine = "\<lambda>((r, e, c, n), by). r = repo_str (qid_repo (client_repo q)) \<and> e = env_str (client_env q) \<and> by = ?by"
  let ?cols = "map (\<lambda>((r, e, c, n), _). (c, n)) (filter ?mine ?rows)"
  let ?to = "\<lambda>(c, n). q\<lparr>dep_id := \<lparr>did_commit = ObjId c, did_nonce = DeploymentNonce n\<rparr>\<rparr>"
  note parts = ok [unfolded superseder_ok_def]
  note wf = parts [THEN conjunct1, THEN spec, THEN spec, THEN mp, THEN conjunct1]
  note clustered = parts [THEN conjunct2, THEN conjunct1, THEN spec, THEN conjunct1]
  note keys = parts [THEN conjunct2, THEN conjunct1, THEN spec [of _ "qid_org_str q"], THEN conjunct2, THEN bspec]
  note get = parts [THEN conjunct2, THEN conjunct2, THEN spec, THEN mp]
  have row: "\<exists>p. DeploymentQid_wf p \<and> supersedes r q p \<and> p = ?to (c, n)" if "(c, n) \<in> set ?cols" for c n
  proof -
    from that have mem: "((repo_str (qid_repo (client_repo q)), env_str (client_env q), c, n), ?by) \<in> set ?rows" by auto
    then obtain p where p: "DeploymentQid_wf p" "qid_org_str q = qid_org_str p"
      "client_key p = (repo_str (qid_repo (client_repo q)), env_str (client_env q), c, n)" using keys [OF imageI [OF mem, of fst]] by auto
    note q = client_key_cases [OF p(3) p(2) [symmetric]]
    have "get_row (client_key p) ?rows = Some ?by" using mem p(3) by (simp add: key_before.clustered_get_row [OF clustered])
    with get [OF p(1)] p(2) have "superseder r p = Some (dep_id q)"
      using id_columns_inj [of _ "dep_id q"] by (auto simp: id_columns_def)
    with p(1) q show ?thesis by (auto simp: supersedes_def)
  qed
  have "set (map ?to ?cols) = {p. supersedes r q p}"
  proof (intro equalityI subsetI)
    fix p assume "p \<in> set (map ?to ?cols)"
    then obtain cn where cn: "cn \<in> set ?cols" "p = ?to cn" unfolding set_map [of ?to] by (elim imageE)
    obtain c n where "cn = (c, n)" by fastforce
    with row [of c n] cn show "p \<in> {p. supersedes r q p}" by auto
  next
    fix p assume "p \<in> {p. supersedes r q p}"
    then have p: "superseder r p = Some (dep_id q)" "dep_env p = dep_env q" by (simp_all add: supersedes_def)
    then have "get_row (client_key p) ?rows = Some ?by" using get [OF wf [OF p(1)]] p by (simp add: id_columns_def)
    then have "(client_key p, ?by) \<in> set ?rows" by (auto simp: get_row_def dest: map_of_SomeD)
    then have "(client_key p, ?by) \<in> set (filter ?mine ?rows)" using p(2) by (simp add: client_key_def)
    then have "(\<lambda>((r, e, c, n), _). (c, n)) (client_key p, ?by) \<in> set ?cols" unfolding set_map by (rule imageI)
    then have "id_columns (dep_id p) \<in> set ?cols" by (simp only: client_key_def id_columns_def prod.case)
    moreover have "p = ?to (id_columns (dep_id p))" 
      by (rule DeploymentQid.equality) (simp_all add: id_columns_def p(2))
    ultimately show "p \<in> set (map ?to ?cols)" unfolding set_map [of ?to] by (rule image_eqI [rotated])
  qed
  moreover
  have "parse_superseded q ?cols = Inr (map ?to ?cols)"
  proof (rule parse_superseded_ok)
    fix c n assume "(c, n) \<in> set ?cols"
    from row [OF this] obtain p where "DeploymentQid_wf p" "p = ?to (c, n)" by blast
    with wf_commit_length [of p] show "length c = 40" by simp
  qed
  then have "superseded up q d = (Inr (map ?to ?cols), \<lparr>executed = Suc (executed d), tables = tables d\<rparr>)"
    unfolding superseded_def seq_up by (simp only: of_result_def done_with_def sum.case)
  ultimately show ?thesis by blast
qed

definition made_undesired :: "Deployment \<Rightarrow> Deployment" where
  "made_undesired dep = (if d_state dep = Desired \<or> d_state dep = Lingering then dep\<lparr>d_state := Undesired\<rparr> else dep)"

lemma made_undesired_idem [simp]: "made_undesired (made_undesired dep) = made_undesired dep"
  by (simp add: made_undesired_def)

lemma on_cdb_step: "m (de_cdb st) = (Inr x, cdb) \<Longrightarrow> seq (on_cdb f m) k st = k x (st\<lparr>de_cdb := cdb\<rparr>)"
  by (simp add: seq_def on_cdb_def map_err_def lift_op_def)

lemma on_cdb_last: "m (de_cdb st) = (Inr x, cdb) \<Longrightarrow> on_cdb f m st = (Inr x, st\<lparr>de_cdb := cdb\<rparr>)"
  by (simp add: on_cdb_def map_err_def lift_op_def)

lemma retire_up:
  assumes "represents r (tables (de_cdb st))" "de_cdb_net env = up" "deps r p = Some dep"
  shows "\<exists>cdb. retire env now p st = (Inr (), st\<lparr>de_cdb := cdb\<rparr>) \<and>
    represents (r\<lparr>deps := (deps r)(p \<mapsto> made_undesired dep)\<rparr>) (tables cdb)"
proof -
  have ok: "by_id_ok (deps r) (tables (de_cdb st))" using assms(1) by (simp add: represents_def)
  note wf = by_id_okD(2) [OF ok assms(3)]
  let ?cdb = "\<lparr>executed = Suc (executed (de_cdb st)), tables = tables (de_cdb st)\<rparr>"
  let ?active = "d_state dep = Desired \<or> d_state dep = Lingering"
  have "dep_get up p (de_cdb st) = (Inr dep, ?cdb)" by (simp add: dep_get_up [OF ok wf] assms(3))
  from on_cdb_step [of "dep_get up p", OF this]
  have run: "retire env now p st =
      (if ?active then on_cdb DeCdbSet (dep_set up p now Undesired) else done_with ()) (st\<lparr>de_cdb := ?cdb\<rparr>)"
    unfolding retire_def assms(2) .
  show ?thesis
  proof (cases ?active)
    case True
    obtain cdb where "dep_set up p now Undesired ?cdb = (Inr (), cdb)" "represents (abs_set p now Undesired r) (tables cdb)"
      using refinesD [OF dep_set_refines [OF wf], of r ?cdb now Undesired] assms(1) by auto
    moreover have "abs_set p now Undesired r = r\<lparr>deps := (deps r)(p \<mapsto> made_undesired dep)\<rparr>"
      using True assms(3) by (auto simp: abs_set_def made_undesired_def)
    ultimately show ?thesis
      unfolding run if_P [OF True] by (intro exI [of _ cdb]) (simp add: on_cdb_last)
  next
    case False
    then have "r\<lparr>deps := (deps r)(p \<mapsto> made_undesired dep)\<rparr> = r" using assms(3) by (simp add: made_undesired_def fun_upd_idem)
    then show ?thesis
      unfolding run if_not_P [OF False] using assms(1) by (intro exI [of _ ?cdb]) (simp add: done_with_def)
  qed
qed

lemma retire_all:
  assumes "represents r (tables (de_cdb st))" "de_cdb_net env = up" "\<And>p. p \<in> set ps \<Longrightarrow> deps r p \<noteq> None"
  shows "\<exists>cdb. seq_list (retire env now) ps st = (Inr (), st\<lparr>de_cdb := cdb\<rparr>) \<and>
    represents (r\<lparr>deps := \<lambda>p. if p \<in> set ps then map_option made_undesired (deps r p) else deps r p\<rparr>) (tables cdb)"
  using assms(1,3)
proof (induction ps arbitrary: r st)
  case Nil
  then show ?case by (intro exI [of _ "de_cdb st"]) (simp add: done_with_def)
next
  case (Cons p ps)
  from Cons.prems(2) [of p] obtain dep where dep: "deps r p = Some dep" by auto
  let ?r = "r\<lparr>deps := (deps r)(p \<mapsto> made_undesired dep)\<rparr>"
  obtain cdb where one: "retire env now p st = (Inr (), st\<lparr>de_cdb := cdb\<rparr>)" "represents ?r (tables cdb)"
    using retire_up [OF Cons.prems(1) assms(2) dep] by blast
  have "\<exists>cdb'. seq_list (retire env now) ps (st\<lparr>de_cdb := cdb\<rparr>) = (Inr (), st\<lparr>de_cdb := cdb\<rparr>\<lparr>de_cdb := cdb'\<rparr>) \<and>
      represents (?r\<lparr>deps := \<lambda>p. if p \<in> set ps then map_option made_undesired (deps ?r p) else deps ?r p\<rparr>) (tables cdb')"
    by (rule Cons.IH) (use one(2) Cons.prems(2) in auto)
  moreover have "?r\<lparr>deps := \<lambda>p. if p \<in> set ps then map_option made_undesired (deps ?r p) else deps ?r p\<rparr> =
      r\<lparr>deps := \<lambda>x. if x \<in> set (p # ps) then map_option made_undesired (deps r x) else deps r x\<rparr>"
    using dep by (auto simp: fun_eq_iff)
  ultimately show ?case using one(1) by (simp add: seq_def)
qed

definition abs_converge :: "DeploymentQid \<Rightarrow> Registry \<Rightarrow> Registry" where
  "abs_converge q r = r\<lparr>deps := \<lambda>p.
    if p = q then map_option (\<lambda>dep. dep\<lparr>d_bootstrapped := True\<rparr>) (deps r p)
    else if supersedes r q p then map_option made_undesired (deps r p)
    else deps r p\<rparr>"

lemma progress_up:
  assumes "represents r (tables (de_cdb st))" "de_cdb_net env = up" "DeploymentQid_wf (de_client env)" "deps r (de_client env) = Some dep"
  shows "\<exists>cdb. (if d_bootstrapped dep then done_with () else on_cdb DeCdbSet (set_progress up (de_client env) True)) st
      = (Inr (), st\<lparr>de_cdb := cdb\<rparr>) \<and>
    represents (r\<lparr>deps := (deps r)(de_client env \<mapsto> dep\<lparr>d_bootstrapped := True\<rparr>)\<rparr>) (tables cdb)"
proof (cases "d_bootstrapped dep")
  case True
  then have "dep\<lparr>d_bootstrapped := True\<rparr> = dep" by simp
  then have "r\<lparr>deps := (deps r)(de_client env \<mapsto> dep\<lparr>d_bootstrapped := True\<rparr>)\<rparr> = r" using assms(4) by (simp add: fun_upd_idem)
  with True assms(1) show ?thesis by (intro exI [of _ "de_cdb st"]) (simp add: done_with_def)
next
  case False
  obtain cdb where "set_progress up (de_client env) True (de_cdb st) = (Inr (), cdb)"
    "represents (r\<lparr>deps := (deps r)(de_client env \<mapsto> dep\<lparr>d_bootstrapped := True\<rparr>)\<rparr>) (tables cdb)"
    using set_progress_up [OF assms(3,1,4)] by blast
  with False show ?thesis by (intro exI [of _ cdb]) (simp add: on_cdb_last)
qed

lemma converged_up:
  assumes "represents r (tables (de_cdb st))" "de_cdb_net env = up" "DeploymentQid_wf (de_client env)"
    "deps r (de_client env) = Some dep" "superseder r (de_client env) = None"
    "\<And>p. supersedes r (de_client env) p \<Longrightarrow> deps r p \<noteq> None"
  shows "\<exists>cdb. converged env now dep ev st =
      (Inr (worked (has_volatile_owned_resource ev \<or> has_volatile_cross_repo_pins ev) Desired DeSuccess), st\<lparr>de_cdb := cdb\<rparr>) \<and>
    represents (abs_converge (de_client env) r) (tables cdb)"
proof -
  let ?q = "de_client env"
  let ?r = "r\<lparr>deps := (deps r)(?q \<mapsto> dep\<lparr>d_bootstrapped := True\<rparr>)\<rparr>"
  obtain cdb1 where one: "(if d_bootstrapped dep then done_with () else on_cdb DeCdbSet (set_progress up ?q True)) st
      = (Inr (), st\<lparr>de_cdb := cdb1\<rparr>)" "represents ?r (tables cdb1)"
    using progress_up [OF assms(1-4)] by blast
  have sup: "supersedes ?r ?q = supersedes r ?q" by (simp add: supersedes_def fun_eq_iff)
  obtain ps k where ps: "superseded up ?q cdb1 = (Inr ps, \<lparr>executed = k, tables = tables cdb1\<rparr>)" "set ps = {p. supersedes r ?q p}"
    using superseded_up [of ?r cdb1 ?q] one(2) unfolding represents_def sup by blast
  let ?st = "st\<lparr>de_cdb := \<lparr>executed = k, tables = tables cdb1\<rparr>\<rparr>"
  have "represents ?r (tables (de_cdb ?st))" "\<And>p. p \<in> set ps \<Longrightarrow> deps ?r p \<noteq> None"
    using one(2) assms(6) by (auto simp: ps(2))
  from retire_all [where ps = ps and now = now, OF this(1) assms(2) this(2)]
  obtain cdb where two: "seq_list (retire env now) ps ?st = (Inr (), ?st\<lparr>de_cdb := cdb\<rparr>)"
    "represents (?r\<lparr>deps := \<lambda>p. if p \<in> set ps then map_option made_undesired (deps ?r p) else deps ?r p\<rparr>) (tables cdb)" by blast
  have "?q \<notin> set ps" using assms(5) by (simp add: ps(2) supersedes_def)
  then have eq: "?r\<lparr>deps := \<lambda>p. if p \<in> set ps then map_option made_undesired (deps ?r p) else deps ?r p\<rparr> = abs_converge ?q r"
    using assms(4) by (auto simp: abs_converge_def ps(2) fun_eq_iff)
  have trans: "transition_superseded_to_undesired env now (st\<lparr>de_cdb := cdb1\<rparr>) = (Inr (), st\<lparr>de_cdb := cdb\<rparr>)"
    unfolding transition_superseded_to_undesired_def assms(2)
    using two(1) by (simp add: seq_def on_cdb_def map_err_def lift_op_def ps(1))
  show ?thesis
    using two(2) unfolding eq converged_def assms(2)
    by (intro exI [of _ cdb]) (simp only: seq_def one(1) trans prod.case sum.case done_with_def simp_thms)
qed

text \<open>
  C9. A rollout hands over. A deployment is made desired, and later its worker finds that it has
  converged: it is then desired and bootstrapped, every deployment of the environment that was
  desired before is undesired, and every other deployment is as it was.
\<close>

theorem rollout_hands_over:
  assumes "represents r (tables d)" "DeploymentQid_wf (de_client env)" "arranges arr" "de_cdb_net env = up"
    "deps r (de_client env) = None" "superseder r (de_client env) = None" "\<forall>p. \<not> supersedes r (de_client env) p"
    "make_desired up arr (de_client env) t d = (Inr (), de_cdb st)" "dep_get up (de_client env) (de_cdb st) = (Inr dep, d1)"
  shows "\<exists>cdb r'. converged env now dep ev st =
      (Inr (worked (has_volatile_owned_resource ev \<or> has_volatile_cross_repo_pins ev) Desired DeSuccess), st\<lparr>de_cdb := cdb\<rparr>) \<and>
    represents r' (tables cdb) \<and>
    (\<forall>p. deps r' p =
      (if p = de_client env then Some (dep\<lparr>d_state := Desired, d_bootstrapped := True\<rparr>)
       else if dep_env p = dep_env (de_client env) \<and> map_option d_state (deps r p) = Some Desired
       then map_option (\<lambda>dep. dep\<lparr>d_state := Undesired\<rparr>) (deps r p)
       else deps r p))"
proof -
  let ?q = "de_client env" and ?r = "abs_make_desired (de_client env) t r"
  from refinesD [OF make_desired_refines [OF assms(2,3), of t] assms(1)] assms(8)
  have rep: "represents ?r (tables (de_cdb st))" by simp
  then have "by_id_ok (deps ?r) (tables (de_cdb st))" by (simp add: represents_def)
  from dep_get_up [OF this assms(2)] assms(9) have dep: "deps ?r ?q = Some dep" by (auto split: option.splits)
  have none: "superseder ?r ?q = None" using assms(6) by (simp add: abs_make_desired_def abs_set_def takes_over_def)
  have sup: "supersedes ?r ?q p \<longleftrightarrow> takes_over r ?q p" for p
    using assms(7) by (auto simp: supersedes_def abs_make_desired_def abs_set_def takes_over_def split: if_splits)
  have known: "deps ?r p \<noteq> None" if "supersedes ?r ?q p" for p
    using that unfolding sup by (auto simp: takes_over_def abs_make_desired_def abs_set_def)
  obtain cdb where c: "converged env now dep ev st =
      (Inr (worked (has_volatile_owned_resource ev \<or> has_volatile_cross_repo_pins ev) Desired DeSuccess), st\<lparr>de_cdb := cdb\<rparr>)"
      "represents (abs_converge ?q ?r) (tables cdb)"
    using converged_up [OF rep assms(4,2) dep none known] by blast
  have "deps (abs_converge ?q ?r) p =
      (if p = ?q then Some (dep\<lparr>d_state := Desired, d_bootstrapped := True\<rparr>)
       else if dep_env p = dep_env ?q \<and> map_option d_state (deps r p) = Some Desired
       then map_option (\<lambda>dep. dep\<lparr>d_state := Undesired\<rparr>) (deps r p) else deps r p)" for p
  proof (cases "p = ?q")
    case True
    have "d_state dep = Desired" using dep assms(5) by (auto simp: abs_make_desired_def abs_set_def takes_over_def)
    then have "dep\<lparr>d_state := Desired\<rparr> = dep" by (simp flip: deployment_eta)
    with True dep show ?thesis by (simp add: abs_converge_def)
  next
    case False
    then have "deps (abs_converge ?q ?r) p = (if takes_over r ?q p then map_option made_undesired (deps ?r p) else deps ?r p)"
      by (simp add: abs_converge_def sup)
    moreover have "deps ?r p = (if takes_over r ?q p then lingers (deps r p) else deps r p)"
      using False by (simp add: abs_make_desired_def abs_set_def)
    ultimately show ?thesis using False by (auto simp: takes_over_def made_undesired_def option.map_comp o_def)
  qed
  with c show ?thesis by blast
qed

theorem rollout_hands_over_witness:
  "\<exists>d (st :: string DeState) dep d1 (cdb :: CdbTables Db) (r' :: Registry). make_desired up (\<lambda>xs. xs) example_dep 5 d = (Inr (), de_cdb st) \<and>
    dep_get up example_dep (de_cdb st) = (Inr dep, d1) \<and>
    represents r' (tables cdb) \<and> map_option d_bootstrapped (deps r' example_dep) = Some True"
proof -
  let ?env = "example_de_env up" and ?d0 = "\<lparr>executed = 0, tables = empty_cdb\<rparr>"
  let ?ev = "\<lparr>touched_resource_ids = {}, fully_explored = True, eo_had_effect = False, compile_error_message = None,
    has_volatile_owned_resource = False, has_volatile_cross_repo_pins = False\<rparr>"
  from refinesD [OF make_desired_refines [OF example_deps(1) arranges_id, of 5] represents_empty] obtain d1 where
    d1: "make_desired up (\<lambda>xs. xs) example_dep 5 ?d0 = (Inr (), d1)"
      "represents (abs_make_desired example_dep 5 no_deployments) (tables d1)" by blast
  let ?st = "example_de d1 empty_rdb"
  have "by_id_ok (deps (abs_make_desired example_dep 5 no_deployments)) (tables d1)" using d1(2) by (simp add: represents_def)
  from dep_get_up [OF this example_deps(1)] obtain dep d2 where dep: "dep_get up example_dep d1 = (Inr dep, d2)"
    by (auto simp: abs_make_desired_def abs_set_def no_deployments_def)
  have e: "DeploymentQid_wf (de_client ?env)" "de_cdb_net ?env = up" "de_client ?env = example_dep"
    "deps no_deployments (de_client ?env) = None" "superseder no_deployments (de_client ?env) = None"
    "\<forall>p. \<not> supersedes no_deployments (de_client ?env) p" "de_cdb ?st = d1"
    using example_deps(1) by (simp_all add: example_de_env_def example_de_def no_deployments_def supersedes_def)
  have "make_desired up (\<lambda>xs. xs) (de_client ?env) 5 ?d0 = (Inr (), de_cdb ?st)"
    "dep_get up (de_client ?env) (de_cdb ?st) = (Inr dep, d2)" using d1(1) dep by (simp_all add: e(3,7))
  from rollout_hands_over [where now = 9 and ev = ?ev, OF represents_empty e(1) arranges_id e(2,4,5,6) this] obtain cdb :: "CdbTables Db" and r' :: Registry where "represents r' (tables cdb)"
    "\<forall>p. deps r' p = (if p = de_client ?env then Some (dep\<lparr>d_state := Desired, d_bootstrapped := True\<rparr>)
       else if dep_env p = dep_env (de_client ?env) \<and> map_option d_state (deps no_deployments p) = Some Desired
       then map_option (\<lambda>dep. dep\<lparr>d_state := Undesired\<rparr>) (deps no_deployments p) else deps no_deployments p)"
    by blast
  then have "represents r' (tables cdb)" "map_option d_bootstrapped (deps r' example_dep) = Some True"
    by (simp_all add: e(3))
  with d1(1) dep e(7) show ?thesis
    by (intro exI [of _ ?d0] exI [of _ ?st] exI [of _ dep] exI [of _ d2] exI [of _ cdb] exI [of _ r']) simp
qed

section \<open>Failed evaluations\<close>

definition remote_free :: "('r, 'v) DeEnv \<Rightarrow> 'v DeState \<Rightarrow> bool" where
  "remote_free env st \<longleftrightarrow> resource_regions (tables (de_rdb st (de_region env))) (de_ns env) = []"

lemma all_known_up:
  assumes "home_holds env st all" "de_rdb_net env (de_region env) = up" "remote_free env st"
  shows "all_known_resources env st = (Inr all, looked_up env (looked_up env st))"
proof -
  have "all_known_resources env st =
      seq (on_region (de_region env) (list_resource_regions up (de_ns env))) (\<lambda>index.
        seq (region_reads env (remdups (filter (\<lambda>r. r \<noteq> de_region env) (map rg_region index)))) (\<lambda>remote. done_with (all @ remote)))
      (looked_up env st)"
    unfolding all_known_resources_def home_resources_up [OF assms(1,2)] assms(2) ..
  also have "\<dots> = (Inr all, looked_up env (looked_up env st))"
    using assms(3)
    by (simp add: remote_free_def on_region_def list_resource_regions_def seq_def map_err_def lift_op_def looked_up_def
        of_result_def done_with_def)
  finally show ?thesis .
qed

text \<open>What an evaluation that emits nothing amounts to.\<close>

definition silent_outcome :: "string \<Rightarrow> bool \<Rightarrow> 'r Resource list \<Rightarrow> EvalOutcome" where
  "silent_outcome owner pins all =
    \<lparr>touched_resource_ids = {}, fully_explored = True, eo_had_effect = False, compile_error_message = None,
     has_volatile_owned_resource = volatile_owned (fold (absorb_resource owner) all nothing_known),
     has_volatile_cross_repo_pins = pins\<rparr>"

lemma silent_evaluation_up:
  assumes "home_holds env st all" "de_rdb_net env (de_region env) = up" "remote_free env st"
    "it_compiled it = Program pins evaluate" "evaluate all = ([], e)"
  shows "compile_and_evaluate env it st = (Inr (silent_outcome (de_owner env) pins all), looked_up env (looked_up env st))"
  unfolding compile_and_evaluate_def assms(4)
  by (simp add: seq_def all_known_up [OF assms(1,2,3)] assms(5) silent_outcome_def)

definition untouched_doomed :: "string \<Rightarrow> ResourceId set \<Rightarrow> 'r Resource list \<Rightarrow> 'r Resource list" where
  "untouched_doomed owner ids all =
    filter (\<lambda>r. Sticky \<notin> res_markers r \<and> resource_id_from r \<notin>
        dependency_targets (filter (\<lambda>r. res_owner r \<noteq> Some owner \<or> resource_id_from r \<in> ids) all))
      (filter (\<lambda>r. res_owner r = Some owner \<and> resource_id_from r \<notin> ids) all)"

lemma destroy_untouched_up:
  assumes "home_holds env st all" "de_rdb_net env (de_region env) = up" "de_rtq_net env = up"
  shows "destroy_untouched_resources env owner dep ids st =
    (Inr (), sent (destroys env dep (untouched_doomed owner ids all)) (looked_up env st))"
  unfolding destroy_untouched_resources_def Let_def home_resources_up [OF assms(1,2)] untouched_doomed_def
  by (simp add: destroys_up [OF assms(3)])

text \<open>
  C36. An error of the evaluation is only logged. A program whose evaluation stops with an error
  before it emits an effect counts as fully explored and converged: the iteration reports a success
  and asks to destroy every resource of the deployment in the home region that is not sticky and
  that no resource of another owner depends on.
\<close>

theorem failed_evaluation_destroys:
  assumes "home_holds env st all" "remote_free env st" "de_rdb_net env (de_region env) = up" "de_rtq_net env = up"
    "de_cdb_net env = up" "represents r (tables (de_cdb st))" "DeploymentQid_wf (de_client env)"
    "deps r (de_client env) = Some dep" "superseder r (de_client env) = None"
    "\<forall>p. supersedes r (de_client env) p \<longrightarrow> deps r p \<noteq> None"
    "it_main it = Inr True" "it_compiled it = Program pins evaluate" "evaluate all = ([], Some error)"
    "x \<in> set all" "res_owner x = Some (de_owner env)" "Sticky \<notin> res_markers x"
    "\<forall>y\<in>set all. resource_id_from x \<in> set (res_dependencies y) \<longrightarrow> res_owner y = Some (de_owner env)"
  shows "\<exists>wr st'. reconcile env it dep st = (Inr wr, st') \<and> wr_outcome wr = DeSuccess \<and>
    (res_region x, destroy_message env (dep_id (de_client env)) (resource_id_from x)) \<in> set (tables (de_rtq st')) \<and>
    represents (abs_converge (de_client env) r) (tables (de_cdb st'))"
proof -
  let ?q = "de_client env" and ?o = "de_owner env"
  have ok: "superseder_ok (superseder r) (tables (de_cdb st))" "by_id_ok (deps r) (tables (de_cdb st))"
    using assms(6) by (simp_all add: represents_def)
  note q = by_id_okD(1) [OF ok(2) assms(8)]
  have dep: "d_deployment dep = dep_id ?q" using arg_cong [OF q, of dep_id] by (simp add: deployment_qid_def)
  let ?st1 = "st\<lparr>de_cdb := \<lparr>executed = Suc (executed (de_cdb st)), tables = tables (de_cdb st)\<rparr>\<rparr>"
  let ?st2 = "looked_up env (looked_up env ?st1)"
  let ?ev = "silent_outcome ?o pins all"
  have holds: "home_holds env ?st1 all" "remote_free env ?st1" "home_holds env ?st2 all"
    using assms(1,2) by (simp_all add: home_holds_def remote_free_def looked_up_def)
  note eval = silent_evaluation_up [OF holds(1) assms(3) holds(2) assms(12,13)]
  have run: "reconcile env it dep st = evaluated env (it_now it) dep ?ev ?st2"
    unfolding reconcile_def assms(5) assms(11)
    by (simp add: seq_def on_cdb_def map_err_def lift_op_def get_superseding_up [OF ok(1) assms(7)] assms(9)
        of_result_def done_with_def tried_def eval)
  let ?st3 = "sent (destroys env (dep_id ?q) (untouched_doomed ?o {} all)) (looked_up env ?st2)"
  note destroy = destroy_untouched_up [OF holds(3) assms(3,4)]
  have "represents r (tables (de_cdb ?st3))" using assms(6) by (simp add: sent_def looked_up_def)
  from converged_up [OF this assms(5,7,8,9)] assms(10) obtain cdb wr where
    c: "converged env (it_now it) dep ?ev ?st3 = (Inr wr, ?st3\<lparr>de_cdb := cdb\<rparr>)" "wr_outcome wr = DeSuccess"
      "represents (abs_converge ?q r) (tables cdb)" by (fastforce simp: worked_def)
  have "evaluated env (it_now it) dep ?ev ?st2 = (Inr wr, ?st3\<lparr>de_cdb := cdb\<rparr>)"
    using c(1) by (simp add: evaluated_def silent_outcome_def q dep seq_def destroy)
  moreover have "x \<in> set (untouched_doomed ?o {} all)"
    using assms(14-17) by (auto simp: untouched_doomed_def dependency_targets_def)
  ultimately show ?thesis using c(2,3) run by (auto simp: sent_def)
qed

theorem failed_evaluation_destroys_witness:
  "\<exists>(st :: string DeState) dep wr st'.
    reconcile (example_de_env up) (example_it (Program False (\<lambda>_. ([], Some ''division by zero'')))) dep st = (Inr wr, st') \<and>
    wr_outcome wr = DeSuccess \<and> tables (de_rtq st) = [] \<and>
    (RegionId ''eu'', destroy_message (example_de_env up) (example_did 7) (resource_id_from example_db_res)) \<in> set (tables (de_rtq st'))"
proof -
  let ?env = "example_de_env up" and ?it = "example_it (Program False (\<lambda>_. ([], Some ''division by zero'')))"
  from refinesD [OF make_desired_refines [OF example_deps(1) arranges_id, of 5] represents_empty] obtain d1 :: "CdbTables Db" where
    d1: "represents (abs_make_desired example_dep 5 no_deployments) (tables d1)" by blast
  let ?st = "example_de d1 example_rdb" and ?r = "abs_make_desired example_dep 5 no_deployments"
  have e: "remote_free ?env ?st" "de_rdb_net ?env (de_region ?env) = up" "de_rtq_net ?env = up" "de_cdb_net ?env = up"
      "represents ?r (tables (de_cdb ?st))" "DeploymentQid_wf (de_client ?env)"
    and r: "superseder ?r (de_client ?env) = None" "\<forall>p. supersedes ?r (de_client ?env) p \<longrightarrow> deps ?r p \<noteq> None"
    and i: "it_main ?it = Inr True" "it_compiled ?it = Program False (\<lambda>_. ([], Some ''division by zero''))"
    and x: "example_db_res \<in> set [example_db_res]" "res_owner example_db_res = Some (de_owner ?env)" "Sticky \<notin> res_markers example_db_res"
      "\<forall>y\<in>set [example_db_res]. resource_id_from example_db_res \<in> set (res_dependencies y) \<longrightarrow> res_owner y = Some (de_owner ?env)"
    using d1 example_deps(1)
    by (simp_all add: remote_free_def example_de_env_def example_de_def example_rdb_def example_it_def example_db_res_def
        blank_resource_def no_deployments_def abs_make_desired_def abs_set_def takes_over_def supersedes_def)
  obtain dep where dep: "deps ?r (de_client ?env) = Some dep"
    by (simp add: example_de_env_def abs_make_desired_def abs_set_def no_deployments_def)
  from failed_evaluation_destroys [OF example_home e dep r i refl x] obtain wr st' where
    "reconcile ?env ?it dep ?st = (Inr wr, st')" "wr_outcome wr = DeSuccess"
    "(res_region example_db_res, destroy_message ?env (dep_id (de_client ?env)) (resource_id_from example_db_res)) \<in> set (tables (de_rtq st'))"
    by blast
  then show ?thesis
    by (intro exI [of _ ?st] exI [of _ dep] exI [of _ wr] exI [of _ st'])
      (simp add: example_db_res_def blank_resource_def example_de_env_def example_dep_def example_de_def)
qed

end
