(* ===== verification/De_Daemon.thy ===== *)
theory De_Daemon
  imports De_Reconcile
begin

text \<open>
  Which workers a daemon keeps: one for each active deployment it owns, with an idle worker started
  again only when its deployment has been superseded.
\<close>

lemma find_by_qids_up:
  fixes d :: "CdbTables Db"
  assumes ok: "by_id_ok D (tables d)" "arranges arr" and qids: "\<And>s. s \<in> set qids \<Longrightarrow> \<exists>q dep. D q = Some dep \<and> s = DeploymentQid_display q"
  shows "\<exists>xs k. find_deployments_by_qids up arr qids d = (Inr (map Inr xs), \<lparr>executed = k, tables = tables d\<rparr>) \<and>
    set xs = {dep. \<exists>q. D q = Some dep \<and> DeploymentQid_display q \<in> set qids}"
proof -
  let ?f = "deployments_by_id (tables d)" and ?X = "{dep. \<exists>q. D q = Some dep \<and> DeploymentQid_display q \<in> set qids}"
  define rows where "rows = map deployment_from_row (List.map_filter ?f (arr qids))"
  have stored: "?f (DeploymentQid_display q) = Some (row_of_deployment dep)" "deployment_from_row (row_of_deployment dep) = Inr dep"
    if "D q = Some dep" for q dep
    using by_id_okD [OF ok(1)] that deployment_from_row_of by auto
  have "set rows = Inr ` ?X"
  proof (intro set_eqI iffI)
    fix y assume "y \<in> set rows"
    then obtain s row where s: "s \<in> set qids" "?f s = Some row" "y = deployment_from_row row"
      unfolding rows_def set_map [of deployment_from_row] set_map_filter arranges_set [OF ok(2)] by blast
    from qids [OF s(1)] obtain q dep where q: "D q = Some dep" "s = DeploymentQid_display q" by blast
    have "y = Inr dep" using stored [OF q(1)] s(2,3) q(2) by simp
    moreover have "dep \<in> ?X" using q s(1) by blast
    ultimately show "y \<in> Inr ` ?X" by (rule image_eqI)
  next
    fix y :: "DeploymentQueryError + Deployment"
    assume "y \<in> Inr ` ?X"
    then obtain q dep where q: "D q = Some dep" "DeploymentQid_display q \<in> set qids" "y = Inr dep" by blast
    then have "row_of_deployment dep \<in> {row. \<exists>s\<in>set qids. ?f s = Some row}" using stored(1) by blast
    then have "deployment_from_row (row_of_deployment dep) \<in> set rows"
      unfolding rows_def set_map [of deployment_from_row] set_map_filter arranges_set [OF ok(2)] by (rule imageI)
    then show "y \<in> set rows" unfolding stored(2) [OF q(1)] q(3) .
  qed
  note set_rows = this
  then have "\<forall>r\<in>set rows. \<exists>x. r = Inr x" by blast
  then obtain xs where xs: "rows = map Inr xs" by (metis ex_map_conv)
  have set_xs: "set xs = ?X" using set_rows by (simp add: xs inj_image_eq_iff)
  show ?thesis
  proof (cases "qids = []")
    case True
    then have "?X = {}" by simp
    with True show ?thesis
      by (intro exI [of _ "[]"] exI [of _ "executed d"]) (simp add: find_deployments_by_qids_def done_with_def)
  next
    case False
    with xs have "find_deployments_by_qids up arr qids d = (Inr (map Inr xs), \<lparr>executed = Suc (executed d), tables = tables d\<rparr>)"
      by (simp add: find_deployments_by_qids_def rows_def)
    with set_xs show ?thesis by blast
  qed
qed

definition active_in :: "Registry \<Rightarrow> Deployment set" where
  "active_in r = {dep. \<exists>q. deps r q = Some dep \<and> d_state dep \<noteq> Down}"

lemma all_active_up:
  fixes d :: "CdbTables Db"
  assumes "represents r (tables d)" "arranges arr" "\<And>q. deps r q \<noteq> None \<Longrightarrow> qid_org_str q \<in> set orgs"
  shows "\<exists>xs k. all_active_deployments up arr orgs d = (Inr (map Inr xs), \<lparr>executed = k, tables = tables d\<rparr>) \<and> set xs = active_in r"
proof -
  have ok: "by_id_ok (deps r) (tables d)" "active_ok (deps r) (tables d)" using assms(1) by (simp_all add: represents_def)
  let ?qids = "map snd (concat (map (active_deployments (tables d)) orgs))"
  have active: "(k, s) \<in> set (active_deployments (tables d) org) \<longleftrightarrow>
      (\<exists>q dep. deps r q = Some dep \<and> d_state dep \<noteq> Down \<and> org = qid_org_str q \<and> k = client_key q \<and> s = DeploymentQid_display q)" for org k s
    using ok(2) unfolding active_ok_def by blast
  have qids: "s \<in> set ?qids \<longleftrightarrow> (\<exists>q dep. deps r q = Some dep \<and> d_state dep \<noteq> Down \<and> s = DeploymentQid_display q)" for s
  proof
    assume "s \<in> set ?qids"
    then obtain org k where "(k, s) \<in> set (active_deployments (tables d) org)" by auto
    then show "\<exists>q dep. deps r q = Some dep \<and> d_state dep \<noteq> Down \<and> s = DeploymentQid_display q" unfolding active by blast
  next
    assume "\<exists>q dep. deps r q = Some dep \<and> d_state dep \<noteq> Down \<and> s = DeploymentQid_display q"
    then obtain q dep where q: "deps r q = Some dep" "d_state dep \<noteq> Down" "s = DeploymentQid_display q" by blast
    then have "(client_key q, s) \<in> set (active_deployments (tables d) (qid_org_str q))" unfolding active by blast
    with assms(3) [of q] q(1) show "s \<in> set ?qids" by force
  qed
  let ?d = "\<lparr>executed = Suc (executed d), tables = tables d\<rparr>"
  have "\<exists>xs k. find_deployments_by_qids up arr ?qids ?d = (Inr (map Inr xs), \<lparr>executed = k, tables = tables ?d\<rparr>) \<and>
      set xs = {dep. \<exists>q. deps r q = Some dep \<and> DeploymentQid_display q \<in> set ?qids}"
    by (rule find_by_qids_up) (use ok(1) assms(2) qids in \<open>simp, simp, blast\<close>)
  then obtain xs k where
    found: "find_deployments_by_qids up arr ?qids ?d = (Inr (map Inr xs), \<lparr>executed = k, tables = tables d\<rparr>)"
      "set xs = {dep. \<exists>q. deps r q = Some dep \<and> DeploymentQid_display q \<in> set ?qids}" unfolding Db.select_convs by blast
  have "set xs = active_in r"
  proof (intro set_eqI iffI)
    fix dep assume "dep \<in> set xs"
    then obtain q where q: "deps r q = Some dep" "DeploymentQid_display q \<in> set ?qids" unfolding found(2) by blast
    then obtain p dep' where "deps r p = Some dep'" "d_state dep' \<noteq> Down" "DeploymentQid_display q = DeploymentQid_display p"
      unfolding qids by blast
    with q(1) by_id_okD(2) [OF ok(1)] have "p = q" using DeploymentQid_display_inj by blast
    with q(1) \<open>deps r p = Some dep'\<close> \<open>d_state dep' \<noteq> Down\<close> show "dep \<in> active_in r" by (auto simp: active_in_def)
  next
    fix dep assume "dep \<in> active_in r"
    then obtain q where "deps r q = Some dep" "d_state dep \<noteq> Down" unfolding active_in_def by blast
    then show "dep \<in> set xs" unfolding found(2) mem_Collect_eq qids by blast
  qed
  with found(1) show ?thesis by (simp add: all_active_deployments_def)
qed

section \<open>A round of the daemon\<close>

text \<open>What visiting a deployment does to its slot.\<close>

definition visited :: "Registry \<Rightarrow> DeploymentQid \<Rightarrow> Slot option \<Rightarrow> Slot option" where
  "visited r q s = (if s = Some Idle \<and> superseder r q = None then Some Idle else Some Running)"

lemma visit_up:
  assumes "represents r (tables (dm_cdb st))" "dm_net dm = up" "\<And>k. dm_topic dm k" "DeploymentQid_wf (deployment_qid dep)"
  shows "\<exists>st'. visit_deployment dm dep st = (Inr (), st') \<and> tables (dm_cdb st') = tables (dm_cdb st) \<and>
    dm_workers st' = (dm_workers st)(DeploymentQid_display (deployment_qid dep) :=
      visited r (deployment_qid dep) (dm_workers st (DeploymentQid_display (deployment_qid dep))))"
proof -
  let ?q = "deployment_qid dep" and ?k = "DeploymentQid_display (deployment_qid dep)"
  have ok: "superseder_ok (superseder r) (tables (dm_cdb st))" using assms(1) by (simp add: represents_def)
  note sup = get_superseding_up [OF ok assms(4)]
  consider "dm_workers st ?k = None" | "dm_workers st ?k = Some Running" | "dm_workers st ?k = Some Idle"
    by (metis Slot.exhaust option.exhaust)
  then show ?thesis
    by cases (auto simp: visit_deployment_def should_spawn_def Let_def seq_def read_state_def modify_state_def done_with_def
        visited_def assms(2,3) on_daemon_cdb_def lift_op_def sup fun_upd_idem)
qed

lemma visits_up:
  assumes "represents r (tables (dm_cdb st))" "dm_net dm = up" "\<And>k. dm_topic dm k"
    "\<And>dep. dep \<in> set xs \<Longrightarrow> DeploymentQid_wf (deployment_qid dep)"
  shows "\<exists>st'. visit_deployments dm (map Inr xs) U st = (Inr (U - (DeploymentQid_display \<circ> deployment_qid) ` set xs), st') \<and>
    tables (dm_cdb st') = tables (dm_cdb st) \<and>
    (\<forall>q. DeploymentQid_wf q \<longrightarrow> dm_workers st' (DeploymentQid_display q) =
      (if q \<in> deployment_qid ` set xs then visited r q (dm_workers st (DeploymentQid_display q))
       else dm_workers st (DeploymentQid_display q)))"
  using assms(1,4)
proof (induction xs arbitrary: st U)
  case Nil
  then show ?case by (simp add: done_with_def)
next
  case (Cons dep xs)
  let ?q = "deployment_qid dep"
  have wf: "DeploymentQid_wf ?q" using Cons.prems(2) by simp
  obtain st1 where one: "visit_deployment dm dep st = (Inr (), st1)" "tables (dm_cdb st1) = tables (dm_cdb st)"
    "dm_workers st1 = (dm_workers st)(DeploymentQid_display ?q := visited r ?q (dm_workers st (DeploymentQid_display ?q)))"
    using visit_up [OF Cons.prems(1) assms(2,3) wf] by blast
  have "represents r (tables (dm_cdb st1))" using Cons.prems(1) one(2) by simp
  from Cons.IH [OF this, of "U - {DeploymentQid_display ?q}"] Cons.prems(2) obtain st2 where
    two: "visit_deployments dm (map Inr xs) (U - {DeploymentQid_display ?q}) st1 =
        (Inr (U - {DeploymentQid_display ?q} - (DeploymentQid_display \<circ> deployment_qid) ` set xs), st2)"
      "tables (dm_cdb st2) = tables (dm_cdb st1)"
      "\<And>q. DeploymentQid_wf q \<Longrightarrow> dm_workers st2 (DeploymentQid_display q) =
        (if q \<in> deployment_qid ` set xs then visited r q (dm_workers st1 (DeploymentQid_display q))
         else dm_workers st1 (DeploymentQid_display q))" by auto
  have "dm_workers st2 (DeploymentQid_display q) =
      (if q \<in> deployment_qid ` set (dep # xs) then visited r q (dm_workers st (DeploymentQid_display q))
       else dm_workers st (DeploymentQid_display q))" if "DeploymentQid_wf q" for q
    using two(3) [OF that] DeploymentQid_display_inj [OF that wf] by (auto simp: one(3) visited_def)
  moreover have "U - {DeploymentQid_display ?q} - (DeploymentQid_display \<circ> deployment_qid) ` set xs =
      U - (DeploymentQid_display \<circ> deployment_qid) ` set (dep # xs)" by auto
  ultimately show ?case using one two by (simp add: seq_def)
qed

definition watches :: "Daemon \<Rightarrow> Registry \<Rightarrow> DeploymentQid \<Rightarrow> bool" where
  "watches dm r q \<longleftrightarrow> (\<exists>dep. deps r q = Some dep \<and> d_state dep \<noteq> Down \<and>
    deployment_owned_by_worker (dep_id q) (dm_index dm) (dm_count dm))"

lemma daemon_up:
  assumes "represents r (tables (dm_cdb st))" "dm_net dm = up" "arranges (dm_arrange dm)" "\<And>k. dm_topic dm k"
    "\<And>q. deps r q \<noteq> None \<Longrightarrow> qid_org_str q \<in> set (dm_orgs dm)"
  shows "\<exists>st'. daemon_process dm st = (Inr (), st') \<and> tables (dm_cdb st') = tables (dm_cdb st) \<and>
    (\<forall>q. DeploymentQid_wf q \<longrightarrow> dm_workers st' (DeploymentQid_display q) =
      (if watches dm r q then visited r q (flip_exited (dm_exited dm) (dm_workers st) (DeploymentQid_display q)) else None))"
proof -
  have ok: "by_id_ok (deps r) (tables (dm_cdb st))" using assms(1) by (simp add: represents_def)
  obtain all k where all: "all_active_deployments up (dm_arrange dm) (dm_orgs dm) (dm_cdb st) =
      (Inr (map Inr all), \<lparr>executed = k, tables = tables (dm_cdb st)\<rparr>)" "set all = active_in r"
    using all_active_up [OF assms(1,3,5)] by blast
  define xs where "xs = filter (\<lambda>d. deployment_owned_by_worker (d_deployment d) (dm_index dm) (dm_count dm)) all"
  let ?w = "flip_exited (dm_exited dm) (dm_workers st)"
  let ?st = "st\<lparr>dm_cdb := \<lparr>executed = k, tables = tables (dm_cdb st)\<rparr>, dm_workers := ?w\<rparr>"
  have id: "d_deployment dep = dep_id q \<and> deployment_qid dep = q \<and> DeploymentQid_wf q" if "deps r q = Some dep" for q dep
    using by_id_okD(1,2) [OF ok that] by (auto simp: deployment_qid_def)
  have mine: "q \<in> deployment_qid ` set xs \<longleftrightarrow> watches dm r q" for q
    using id by (force simp: xs_def all(2) active_in_def watches_def image_iff)
  have wf: "DeploymentQid_wf (deployment_qid dep)" if "dep \<in> set xs" for dep
    using that id by (auto simp: xs_def all(2) active_in_def)
  have rep: "represents r (tables (dm_cdb ?st))" using assms(1) by simp
  obtain st1 where st1: "visit_deployments dm (map Inr xs) (dom ?w) ?st =
      (Inr (dom ?w - (DeploymentQid_display \<circ> deployment_qid) ` set xs), st1)" "tables (dm_cdb st1) = tables (dm_cdb st)"
    "\<And>q. DeploymentQid_wf q \<Longrightarrow> dm_workers st1 (DeploymentQid_display q) =
      (if watches dm r q then visited r q (?w (DeploymentQid_display q)) else ?w (DeploymentQid_display q))"
    using visits_up [where xs = xs and U = "dom ?w", OF rep assms(2,4) wf] unfolding mine by auto
  let ?U = "dom ?w - (DeploymentQid_display \<circ> deployment_qid) ` set xs"
  have rows: "filter (case_sum (\<lambda>_. True) (\<lambda>d. deployment_owned_by_worker (d_deployment d) (dm_index dm) (dm_count dm)))
      (map Inr all) = map Inr xs" by (simp add: xs_def filter_map o_def)
  have run: "daemon_process dm st = (Inr (), st1\<lparr>dm_workers := dm_workers st1 |` (- ?U)\<rparr>)"
    by (simp add: daemon_process_def seq_def on_daemon_cdb_def lift_op_def assms(2) all(1) modify_state_def read_state_def
        rows st1(1) del: Compl_Diff_eq)
  have member: "DeploymentQid_display q \<in> ?U \<longleftrightarrow> \<not> watches dm r q \<and> ?w (DeploymentQid_display q) \<noteq> None" if "DeploymentQid_wf q" for q
    using mine [of q] DeploymentQid_display_inj [OF that] wf by (auto simp: image_iff dom_def)
  have "dm_workers (st1\<lparr>dm_workers := dm_workers st1 |` (- ?U)\<rparr>) (DeploymentQid_display q) =
      (if watches dm r q then visited r q (?w (DeploymentQid_display q)) else None)" if "DeploymentQid_wf q" for q
    using member [OF that] st1(3) [OF that] by (simp add: restrict_map_def del: Diff_iff) auto
  with run st1(2) show ?thesis by auto
qed

text \<open>
  C20. After a round of the daemon with the database reachable, a deployment has a slot exactly when
  it is active and the daemon owns it. The slot is running, unless the worker has exited and the
  deployment is not superseded: then it stays idle.
\<close>

theorem daemon_watches_active:
  assumes "represents r (tables (dm_cdb st))" "dm_net dm = up" "arranges (dm_arrange dm)" "\<forall>k. dm_topic dm k"
    "\<forall>q. deps r q \<noteq> None \<longrightarrow> qid_org_str q \<in> set (dm_orgs dm)" "DeploymentQid_wf q" "daemon_process dm st = (res, st')"
  shows "res = Inr () \<and> dm_workers st' (DeploymentQid_display q) =
    (if watches dm r q
     then if superseder r q = None \<and> (dm_workers st (DeploymentQid_display q) = Some Idle \<or>
            dm_workers st (DeploymentQid_display q) = Some Running \<and> dm_exited dm (DeploymentQid_display q))
          then Some Idle else Some Running
     else None)"
proof -
  have idle: "flip_exited (dm_exited dm) (dm_workers st) k = Some Idle \<longleftrightarrow>
      dm_workers st k = Some Idle \<or> dm_workers st k = Some Running \<and> dm_exited dm k" for k
    by (auto simp: flip_exited_def split: option.splits Slot.splits)
  from daemon_up [OF assms(1-3)] assms(4-7) show ?thesis by (auto simp: visited_def idle)
qed

definition example_daemon :: Daemon where
  "example_daemon = \<lparr>dm_index = 0, dm_count = 1, dm_net = up, dm_arrange = (\<lambda>xs. xs),
    dm_orgs = [qid_org_str example_dep], dm_exited = (\<lambda>_. True), dm_topic = (\<lambda>_. True)\<rparr>"

lemma example_round:
  assumes "represents r (tables d)" "dom (deps r) \<subseteq> {example_dep, example_dep2}"
  shows "represents r (tables (dm_cdb \<lparr>dm_cdb = d, dm_workers = w, dm_spawned = []\<rparr>))" "dm_net example_daemon = up"
    "arranges (dm_arrange example_daemon)" "\<forall>k. dm_topic example_daemon k"
    "\<forall>q. deps r q \<noteq> None \<longrightarrow> qid_org_str q \<in> set (dm_orgs example_daemon)"
proof -
  show "\<forall>q. deps r q \<noteq> None \<longrightarrow> qid_org_str q \<in> set (dm_orgs example_daemon)"
  proof (intro allI impI)
    fix q assume "deps r q \<noteq> None"
    with assms(2) have "q = example_dep \<or> q = example_dep2" by blast
    then show "qid_org_str q \<in> set (dm_orgs example_daemon)" by (auto simp: example_daemon_def)
  qed
qed (use assms(1) in \<open>simp_all add: example_daemon_def arranges_def\<close>)

lemma example_rollout_dom: "dom (deps example_rollout) \<subseteq> {example_dep, example_dep2}"
  by (auto simp: example_rollout_def Let_def abs_make_desired_def abs_set_def takes_over_def no_deployments_def split: if_splits)

theorem daemon_watches_active_witness:
  "\<exists>st st'. daemon_process example_daemon st = (Inr (), st') \<and>
    dm_workers st (DeploymentQid_display example_dep) = None \<and>
    dm_workers st' (DeploymentQid_display example_dep) = Some Running"
proof -
  obtain d0 :: "CdbTables Db" where d0: "represents example_rollout (tables d0)" using example_rollout_represented by blast
  let ?st = "\<lparr>dm_cdb = d0, dm_workers = Map.empty, dm_spawned = []\<rparr>"
  obtain res st' where run: "daemon_process example_daemon ?st = (res, st')" by fastforce
  have "watches example_daemon example_rollout example_dep"
    by (simp add: watches_def example_rollout_chain example_daemon_def deployment_owned_by_worker_def)
  with daemon_watches_active [OF example_round [OF d0 example_rollout_dom] example_deps(1) run] run show ?thesis
    by (intro exI [of _ ?st] exI [of _ st']) simp
qed

fun daemon_rounds :: "Daemon list \<Rightarrow> DaemonState \<Rightarrow> DaemonState" where
  "daemon_rounds [] st = st"
| "daemon_rounds (dm # dms) st = daemon_rounds dms (snd (daemon_process dm st))"

text \<open>
  C37. Taking an environment down sets its deployments undesired without superseding them. The
  daemon starts an idle worker again only for a superseded deployment, so a deployment whose worker
  has gone idle stays idle in every later round: nothing runs its teardown.
\<close>

theorem idle_deployment_is_not_torn_down:
  assumes "represents r (tables (dm_cdb st))" "DeploymentQid_wf q" "superseder r q = None" "deps r q \<noteq> None"
    "dm_workers st (DeploymentQid_display q) = Some Idle" "dep_set up q now Undesired (dm_cdb st) = (Inr (), cdb)"
    "\<forall>dm\<in>set dms. dm_net dm = up \<and> arranges (dm_arrange dm) \<and> (\<forall>k. dm_topic dm k) \<and>
      (\<forall>p. deps r p \<noteq> None \<longrightarrow> qid_org_str p \<in> set (dm_orgs dm)) \<and> deployment_owned_by_worker (dep_id q) (dm_index dm) (dm_count dm)"
    "map_option d_state (deps r q) \<noteq> Some Down"
  shows "dm_workers (daemon_rounds dms (st\<lparr>dm_cdb := cdb\<rparr>)) (DeploymentQid_display q) = Some Idle"
proof -
  let ?r = "abs_set q now Undesired r"
  from refinesD [OF dep_set_refines [OF assms(2), of now Undesired] assms(1)] assms(6) have "represents ?r (tables cdb)" by auto
  then have start: "represents ?r (tables (dm_cdb (st\<lparr>dm_cdb := cdb\<rparr>)))" "dm_workers (st\<lparr>dm_cdb := cdb\<rparr>) (DeploymentQid_display q) = Some Idle"
    using assms(5) by simp_all
  have r: "superseder ?r q = None" "\<exists>dep. deps ?r q = Some dep \<and> d_state dep \<noteq> Down" "\<And>p. deps ?r p \<noteq> None \<Longrightarrow> deps r p \<noteq> None"
    using assms(3,4,8) by (auto simp: abs_set_def split: if_splits)
  have "dm_workers (daemon_rounds dms s) (DeploymentQid_display q) = Some Idle"
    if "represents ?r (tables (dm_cdb s))" "dm_workers s (DeploymentQid_display q) = Some Idle" for s
    using that assms(7)
  proof (induction dms arbitrary: s)
    case (Cons dm dms)
    have dm: "dm_net dm = up" "arranges (dm_arrange dm)" "\<And>k. dm_topic dm k"
      "\<And>p. deps ?r p \<noteq> None \<Longrightarrow> qid_org_str p \<in> set (dm_orgs dm)" and w: "watches dm ?r q"
      using Cons.prems(3) r(2,3) by (auto simp: watches_def)
    from daemon_up [OF Cons.prems(1) dm] obtain s' where s': "daemon_process dm s = (Inr (), s')"
      "tables (dm_cdb s') = tables (dm_cdb s)"
      "dm_workers s' (DeploymentQid_display q) = visited ?r q (flip_exited (dm_exited dm) (dm_workers s) (DeploymentQid_display q))"
      using assms(2) w by fastforce
    then have "dm_workers s' (DeploymentQid_display q) = Some Idle"
      using Cons.prems(2) r(1) by (simp add: visited_def flip_exited_def)
    with Cons.IH [of s'] Cons.prems(1,3) s' show ?case by simp
  qed simp
  with start show ?thesis by blast
qed

theorem idle_deployment_is_not_torn_down_witness:
  "\<exists>st cdb. dep_set up example_dep2 9 Undesired (dm_cdb st) = (Inr (), cdb) \<and>
    dm_workers (daemon_rounds [example_daemon, example_daemon] (st\<lparr>dm_cdb := cdb\<rparr>)) (DeploymentQid_display example_dep2) = Some Idle"
proof -
  obtain d0 :: "CdbTables Db" where d0: "represents example_rollout (tables d0)" using example_rollout_represented by blast
  let ?st = "\<lparr>dm_cdb = d0, dm_workers = [DeploymentQid_display example_dep2 \<mapsto> Idle], dm_spawned = []\<rparr>"
  obtain cdb where set: "dep_set up example_dep2 9 Undesired (dm_cdb ?st) = (Inr (), cdb)"
    using refinesD [OF dep_set_refines [OF example_deps(2), of 9 Undesired] d0] by auto
  have r: "superseder example_rollout example_dep2 = None" "deps example_rollout example_dep2 \<noteq> None"
    "dm_workers ?st (DeploymentQid_display example_dep2) = Some Idle" "map_option d_state (deps example_rollout example_dep2) \<noteq> Some Down"
    using example_deps(3) by (simp_all add: example_rollout_chain)
  have own: "deployment_owned_by_worker (dep_id example_dep2) (dm_index example_daemon) (dm_count example_daemon)"
    by (simp add: example_daemon_def deployment_owned_by_worker_def)
  note round = example_round [OF d0 example_rollout_dom]
  have "dm_workers (daemon_rounds [example_daemon, example_daemon] (?st\<lparr>dm_cdb := cdb\<rparr>)) (DeploymentQid_display example_dep2) = Some Idle"
    by (rule idle_deployment_is_not_torn_down [OF round(1) example_deps(2) r(1,2,3) set _ r(4)]) (use round own in simp)
  with set show ?thesis by (intro exI [of _ ?st] exI [of _ cdb]) simp
qed

end
