(* ===== verification/Ldb.thy ===== *)
theory Ldb
  imports Amqp Cql
begin

text \<open>
  The log database, \<^verbatim>\<open>crates/ldb/src/lib.rs\<close>: the binary format of a log record, the Kafka topic of a
  namespace, publishing and tailing. Kafka is a set of single-partition topics behind a network that
  says how each request ends; a timeout counts as a failed request. The Base64 encoder is a
  parameter. The lossy UTF-8 decoder of Rust's standard library is written out.
\<close>

section \<open>Decoding UTF-8 lossily\<close>

definition utf8_continuation :: "string \<Rightarrow> nat \<Rightarrow> bool" where
  "utf8_continuation s i \<longleftrightarrow> i < length s \<and> 128 \<le> byte_of (s ! i) \<and> byte_of (s ! i) \<le> 191"

definition utf8_second :: "nat \<Rightarrow> string \<Rightarrow> nat \<Rightarrow> nat \<Rightarrow> bool" where
  "utf8_second i s lo hi \<longleftrightarrow> i < length s \<and> lo \<le> byte_of (s ! i) \<and> byte_of (s ! i) \<le> hi"

text \<open>How many bytes the next character takes, or the next invalid sequence, and which of the two it is.\<close>

definition utf8_step :: "string \<Rightarrow> bool \<times> nat" where
  "utf8_step s =
    (let b = byte_of (hd s);
         two = (\<lambda>ok. if \<not> ok then (False, 1) else if utf8_continuation s 2 then (True, 3) else (False, 2));
         three = (\<lambda>ok. if \<not> ok then (False, 1) else if \<not> utf8_continuation s 2 then (False, 2)
           else if utf8_continuation s 3 then (True, 4) else (False, 3))
     in if b < 128 then (True, 1)
        else if 194 \<le> b \<and> b \<le> 223 then (if utf8_continuation s 1 then (True, 2) else (False, 1))
        else if b = 224 then two (utf8_second 1 s 160 191)
        else if 225 \<le> b \<and> b \<le> 236 then two (utf8_second 1 s 128 191)
        else if b = 237 then two (utf8_second 1 s 128 159)
        else if 238 \<le> b \<and> b \<le> 239 then two (utf8_second 1 s 128 191)
        else if b = 240 then three (utf8_second 1 s 144 191)
        else if 241 \<le> b \<and> b \<le> 243 then three (utf8_second 1 s 128 191)
        else if b = 244 then three (utf8_second 1 s 128 143)
        else (False, 1))"

definition utf8_replacement :: string where
  "utf8_replacement = [CHR 0xEF, CHR 0xBF, CHR 0xBD]"

lemma utf8_step_pos: "0 < snd (utf8_step s)"
  by (simp add: utf8_step_def Let_def)

function from_utf8_lossy :: "string \<Rightarrow> string" where
  "from_utf8_lossy s =
    (if s = [] then []
     else (let (ok, n) = utf8_step s in (if ok then take n s else utf8_replacement) @ from_utf8_lossy (drop n s)))"
  by pat_completeness auto
termination
proof (relation "measure length")
  fix s :: string and x ok n
  assume "s \<noteq> []" "x = utf8_step s" "(ok, n) = x"
  then have "0 < n" using utf8_step_pos [of s] by (metis snd_conv)
  with \<open>s \<noteq> []\<close> show "(drop n s, s) \<in> measure length" by simp
qed simp

function valid_utf8 :: "string \<Rightarrow> bool" where
  "valid_utf8 s = (if s = [] then True else fst (utf8_step s) \<and> valid_utf8 (drop (snd (utf8_step s)) s))"
  by pat_completeness auto
termination
  by (relation "measure length") (simp_all add: diff_less utf8_step_pos)

declare from_utf8_lossy.simps [simp del] valid_utf8.simps [simp del]

section \<open>Log records\<close>

definition MIN_PAYLOAD_LEN :: nat where
  "MIN_PAYLOAD_LEN = 10"

definition MAX_TOPIC_NAME_LEN :: nat where
  "MAX_TOPIC_NAME_LEN = 249"

definition PAYLOAD_VERSION :: char where
  "PAYLOAD_VERSION = CHR 0x01"

definition TOPIC_PREFIX :: string where
  "TOPIC_PREFIX = ''dl-''"

datatype Severity = SevInfo | SevWarning | SevError

fun severity_as_byte :: "Severity \<Rightarrow> char" where
  "severity_as_byte SevInfo = CHR ''i''"
| "severity_as_byte SevWarning = CHR ''w''"
| "severity_as_byte SevError = CHR ''e''"

definition severity_from_byte :: "char \<Rightarrow> Severity option" where
  "severity_from_byte c =
    (if c = CHR ''i'' then Some SevInfo
     else if c = CHR ''w'' then Some SevWarning
     else if c = CHR ''e'' then Some SevError
     else None)"

text \<open>\<^verbatim>\<open>u64::to_be_bytes\<close> and \<^verbatim>\<open>u64::from_be_bytes\<close>.\<close>

fun be_bytes :: "nat \<Rightarrow> nat \<Rightarrow> string" where
  "be_bytes 0 n = []"
| "be_bytes (Suc k) n = be_bytes k (n div 256) @ [char_of (n mod 256)]"

definition be_value :: "string \<Rightarrow> nat" where
  "be_value s = foldl (\<lambda>a c. a * 256 + byte_of c) 0 s"

definition encode_payload :: "64 word \<Rightarrow> Severity \<Rightarrow> string \<Rightarrow> string" where
  "encode_payload millis severity msg =
    [PAYLOAD_VERSION] @ be_bytes 8 (unat millis) @ [severity_as_byte severity] @ msg"

datatype TailError = TailKafka | InvalidPayload | InvalidSeverity char | UnsupportedVersion char

definition decode_payload :: "string option \<Rightarrow> TailError + 64 word \<times> Severity \<times> string" where
  "decode_payload value =
    (case value of
       None \<Rightarrow> Inl InvalidPayload
     | Some payload \<Rightarrow>
         if length payload < MIN_PAYLOAD_LEN then Inl InvalidPayload
         else if payload ! 0 \<noteq> PAYLOAD_VERSION then Inl (UnsupportedVersion (payload ! 0))
         else case severity_from_byte (payload ! 9) of
             None \<Rightarrow> Inl (InvalidSeverity (payload ! 9))
           | Some severity \<Rightarrow>
               Inr (of_nat (be_value (take 8 (drop 1 payload))), severity, from_utf8_lossy (drop 10 payload)))"

section \<open>Topics\<close>

datatype NamespaceError = NamespaceKafka | InvalidNamespace string

definition topic_for_namespace :: "(string \<Rightarrow> string) \<Rightarrow> string \<Rightarrow> NamespaceError + string" where
  "topic_for_namespace b64 ns =
    (if ns = [] then Inl (InvalidNamespace ''namespace must not be empty'')
     else let topic = TOPIC_PREFIX @ b64 ns in
       if length topic > MAX_TOPIC_NAME_LEN
       then Inl (InvalidNamespace (''resulting topic name exceeds Kafka's '' @ dec_digits MAX_TOPIC_NAME_LEN @
         ''-character limit (namespace is '' @ dec_digits (length ns) @ '' bytes)''))
       else Inr topic)"

text \<open>A topic has one partition: the offset of its first record and its records.\<close>

record Partition =
  low_offset :: nat
  records :: "string option list"

type_synonym Kafka = "string \<rightharpoonup> Partition"

definition ensure_topic :: "network \<Rightarrow> string \<Rightarrow> (Kafka Db, NamespaceError, unit) op" where
  "ensure_topic net topic =
    cql_write net NamespaceKafka (\<lambda>k. case k topic of None \<Rightarrow> k(topic \<mapsto> \<lparr>low_offset = 0, records = []\<rparr>) | Some _ \<Rightarrow> k)"

definition ldb_namespace :: "(string \<Rightarrow> string) \<Rightarrow> network \<Rightarrow> string \<Rightarrow> (Kafka Db, NamespaceError, string) op" where
  "ldb_namespace b64 net ns =
    seq (of_result (topic_for_namespace b64 ns)) (\<lambda>topic.
    seq (ensure_topic net topic) (\<lambda>_. done_with topic))"

section \<open>Publishing\<close>

datatype LogPublishError = LogKafka | LogTime

text \<open>A publisher of a namespace opens a partition client once.\<close>

record LogSession =
  ls_kafka :: "Kafka Db"
  ls_connected :: bool

definition on_kafka :: "(Kafka Db, 'e, 'a) op \<Rightarrow> (LogSession, 'e, 'a) op" where
  "on_kafka = lift_op ls_kafka (\<lambda>k s. s\<lparr>ls_kafka := k\<rparr>)"

definition get_or_create_partition_client :: "network \<Rightarrow> (LogSession, LogPublishError, unit) op" where
  "get_or_create_partition_client net s =
    (if ls_connected s then (Inr (), s)
     else seq (on_kafka (cql_read net LogKafka (\<lambda>_. ()))) (\<lambda>_. modify_state (\<lambda>s. s\<lparr>ls_connected := True\<rparr>)) s)"

definition append_record :: "string \<Rightarrow> string option \<Rightarrow> Kafka \<Rightarrow> Kafka" where
  "append_record topic value k =
    (case k topic of None \<Rightarrow> k | Some p \<Rightarrow> k(topic \<mapsto> p\<lparr>records := records p @ [value]\<rparr>))"

text \<open>The clock gives milliseconds since the epoch; a time before the epoch is an error.\<close>

definition ldb_log :: "network \<Rightarrow> string \<Rightarrow> int \<Rightarrow> Severity \<Rightarrow> string \<Rightarrow> (LogSession, LogPublishError, unit) op" where
  "ldb_log net topic now severity msg =
    (if now < 0 then fail_with LogTime
     else
       seq (get_or_create_partition_client net) (\<lambda>_.
       on_kafka (cql_write net LogKafka (append_record topic (Some (encode_payload (of_int now) severity msg))))))"

section \<open>Tailing\<close>

datatype StartFrom = FromEnd "64 word" | FromBeginning "64 word"

definition i64_MAX :: int where
  "i64_MAX = 2 ^ 63 - 1"

text \<open>Arithmetic on \<^verbatim>\<open>i64\<close> wraps around.\<close>

definition i64_wrap :: "int \<Rightarrow> int" where
  "i64_wrap x = (x + 2 ^ 63) mod 2 ^ 64 - 2 ^ 63"

definition compute_start :: "int \<Rightarrow> int \<Rightarrow> StartFrom \<Rightarrow> int" where
  "compute_start low high start =
    (case start of
       FromEnd back \<Rightarrow> max (i64_wrap (high - min (uint back) i64_MAX)) low
     | FromBeginning skip \<Rightarrow> min (i64_wrap (low + min (uint skip) i64_MAX)) high)"

definition high_offset :: "Partition \<Rightarrow> nat" where
  "high_offset p = low_offset p + length (records p)"

definition compute_offsets :: "network \<Rightarrow> string \<Rightarrow> StartFrom \<Rightarrow> (Kafka Db, TailError, int \<times> int) op" where
  "compute_offsets net topic start =
    seq (cql_read net TailKafka (\<lambda>k. case k topic of None \<Rightarrow> 0 | Some p \<Rightarrow> int (low_offset p))) (\<lambda>low.
    seq (cql_read net TailKafka (\<lambda>k. case k topic of None \<Rightarrow> 0 | Some p \<Rightarrow> int (high_offset p))) (\<lambda>high.
    done_with (compute_start low high start, high)))"

text \<open>
  A fetch returns some of the records from an offset on, as many as the broker likes but at least
  one if there is one. An offset outside the partition is an error.
\<close>

definition fetch_records ::
  "network \<Rightarrow> (nat \<Rightarrow> nat) \<Rightarrow> string \<Rightarrow> int \<Rightarrow> (Kafka Db, TailError, (int \<times> string option) list) op" where
  "fetch_records net batch topic offset d =
    seq (cql_read net TailKafka (\<lambda>k. k topic)) (\<lambda>found.
    case found of
      None \<Rightarrow> fail_with TailKafka
    | Some p \<Rightarrow>
        if offset < int (low_offset p) \<or> offset > int (high_offset p) then fail_with TailKafka
        else done_with (take (Suc (batch (executed d)))
          (drop (nat offset - low_offset p) (zip (map int [low_offset p..<high_offset p]) (records p))))) d"

text \<open>The records of one batch up to the first that cannot be decoded, and the next offset.\<close>

fun yield_records :: "int \<Rightarrow> (int \<times> string option) list
    \<Rightarrow> (64 word \<times> Severity \<times> string) list \<times> (TailError + int)" where
  "yield_records next_offset [] = ([], Inr next_offset)"
| "yield_records next_offset ((offset, value) # rest) =
    (case decode_payload value of
       Inl e \<Rightarrow> ([], Inl e)
     | Inr item \<Rightarrow> (let (items, end) = yield_records (offset + 1) rest in (item # items, end)))"

datatype StreamEnd = Finished | Broken TailError | Waiting

text \<open>
  The stream after at most \<open>fuel\<close> fetches: what it has yielded and whether it has ended. A stream
  that follows its topic never ends by itself.
\<close>

fun tail_loop ::
  "nat \<Rightarrow> network \<Rightarrow> (nat \<Rightarrow> nat) \<Rightarrow> string \<Rightarrow> bool \<Rightarrow> int \<Rightarrow> int \<Rightarrow> Kafka Db
    \<Rightarrow> (64 word \<times> Severity \<times> string) list \<times> StreamEnd" where
  "tail_loop 0 net batch topic follow next_offset end_exclusive d = ([], Waiting)"
| "tail_loop (Suc fuel) net batch topic follow next_offset end_exclusive d =
    (if \<not> follow \<and> next_offset \<ge> end_exclusive then ([], Finished)
     else case fetch_records net batch topic next_offset d of
       (Inl e, d') \<Rightarrow> ([], Broken e)
     | (Inr fetched, d') \<Rightarrow>
         if fetched = [] then
           (if follow then tail_loop fuel net batch topic follow next_offset end_exclusive d' else ([], Finished))
         else (case yield_records next_offset fetched of
             (items, Inl e) \<Rightarrow> (items, Broken e)
           | (items, Inr next) \<Rightarrow>
               (let (later, end) = tail_loop fuel net batch topic follow next end_exclusive d' in (items @ later, end))))"

record TailConfig =
  tc_follow :: bool
  tc_start_from :: StartFrom

definition TailConfig_default :: TailConfig where
  "TailConfig_default = \<lparr>tc_follow = True, tc_start_from = FromEnd 0\<rparr>"

definition ldb_tail ::
  "nat \<Rightarrow> network \<Rightarrow> (nat \<Rightarrow> nat) \<Rightarrow> string \<Rightarrow> TailConfig \<Rightarrow> Kafka Db
    \<Rightarrow> TailError + (64 word \<times> Severity \<times> string) list \<times> StreamEnd" where
  "ldb_tail fuel net batch topic config d =
    (case seq (cql_read net TailKafka (\<lambda>_. ())) (\<lambda>_. compute_offsets net topic (tc_start_from config)) d of
       (Inl e, d') \<Rightarrow> Inl e
     | (Inr (start, end_exclusive), d') \<Rightarrow> Inr (tail_loop fuel net batch topic (tc_follow config) start end_exclusive d'))"

section \<open>Encoding and decoding\<close>

lemma from_utf8_lossy_Nil [simp]: "from_utf8_lossy [] = []"
  by (simp add: from_utf8_lossy.simps)

lemma from_utf8_lossy_valid: "valid_utf8 s \<Longrightarrow> from_utf8_lossy s = s"
proof (induction s rule: valid_utf8.induct)
  case (1 s)
  show ?case
  proof (cases "s = []")
    case False
    with "1.prems" have "fst (utf8_step s)" "valid_utf8 (drop (snd (utf8_step s)) s)"
      by (simp_all add: valid_utf8.simps [of s])
    with False "1.IH" show ?thesis by (simp add: from_utf8_lossy.simps [of s] split_beta)
  qed simp
qed

lemma length_be_bytes [simp]: "length (be_bytes k n) = k"
  by (induction k arbitrary: n) simp_all

lemma be_value_snoc: "be_value (s @ [c]) = be_value s * 256 + byte_of c"
  by (simp add: be_value_def)

lemma be_value_be_bytes: "n < 256 ^ k \<Longrightarrow> be_value (be_bytes k n) = n"
proof (induction k arbitrary: n)
  case (Suc k)
  then have "n div 256 < 256 ^ k" by (simp add: div_less_iff_less_mult)
  with Suc.IH show ?case by (simp add: be_value_snoc byte_of_def)
qed (simp add: be_value_def)

lemma be_bytes_be_value: "be_bytes (length s) (be_value s) = s"
  by (induction s rule: rev_induct) (simp_all add: be_value_snoc byte_of_def)

lemma be_value_less: "be_value s < 256 ^ length s"
proof (induction s rule: rev_induct)
  case (snoc c s)
  have "be_value s * 256 + byte_of c < (be_value s + 1) * 256" by simp
  also have "\<dots> \<le> 256 ^ length s * 256" using snoc by (intro mult_right_mono) simp_all
  finally show ?case by (simp add: be_value_snoc)
qed (simp add: be_value_def)

lemma severity_from_byte_iff: "severity_from_byte c = Some s \<longleftrightarrow> c = severity_as_byte s"
  by (cases s) (auto simp: severity_from_byte_def)

lemma payload_parts:
  assumes "length p \<ge> 10"
  shows "p = [p ! 0] @ take 8 (drop 1 p) @ [p ! 9] @ drop 10 p"
proof -
  have "p = p ! 0 # drop 1 p" using assms by (cases p) simp_all
  moreover have "drop 1 p = take 8 (drop 1 p) @ drop 9 p"
    using append_take_drop_id [of 8 "drop 1 p"] by simp
  moreover have "drop 9 p = p ! 9 # drop 10 p" using assms Cons_nth_drop_Suc [of 9 p] by simp
  ultimately show ?thesis by (metis append_Cons append_Nil)
qed

lemma decode_encode:
  assumes "valid_utf8 m"
  shows "decode_payload (Some (encode_payload t s m)) = Inr (t, s, m)"
proof -
  have "be_value (be_bytes 8 (unat t)) = unat t"
    using unsigned_less [of t] by (intro be_value_be_bytes) simp
  moreover have "encode_payload t s m ! 9 = severity_as_byte s"
    by (simp add: encode_payload_def nth_append)
  ultimately show ?thesis
    using assms severity_from_byte_iff [of "severity_as_byte s" s]
    by (simp add: decode_payload_def encode_payload_def MIN_PAYLOAD_LEN_def PAYLOAD_VERSION_def from_utf8_lossy_valid)
qed

lemma decode_payload_Inr:
  "decode_payload (Some p) = Inr (t, s, m) \<longleftrightarrow>
    10 \<le> length p \<and> p ! 0 = PAYLOAD_VERSION \<and> p ! 9 = severity_as_byte s \<and>
    t = of_nat (be_value (take 8 (drop 1 p))) \<and> m = from_utf8_lossy (drop 10 p)"
proof (cases "severity_from_byte (p ! 9)")
  case None
  then have "p ! 9 \<noteq> severity_as_byte s" using severity_from_byte_iff [of "p ! 9" s] by simp
  with None show ?thesis by (simp add: decode_payload_def)
next
  case (Some s')
  then have "p ! 9 = severity_as_byte s \<longleftrightarrow> s' = s" using severity_from_byte_iff [of "p ! 9" s] by simp
  with Some show ?thesis unfolding decode_payload_def MIN_PAYLOAD_LEN_def by (simp only: option.case) auto
qed

lemma decode_payload_inv:
  assumes "decode_payload (Some p) = Inr (t, s, m)" "valid_utf8 (drop 10 p)"
  shows "p = encode_payload t s m"
proof -
  from assms have len: "length p \<ge> 10" and "p ! 0 = PAYLOAD_VERSION" and sev: "p ! 9 = severity_as_byte s"
    and t: "t = of_nat (be_value (take 8 (drop 1 p)))" and m: "m = drop 10 p"
    unfolding decode_payload_Inr from_utf8_lossy_valid [OF assms(2)] by blast+
  have eight: "length (take 8 (drop 1 p)) = 8" using len by simp
  then have "be_value (take 8 (drop 1 p)) < 2 ^ 64" using be_value_less [of "take 8 (drop 1 p)"] by simp
  then have "unat t = be_value (take 8 (drop 1 p))" by (simp add: t unat_of_nat)
  then have "be_bytes 8 (unat t) = take 8 (drop 1 p)"
    using be_bytes_be_value [of "take 8 (drop 1 p)"] eight by simp
  then show ?thesis
    unfolding encode_payload_def by (subst payload_parts [OF len]) (simp only: \<open>p ! 0 = PAYLOAD_VERSION\<close> sev m)
qed



section \<open>Topics of namespaces\<close>

text \<open>The encoder gives four characters for three bytes, without padding.\<close>

definition base64_ok :: "(string \<Rightarrow> string) \<Rightarrow> bool" where
  "base64_ok b64 \<longleftrightarrow> inj b64 \<and> (\<forall>s. length (b64 s) = (4 * length s + 2) div 3)"

lemma topic_for_namespace_Inr:
  assumes "base64_ok b64"
  shows "topic_for_namespace b64 ns = Inr topic \<longleftrightarrow> ns \<noteq> [] \<and> length ns \<le> 184 \<and> topic = TOPIC_PREFIX @ b64 ns"
proof -
  have "length (TOPIC_PREFIX @ b64 ns) > MAX_TOPIC_NAME_LEN \<longleftrightarrow> length ns > 184"
    using assms by (auto simp: base64_ok_def TOPIC_PREFIX_def MAX_TOPIC_NAME_LEN_def)
  then show ?thesis unfolding topic_for_namespace_def Let_def by auto
qed

text \<open>
  C30. A namespace has a log topic exactly if it has between 1 and 184 bytes, and two namespaces never
  share a topic.
\<close>

theorem topics_are_distinct:
  assumes "base64_ok b64"
  shows "((\<exists>topic. topic_for_namespace b64 ns = Inr topic) \<longleftrightarrow> ns \<noteq> [] \<and> length ns \<le> 184) \<and>
    (topic_for_namespace b64 ns = Inr topic \<and> topic_for_namespace b64 ns' = Inr topic \<longrightarrow> ns = ns')"
  using assms by (auto simp: topic_for_namespace_Inr base64_ok_def dest: injD)

definition example_b64 :: "string \<Rightarrow> string" where
  "example_b64 s = s @ replicate ((4 * length s + 2) div 3 - length s) (CHR ''A'')"

lemma example_b64_ok: "base64_ok example_b64"
proof -
  have len: "length (example_b64 s) = (4 * length s + 2) div 3" for s
    by (simp add: example_b64_def)
  have "s = t" if "example_b64 s = example_b64 t" for s t
  proof -
    have "(4 * length s + 2) div 3 = (4 * length t + 2) div 3" using len that by metis
    then have "length s = length t" by linarith
    with that show ?thesis by (simp add: example_b64_def)
  qed
  then show ?thesis using len by (auto simp: base64_ok_def inj_def)
qed

theorem topics_are_distinct_witness:
  "(\<exists>topic. topic_for_namespace example_b64 (replicate 184 (CHR ''x'')) = Inr topic) \<and>
    (\<nexists>topic. topic_for_namespace example_b64 (replicate 185 (CHR ''x'')) = Inr topic)"
  using topics_are_distinct [OF example_b64_ok, of "replicate 184 (CHR ''x'')"]
    topics_are_distinct [OF example_b64_ok, of "replicate 185 (CHR ''x'')"] by simp

section \<open>Where a tail starts\<close>

lemma i64_wrap_id: "- (2 ^ 63) \<le> x \<Longrightarrow> x < 2 ^ 63 \<Longrightarrow> i64_wrap x = x"
  by (simp add: i64_wrap_def)

lemma i64_wrap_above: "2 ^ 63 \<le> x \<Longrightarrow> x < 2 ^ 64 \<Longrightarrow> i64_wrap x = x - 2 ^ 64"
proof -
  assume "2 ^ 63 \<le> x" "x < 2 ^ 64"
  have "(x + 2 ^ 63) mod 2 ^ 64 = (x + 2 ^ 63 - 2 ^ 64) mod 2 ^ 64" by (simp only: minus_mod_self2)
  also have "\<dots> = x + 2 ^ 63 - 2 ^ 64"
    using \<open>2 ^ 63 \<le> x\<close> \<open>x < 2 ^ 64\<close> by (intro mod_pos_pos_trivial) simp_all
  finally show ?thesis by (simp add: i64_wrap_def)
qed

lemma compute_start_range:
  assumes "0 \<le> low" "low \<le> high" "high \<le> i64_MAX"
  shows "compute_start low high (FromEnd n) = max (high - uint n) low"
    and "low + min (uint n) i64_MAX \<le> i64_MAX \<Longrightarrow> compute_start low high (FromBeginning n) = min (low + uint n) high"
    and "low + min (uint n) i64_MAX > i64_MAX \<Longrightarrow> compute_start low high (FromBeginning n) < 0"
proof -
  define m where "m = uint n"
  have m: "0 \<le> m" by (simp add: m_def)
  show "compute_start low high (FromEnd n) = max (high - uint n) low"
    using assms m unfolding compute_start_def StartFrom.case m_def [symmetric]
    by (auto simp: i64_MAX_def i64_wrap_id min_def max_def)
  show "compute_start low high (FromBeginning n) = min (low + uint n) high" if "low + min (uint n) i64_MAX \<le> i64_MAX"
    using assms m that unfolding compute_start_def StartFrom.case m_def [symmetric]
    by (auto simp: i64_MAX_def i64_wrap_id min_def)
  show "compute_start low high (FromBeginning n) < 0" if "low + min (uint n) i64_MAX > i64_MAX"
    using assms m that unfolding compute_start_def StartFrom.case m_def [symmetric]
    by (auto simp: i64_MAX_def i64_wrap_above min_def)
qed

section \<open>Reading a log\<close>

abbreviation decodes :: "string option list \<Rightarrow> (64 word \<times> Severity \<times> string) list \<Rightarrow> bool" where
  "decodes \<equiv> list_all2 (\<lambda>v item. decode_payload v = Inr item)"

lemma yield_records_decodes:
  "decodes vs items \<Longrightarrow>
    yield_records (int a) (zip (map int [a..<a + length vs]) vs) = (items, Inr (int (a + length vs)))"
proof (induction vs items arbitrary: a rule: list_all2_induct)
  case (Cons v vs item items)
  have "zip (map int [a..<a + length (v # vs)]) (v # vs) = (int a, v) # zip (map int [Suc a..<Suc a + length vs]) vs"
    by (simp add: upt_conv_Cons del: upt_Suc)
  then show ?case using Cons.IH [of "Suc a"] Cons.hyps by (simp add: algebra_simps)
qed simp

lemma fetch_up:
  assumes "tables d topic = Some p" "low_offset p \<le> at" "at \<le> high_offset p"
  obtains n where "fetch_records up batch topic (int at) d =
    (Inr (zip (map int [at..<at + length (take (Suc n) (drop (at - low_offset p) (records p)))])
      (take (Suc n) (drop (at - low_offset p) (records p)))), \<lparr>executed = Suc (executed d), tables = tables d\<rparr>)"
proof
  have "take (Suc n) (drop (at - low_offset p) (zip (map int [low_offset p..<high_offset p]) (records p))) =
      zip (map int [at..<at + length (take (Suc n) (drop (at - low_offset p) (records p)))])
        (take (Suc n) (drop (at - low_offset p) (records p)))" for n
    using assms(2,3)
    by (auto simp: take_zip drop_zip drop_map take_map high_offset_def min_def add.commute intro!: arg_cong2 [where f = zip])
  then show "fetch_records up batch topic (int at) d =
    (Inr (zip (map int [at..<at + length (take (Suc (batch (executed d))) (drop (at - low_offset p) (records p)))])
      (take (Suc (batch (executed d))) (drop (at - low_offset p) (records p)))), \<lparr>executed = Suc (executed d), tables = tables d\<rparr>)"
    using assms by (simp add: fetch_records_def done_with_def)
qed

lemma tail_loop_up:
  assumes "tables d topic = Some p" "low_offset p \<le> at" "at \<le> high_offset p" "high_offset p - at < fuel"
    and "decodes (records p) items"
  shows "tail_loop fuel up batch topic False (int at) (int (high_offset p)) d = (drop (at - low_offset p) items, Finished)"
  using assms(1-4)
proof (induction fuel arbitrary: at d)
  case (Suc fuel)
  have len: "length items = length (records p)" using assms(5) by (simp add: list_all2_lengthD)
  show ?case
  proof (cases "at = high_offset p")
    case True
    then show ?thesis using len by (simp add: high_offset_def)
  next
    case False
    with Suc.prems have more: "at < high_offset p" by simp
    obtain n where f: "fetch_records up batch topic (int at) d =
      (Inr (zip (map int [at..<at + length (take (Suc n) (drop (at - low_offset p) (records p)))])
        (take (Suc n) (drop (at - low_offset p) (records p)))), \<lparr>executed = Suc (executed d), tables = tables d\<rparr>)"
      by (rule fetch_up [OF Suc.prems(1-3)])
    let ?vs = "take (Suc n) (drop (at - low_offset p) (records p))"
    let ?is = "take (Suc n) (drop (at - low_offset p) items)"
    define fetched where "fetched = zip (map int [at..<at + length ?vs]) ?vs"
    have "decodes ?vs ?is" using assms(5) by (intro list_all2_takeI list_all2_dropI)
    then have y: "yield_records (int at) fetched = (?is, Inr (int (at + length ?vs)))"
      unfolding fetched_def by (rule yield_records_decodes)
    have l: "0 < length ?vs" "at + length ?vs \<le> high_offset p"
      using more Suc.prems(2) by (auto simp: high_offset_def)
    have "length fetched = length ?vs" by (simp add: fetched_def)
    with l(1) have "fetched \<noteq> []" by force
    have "tail_loop fuel up batch topic False (int (at + length ?vs)) (int (high_offset p))
        \<lparr>executed = Suc (executed d), tables = tables d\<rparr> = (drop (at + length ?vs - low_offset p) items, Finished)"
      using Suc.prems l by (intro Suc.IH) simp_all
    moreover have "?is @ drop (at + length ?vs - low_offset p) items = drop (at - low_offset p) items"
      using Suc.prems(2) len by (cases "Suc n \<le> length (drop (at - low_offset p) items)")
        (auto simp: min_def append_eq_conv_conj add.commute)
    ultimately show ?thesis using more f [folded fetched_def] y \<open>fetched \<noteq> []\<close> by simp
  qed
qed simp

section \<open>Reading what was logged\<close>

definition log_all :: "network \<Rightarrow> string \<Rightarrow> (int \<times> Severity \<times> string) list \<Rightarrow> (LogSession, LogPublishError, unit) op" where
  "log_all net topic = seq_list (\<lambda>(now, severity, msg). ldb_log net topic now severity msg)"

definition logged :: "int \<times> Severity \<times> string \<Rightarrow> string option" where
  "logged entry = (case entry of (now, severity, msg) \<Rightarrow> Some (encode_payload (of_int now) severity msg))"

definition loggable :: "int \<times> Severity \<times> string \<Rightarrow> bool" where
  "loggable entry = (case entry of (now, severity, msg) \<Rightarrow> 0 \<le> now \<and> valid_utf8 msg)"

lemma ldb_log_up:
  assumes "0 \<le> now" "tables (ls_kafka s) topic = Some p"
  obtains s' where "ldb_log up topic now severity msg s = (Inr (), s')"
    "tables (ls_kafka s') topic = Some (p\<lparr>records := records p @ [logged (now, severity, msg)]\<rparr>)"
proof
  let ?s = "snd (ldb_log up topic now severity msg s)"
  show "ldb_log up topic now severity msg s = (Inr (), ?s)"
    "tables (ls_kafka ?s) topic = Some (p\<lparr>records := records p @ [logged (now, severity, msg)]\<rparr>)"
    using assms
    by (simp_all add: ldb_log_def get_or_create_partition_client_def on_kafka_def append_record_def logged_def
        lift_op_def seq_def modify_state_def)
qed

lemma log_all_up:
  assumes "list_all loggable entries" "tables (ls_kafka s) topic = Some p"
  obtains s' where "log_all up topic entries s = (Inr (), s')"
    "tables (ls_kafka s') topic = Some (p\<lparr>records := records p @ map logged entries\<rparr>)"
  using assms
proof (induction entries arbitrary: s p thesis)
  case Nil
  then show ?case by (simp add: log_all_def done_with_def)
next
  case (Cons entry entries)
  obtain now severity msg where entry: "entry = (now, severity, msg)" by (cases entry)
  with Cons.prems(2) have "0 \<le> now" by (simp add: loggable_def)
  then obtain s1 where s1: "ldb_log up topic now severity msg s = (Inr (), s1)"
    "tables (ls_kafka s1) topic = Some (p\<lparr>records := records p @ [logged entry]\<rparr>)"
    using ldb_log_up Cons.prems(3) entry by metis
  obtain s' where "log_all up topic entries s1 = (Inr (), s')"
    "tables (ls_kafka s') topic = Some (p\<lparr>records := records p @ [logged entry]\<rparr>\<lparr>records := (records p @ [logged entry]) @ map logged entries\<rparr>)"
    using Cons.IH [OF _ _ s1(2)] Cons.prems(2) by auto
  then show ?case using s1(1) entry by (intro Cons.prems(1)) (auto simp: log_all_def seq_def)
qed

definition read_back :: "int \<times> Severity \<times> string \<Rightarrow> 64 word \<times> Severity \<times> string" where
  "read_back entry = (case entry of (now, severity, msg) \<Rightarrow> (of_int now, severity, msg))"

lemma logged_decodes: "list_all loggable entries \<Longrightarrow> decodes (map logged entries) (map read_back entries)"
  by (induction entries) (auto simp: loggable_def logged_def read_back_def decode_encode split: prod.splits)

lemma ldb_tail_up:
  assumes "tables d topic = Some p" "int (high_offset p) \<le> i64_MAX" "length (records p) < fuel"
    and "decodes (records p) items"
  shows "ldb_tail fuel up batch topic \<lparr>tc_follow = False, tc_start_from = FromEnd n\<rparr> d =
    Inr (drop (length items - unat n) items, Finished)"
proof -
  have len: "length items = length (records p)" using assms(4) by (simp add: list_all2_lengthD)
  define first where "first = max (high_offset p - unat n) (low_offset p)"
  have b: "low_offset p \<le> first" "first \<le> high_offset p" "high_offset p - first < fuel"
    using assms(3) by (simp_all add: first_def high_offset_def)
  have c: "compute_start (int (low_offset p)) (int (high_offset p)) (FromEnd n) =
      max (int (high_offset p) - uint n) (int (low_offset p))"
    by (rule compute_start_range(1) [OF _ _ assms(2)]) (simp_all add: high_offset_def)
  have e: "max (int (high_offset p) - uint n) (int (low_offset p)) = int first"
    unfolding first_def uint_nat using b by linarith
  have c': "compute_start (int (low_offset p)) (int (high_offset p)) (FromEnd n) = int first"
    using c e by (rule trans)
  have t: "tail_loop fuel up batch topic False (int first) (int (high_offset p)) d' =
      (drop (first - low_offset p) items, Finished)" if "tables d' topic = Some p" for d'
    by (rule tail_loop_up [OF that b assms(4)])
  have f: "first - low_offset p = length items - unat n" by (auto simp: first_def len high_offset_def)
  show ?thesis
    using assms(1) c' t f by (simp add: ldb_tail_def compute_offsets_def done_with_def)
qed

text \<open>
  C25. A tail that does not follow its topic ends, and it yields the last entries of the log, up to the
  number asked for, each exactly as it was logged and in the order of logging, however the broker
  cuts the records into batches.
\<close>

theorem tail_reads_what_was_logged:
  assumes "tables (ls_kafka s) topic = Some p" "decodes (records p) old" "list_all loggable entries"
    and "int (high_offset p + length entries) \<le> i64_MAX" "length old + length entries < fuel"
  shows "ldb_tail fuel up batch topic \<lparr>tc_follow = False, tc_start_from = FromEnd n\<rparr>
      (ls_kafka (snd (log_all up topic entries s))) =
    Inr (drop (length old + length entries - unat n) (old @ map read_back entries), Finished)"
proof -
  obtain s' where s': "log_all up topic entries s = (Inr (), s')"
    "tables (ls_kafka s') topic = Some (p\<lparr>records := records p @ map logged entries\<rparr>)"
    using log_all_up assms(1,3) by metis
  have "decodes (records p @ map logged entries) (old @ map read_back entries)"
    using assms(2,3) by (intro list_all2_appendI logged_decodes)
  then show ?thesis
    using ldb_tail_up [OF s'(2), of fuel "old @ map read_back entries" batch n] assms(2,4,5) s'(1)
    by (simp add: high_offset_def list_all2_lengthD)
qed

theorem tail_reads_what_was_logged_witness:
  "ldb_tail 3 up (\<lambda>_. 0) ''t'' \<lparr>tc_follow = False, tc_start_from = FromEnd 1\<rparr>
      (ls_kafka (snd (log_all up ''t'' [(5, SevInfo, ''a''), (6, SevError, ''b'')]
        \<lparr>ls_kafka = \<lparr>executed = 0, tables = [''t'' \<mapsto> \<lparr>low_offset = 7, records = []\<rparr>]\<rparr>, ls_connected = False\<rparr>))) =
    Inr ([(6, SevError, ''b'')], Finished)"
proof -
  have "valid_utf8 ''a''" "valid_utf8 ''b''" by code_simp+
  then show ?thesis
    by (subst tail_reads_what_was_logged [where p = "\<lparr>low_offset = 7, records = []\<rparr>" and old = "[]"])
      (simp_all add: loggable_def high_offset_def i64_MAX_def read_back_def)
qed

text \<open>
  Skipping so many records that the sum with the first offset exceeds an \<^verbatim>\<open>i64\<close> wraps around to a
  negative offset, and the tail breaks instead of ending at once.
\<close>

theorem huge_skip_breaks_tail:
  assumes "tables d topic = Some p" "int (high_offset p) \<le> i64_MAX" "int (low_offset p) + min (uint n) i64_MAX > i64_MAX"
  shows "ldb_tail (Suc fuel) up batch topic \<lparr>tc_follow = follow, tc_start_from = FromBeginning n\<rparr> d =
    Inr ([], Broken TailKafka)"
proof -
  define first where "first = compute_start (int (low_offset p)) (int (high_offset p)) (FromBeginning n)"
  have neg: "first < 0"
    unfolding first_def by (rule compute_start_range(3) [OF _ _ assms(2,3)]) (simp_all add: high_offset_def)
  then have "fst (fetch_records up batch topic first d') = Inl TailKafka" if "tables d' topic = Some p" for d'
    using that by (simp add: fetch_records_def fail_with_def)
  with assms(1) neg show ?thesis
    by (simp add: ldb_tail_def compute_offsets_def done_with_def first_def [symmetric] split_beta split: sum.splits)
qed

theorem huge_skip_breaks_tail_witness:
  "ldb_tail 1 up (\<lambda>_. 0) ''t'' \<lparr>tc_follow = False, tc_start_from = FromBeginning (2 ^ 63)\<rparr>
      \<lparr>executed = 0, tables = [''t'' \<mapsto> \<lparr>low_offset = 1, records = []\<rparr>]\<rparr> = Inr ([], Broken TailKafka)"
  using huge_skip_breaks_tail [of "\<lparr>executed = 0, tables = [''t'' \<mapsto> \<lparr>low_offset = 1, records = []\<rparr>]\<rparr>" "''t''"
      "\<lparr>low_offset = 1, records = []\<rparr>" "2 ^ 63" 0 "\<lambda>_. 0" False]
  by (simp add: high_offset_def i64_MAX_def)

end
