(* ===== verification/Rte.thy ===== *)
theory Rte
  imports Rq Rtq Rdb Ldb
begin

text \<open>
  The resource transition engine, \<^verbatim>\<open>crates/rte/src/main.rs\<close>: the handlers of the five transition
  messages and the worker loop. A plugin is an external service, a parameter that answers a call
  depending on the calls it has seen. JSON values (\<open>'v\<close>) and their conversion to records (\<open>'r\<close>) are
  parameters.
\<close>

section \<open>Plugins\<close>

type_synonym ModuleId = "string list \<times> string list"

text \<open>\<^verbatim>\<open>str::split\<close> by a character.\<close>

fun split_on :: "char \<Rightarrow> string \<Rightarrow> string list" where
  "split_on c [] = [[]]"
| "split_on c (x # xs) =
    (case split_on c xs of
       seg # segs \<Rightarrow> if x = c then [] # seg # segs else (x # seg) # segs
     | [] \<Rightarrow> [])"

definition parse_module_id :: "string \<Rightarrow> ModuleId option" where
  "parse_module_id s =
    (case filter (\<lambda>seg. seg \<noteq> []) (split_on (CHR ''/'') s) of
       [] \<Rightarrow> None
     | seg # segs \<Rightarrow> Some ([seg], segs))"

definition plugin_name_for_resource_type :: "string \<Rightarrow> string option" where
  "plugin_name_for_resource_type typ = map_option fst (split_once ''.'' typ)"

record 'r SclcResource =
  sr_inputs :: 'r
  sr_outputs :: 'r
  sr_dependencies :: "ResourceId list"
  sr_markers :: "Marker set"

datatype 'r PluginCall =
    CallCreate string ResourceId 'r
  | CallUpdate string ResourceId 'r 'r 'r
  | CallDelete string ResourceId 'r 'r
  | CallCheck string ResourceId "'r SclcResource"

text \<open>What a plugin answers; the resource in the answer to a deletion is ignored.\<close>

type_synonym 'r plugin = "(ModuleId \<times> 'r PluginCall) list \<Rightarrow> 'r PluginCall \<Rightarrow> string + 'r SclcResource"

record 't PluginSpec =
  ps_name :: ModuleId
  ps_target :: 't

definition PluginSpec_from_str :: "(string \<Rightarrow> string + 't) \<Rightarrow> string \<Rightarrow> string + 't PluginSpec" where
  "PluginSpec_from_str parse_target s =
    (case split_once ''@'' s of
       None \<Rightarrow> Inl (''invalid plugin spec `'' @ s @ ''`: expected NAME@TARGET (e.g. Std/Random@tcp://127.0.0.1:50051)'')
     | Some (name_str, target_str) \<Rightarrow>
         (case parse_module_id name_str of
            None \<Rightarrow> Inl (''invalid plugin name `'' @ name_str @ ''`: empty module path'')
          | Some name \<Rightarrow>
              (case parse_target target_str of
                 Inl e \<Rightarrow> Inl (''invalid plugin target `'' @ target_str @ ''`: '' @ e)
               | Inr target \<Rightarrow> Inr \<lparr>ps_name = name, ps_target = target\<rparr>)))"

text \<open>Plugins are dialled in order, the first failure ends it, and a later plugin of a name replaces an earlier one.\<close>

fun dial_plugins :: "('t \<Rightarrow> 'e + 'p) \<Rightarrow> 't PluginSpec list \<Rightarrow> (ModuleId \<rightharpoonup> 'p) \<Rightarrow> 'e + (ModuleId \<rightharpoonup> 'p)" where
  "dial_plugins dial [] plugins = Inr plugins"
| "dial_plugins dial (spec # specs) plugins =
    (case dial (ps_target spec) of
       Inl e \<Rightarrow> Inl e
     | Inr client \<Rightarrow> dial_plugins dial specs (plugins(ps_name spec \<mapsto> client)))"

definition rte_check_worker_args :: "16 word \<Rightarrow> 16 word \<Rightarrow> 16 word \<Rightarrow> StartError + unit" where
  "rte_check_worker_args index worker_total local_workers =
    (if local_workers = 0 then Inl NoLocalWorkers
     else if worker_total = 0 then Inl NoWorkers
     else if index \<ge> worker_total then Inl IndexTooLarge
     else if u16_saturating_add index local_workers > worker_total then Inl TooManyLocalWorkers
     else Inr ())"

definition resolve_plugin :: "string \<Rightarrow> (ModuleId \<rightharpoonup> 'r plugin) \<Rightarrow> (ModuleId \<times> 'r plugin) option" where
  "resolve_plugin typ plugins =
    (case plugin_name_for_resource_type typ of
       None \<Rightarrow> None
     | Some name \<Rightarrow>
         (case parse_module_id name of
            None \<Rightarrow> None
          | Some module \<Rightarrow> map_option (Pair module) (plugins module)))"

section \<open>Context and state\<close>

definition MAX_INPUT_SIZE_BYTES :: nat where
  "MAX_INPUT_SIZE_BYTES = 1048576"

definition MAX_OUTPUT_SIZE_BYTES :: nat where
  "MAX_OUTPUT_SIZE_BYTES = 1048576"

text \<open>
  What an iteration of a worker works with. The clock reading and the time the handler takes belong to
  one iteration. The networks say how each request to the databases and to the queue ends, and the
  broker whether it accepts the last of the settlements of a delivery.
\<close>

record ('r, 'v) RteEnv =
  rte_region :: RegionId
  rte_js :: "'r codec"
  rte_rdb_net :: network
  rte_rq_net :: network
  rte_ldb_net :: network
  rte_b64 :: "string \<Rightarrow> string"
  rte_plugins :: "ModuleId \<rightharpoonup> 'r plugin"
  rte_value_len :: "'v \<Rightarrow> nat"
  rte_from_value :: "'v \<Rightarrow> string + 'r"
  rte_to_value :: "'r \<Rightarrow> 'v option"
  rte_error_text :: "ResourceError \<Rightarrow> string"
  rte_broker :: "Settlement list \<Rightarrow> bool"
  rte_now :: int
  rte_elapsed :: "64 word"

text \<open>The state keeps the calls made to the plugins and the settlements of the current delivery.\<close>

record ('r, 'v) RteState =
  rte_rdb :: "RdbTables Db"
  rte_rq :: "(RegionId \<times> 'v Report) list Db"
  rte_ldb :: "Kafka Db"
  rte_calls :: "(ModuleId \<times> 'r PluginCall) list"
  rte_settled :: "Settlement list"

text \<open>
  A handler gives up in one of two ways: it drops the message, which it acknowledges without a
  report, or it reports a failure and rejects the message for good. Each \<^verbatim>\<open>return\<close> of the source is one
  of these. Otherwise it reports a success, with the state, the terminal and the volatile flag.
\<close>

datatype Exit = Drop | Failed IncidentCategory string ResourceOperationalState bool

type_synonym ('r, 'v) handler = "(('r, 'v) RteState, Exit, ResourceOperationalState \<times> bool \<times> bool) op"

definition rdb_op :: "('r, 'v) RteEnv \<Rightarrow> (RdbTables Db, ResourceError, 'a) op \<Rightarrow> (('r, 'v) RteState, string, 'a) op" where
  "rdb_op env m = map_err (rte_error_text env) (lift_op rte_rdb (\<lambda>s st. st\<lparr>rte_rdb := s\<rparr>) m)"

definition call_plugin :: "ModuleId \<times> 'r plugin \<Rightarrow> 'r PluginCall \<Rightarrow> (('r, 'v) RteState, string, 'r SclcResource) op" where
  "call_plugin p call st =
    (snd p (rte_calls st) call, st\<lparr>rte_calls := rte_calls st @ [(fst p, call)]\<rparr>)"

definition settle :: "('r, 'v) RteEnv \<Rightarrow> Settlement \<Rightarrow> (('r, 'v) RteState, unit, unit) op" where
  "settle env s st =
    (if rte_broker env (rte_settled st @ [s]) then Inr () else Inl (), st\<lparr>rte_settled := rte_settled st @ [s]\<rparr>)"

definition publish_resource_report ::
  "('r, 'v) RteEnv \<Rightarrow> RegionId \<Rightarrow> ResourceQid \<Rightarrow> Outcome \<Rightarrow> ResourceOperationalState \<Rightarrow> bool \<Rightarrow> bool
    \<Rightarrow> ('r, 'v) RteState \<Rightarrow> ('r, 'v) RteState" where
  "publish_resource_report env home qid out state terminal volatile st =
    (let report = \<lparr>entity_qid = EResource qid, timestamp = rte_now env, outcome = out, metrics = wall_time (rte_elapsed env),
       extension = XResource \<lparr>res_state = state, res_terminal = terminal, res_volatile = volatile\<rparr>\<rparr>
     in st\<lparr>rte_rq := snd (cql_write (rte_rq_net env) () (\<lambda>q. q @ [(home, report)]) (rte_rq st))\<rparr>)"

text \<open>Logging never fails: a topic that cannot be opened and a record that cannot be written are ignored.\<close>

definition log_resource_event ::
  "('r, 'v) RteEnv \<Rightarrow> ResourceRef \<Rightarrow> Severity \<Rightarrow> string \<Rightarrow> ('r, 'v) RteState \<Rightarrow> ('r, 'v) RteState" where
  "log_resource_event env r severity msg st =
    st\<lparr>rte_ldb :=
      (case ldb_namespace (rte_b64 env) (rte_ldb_net env) (ResourceQid_display (resource_ref_qid r)) (rte_ldb st) of
         (Inl e, k) \<Rightarrow> k
       | (Inr topic, k) \<Rightarrow>
           ls_kafka (snd (ldb_log (rte_ldb_net env) topic (rte_now env) severity msg \<lparr>ls_kafka = k, ls_connected = False\<rparr>)))\<rparr>"

definition log_event :: "('r, 'v) RteEnv \<Rightarrow> ResourceRef \<Rightarrow> string \<Rightarrow> (('r, 'v) RteState, 'e, unit) op" where
  "log_event env r msg = modify_state (log_resource_event env r SevInfo msg)"

text \<open>An attempt whose failure is logged before the handler gives up.\<close>

definition attempt ::
  "('r, 'v) RteEnv \<Rightarrow> ResourceRef \<Rightarrow> string \<Rightarrow> (string \<Rightarrow> Exit) \<Rightarrow> (('r, 'v) RteState, string, 'a) op
    \<Rightarrow> (('r, 'v) RteState, Exit, 'a) op" where
  "attempt env r prefix f m st =
    (case m st of
       (Inl e, st') \<Rightarrow> (Inl (f e), log_resource_event env r SevError (prefix @ e) st')
     | (Inr x, st') \<Rightarrow> (Inr x, st'))"

section \<open>Helpers\<close>

abbreviation ref_ns :: "ResourceRef \<Rightarrow> string" where
  "ref_ns r \<equiv> EnvironmentQid_display (ref_env r)"

abbreviation ref_key :: "ResourceRef \<Rightarrow> string \<times> string" where
  "ref_key r \<equiv> (rid_typ (ref_id r), rid_name (ref_id r))"

definition rte_deployment_qid :: "EnvironmentQid \<Rightarrow> DeploymentId \<Rightarrow> string" where
  "rte_deployment_qid env_qid dep = DeploymentQid_display \<lparr>dep_env = env_qid, dep_id = dep\<rparr>"

definition rte_check_json_size :: "('r, 'v) RteEnv \<Rightarrow> 'v \<Rightarrow> nat \<Rightarrow> bool" where
  "rte_check_json_size env v limit \<longleftrightarrow> rte_value_len env v \<le> limit"

definition output_too_large :: "('r, 'v) RteEnv \<Rightarrow> 'r \<Rightarrow> bool" where
  "output_too_large env outputs \<longleftrightarrow>
    (case rte_to_value env outputs of None \<Rightarrow> False | Some v \<Rightarrow> \<not> rte_check_json_size env v MAX_OUTPUT_SIZE_BYTES)"

definition dependencies_from_refs :: "ResourceRef list \<Rightarrow> ResourceId list" where
  "dependencies_from_refs = map ref_id"

definition is_volatile_markers :: "Marker set \<Rightarrow> bool" where
  "is_volatile_markers markers \<longleftrightarrow> Volatile \<in> markers"

definition persist_resource_state ::
  "('r, 'v) RteEnv \<Rightarrow> ResourceRef \<Rightarrow> 'r \<Rightarrow> string \<Rightarrow> 'r \<Rightarrow> Marker set option \<Rightarrow> ResourceId list \<Rightarrow> SourceTrace
    \<Rightarrow> (RdbTables Db, ResourceError, unit) op" where
  "persist_resource_state env r inputs owner outputs markers deps trace =
    (let js = rte_js env; net = rte_rdb_net env; region = rte_region env; ns = ref_ns r; key = ref_key r in
     seq (set_input js net region ns key inputs owner) (\<lambda>_.
     seq (set_dependencies js net region ns key deps) (\<lambda>_.
     seq (set_output js net region ns key outputs) (\<lambda>_.
     seq (case markers of None \<Rightarrow> done_with () | Some ms \<Rightarrow> seq (set_markers js net region ns key ms) (\<lambda>_. done_with ())) (\<lambda>_.
     seq (set_source_trace js net region ns key trace) (\<lambda>_. done_with ()))))))"

definition read_resource ::
  "('r, 'v) RteEnv \<Rightarrow> ResourceRef \<Rightarrow> ResourceOperationalState \<Rightarrow> (('r, 'v) RteState, Exit, 'r Resource option) op" where
  "read_resource env r state =
    map_err (\<lambda>e. Failed SystemError e state False) (rdb_op env
      (rdb_get (rte_js env) (rte_rdb_net env) (rte_region env) (ref_ns r) (ref_key r)))"

definition no_plugin :: "ResourceRef \<Rightarrow> ResourceOperationalState \<Rightarrow> bool \<Rightarrow> Exit" where
  "no_plugin r state volatile =
    Failed SystemError (''no plugin available for resource type '' @ rid_typ (ref_id r)) state volatile"

section \<open>Handlers\<close>

text \<open>Creating a resource that does not exist yet, and the handler, which first looks whether it does.\<close>

definition create_absent :: "('r, 'v) RteEnv \<Rightarrow> 'v CreateMessage \<Rightarrow> ('r, 'v) handler" where
  "create_absent env msg =
    (let r = cm_resource msg; dep_qid = rte_deployment_qid (ref_env r) (cm_deployment_id msg);
         short = DeploymentId_short (cm_deployment_id msg) in
     case resolve_plugin (rid_typ (ref_id r)) (rte_plugins env) of
       None \<Rightarrow> fail_with (no_plugin r OpPending False)
     | Some plugin \<Rightarrow>
         if \<not> rte_check_json_size env (cm_inputs msg) MAX_INPUT_SIZE_BYTES
         then fail_with (Failed BadConfiguration ''create inputs exceed size limit'' OpPending False)
         else
           seq (map_err (\<lambda>e. Failed BadConfiguration e OpPending False) (of_result (rte_from_value env (cm_inputs msg)))) (\<lambda>inputs.
           seq (log_event env r (short @ '': Creating'')) (\<lambda>_.
           seq (attempt env r (short @ '': Failed to create: '') (\<lambda>e. Failed Crash e OpPending False)
             (call_plugin plugin (CallCreate dep_qid (ref_id r) inputs))) (\<lambda>res.
           let volatile = is_volatile_markers (sr_markers res) in
           if output_too_large env (sr_outputs res)
           then fail_with (Failed SystemError ''plugin create output exceeds size limit'' OpLive volatile)
           else
             seq (attempt env r (short @ '': Failed to create: '') (\<lambda>e. Failed SystemError e OpLive volatile)
               (rdb_op env (persist_resource_state env r (sr_inputs res) dep_qid (sr_outputs res) (Some (sr_markers res))
                 (dependencies_from_refs (cm_dependencies msg)) (cm_source_trace msg)))) (\<lambda>_.
             seq (log_event env r (short @ '': Created'')) (\<lambda>_.
             done_with (OpLive, False, volatile)))))))"

definition handle_create :: "('r, 'v) RteEnv \<Rightarrow> 'v CreateMessage \<Rightarrow> ('r, 'v) handler" where
  "handle_create env msg =
    seq (read_resource env (cm_resource msg) OpPending) (\<lambda>current.
    if current \<noteq> None then fail_with Drop else create_absent env msg)"

text \<open>Reading a resource of the message's deployment with its inputs and outputs.\<close>

definition read_complete ::
  "('r, 'v) RteEnv \<Rightarrow> ResourceRef \<Rightarrow> string \<Rightarrow> string \<Rightarrow> (('r, 'v) RteState, Exit, 'r Resource \<times> 'r \<times> 'r) op" where
  "read_complete env r owner what =
    seq (read_resource env r OpLive) (\<lambda>current.
    case current of
      None \<Rightarrow> fail_with Drop
    | Some cur \<Rightarrow>
        if res_owner cur \<noteq> Some owner then fail_with Drop
        else case res_inputs cur of
          None \<Rightarrow> fail_with (Failed InconsistentState (''missing current inputs for '' @ what) OpLive (is_volatile_markers (res_markers cur)))
        | Some inputs \<Rightarrow>
            (case res_outputs cur of
               None \<Rightarrow> fail_with (Failed InconsistentState (''missing current outputs for '' @ what) OpLive (is_volatile_markers (res_markers cur)))
             | Some outputs \<Rightarrow> done_with (cur, inputs, outputs)))"

definition handle_destroy :: "('r, 'v) RteEnv \<Rightarrow> DestroyMessage \<Rightarrow> ('r, 'v) handler" where
  "handle_destroy env msg =
    (let r = dm_resource msg; dep_qid = rte_deployment_qid (ref_env r) (dm_deployment_id msg);
         short = DeploymentId_short (dm_deployment_id msg) in
     seq (read_complete env r dep_qid ''delete'') (\<lambda>(cur, inputs, outputs).
     let volatile = is_volatile_markers (res_markers cur) in
     case resolve_plugin (rid_typ (ref_id r)) (rte_plugins env) of
       None \<Rightarrow> fail_with (no_plugin r OpLive volatile)
     | Some plugin \<Rightarrow>
         seq (log_event env r (short @ '': Destroying'')) (\<lambda>_.
         seq (attempt env r (short @ '': Failed to destroy: '') (\<lambda>e. Failed Crash e OpLive volatile)
           (call_plugin plugin (CallDelete dep_qid (ref_id r) inputs outputs))) (\<lambda>_.
         seq (attempt env r (short @ '': Failed to destroy: '') (\<lambda>e. Failed SystemError e OpDestroyed volatile)
           (rdb_op env (rdb_delete (rte_rdb_net env) (ref_ns r) (ref_key r)))) (\<lambda>_.
         seq (log_event env r (short @ '': Destroyed'')) (\<lambda>_.
         done_with (OpDestroyed, True, volatile)))))))"

definition operation_verb :: "string \<Rightarrow> string" where
  "operation_verb operation =
    (if operation = ''adopt'' then ''Adopting'' else if operation = ''restore'' then ''Restoring'' else ''Updating'')"

text \<open>Updating the inputs returns what is written: inputs, outputs, and markers if they change.\<close>

definition update_if_changed ::
  "('r, 'v) RteEnv \<Rightarrow> string \<Rightarrow> ResourceRef \<Rightarrow> DeploymentId \<Rightarrow> 'r Resource \<Rightarrow> 'r \<Rightarrow> 'r \<Rightarrow> 'r
    \<Rightarrow> (('r, 'v) RteState, Exit, 'r \<times> 'r \<times> Marker set option \<times> bool) op" where
  "update_if_changed env operation r target cur prev_inputs prev_outputs desired =
    (let volatile = is_volatile_markers (res_markers cur); short = DeploymentId_short target in
     if prev_inputs = desired then done_with (prev_inputs, prev_outputs, None, volatile)
     else case resolve_plugin (rid_typ (ref_id r)) (rte_plugins env) of
       None \<Rightarrow> fail_with (no_plugin r OpLive volatile)
     | Some plugin \<Rightarrow>
         seq (log_event env r (short @ '': '' @ operation_verb operation)) (\<lambda>_.
         seq (attempt env r (short @ '': Failed to update: '') (\<lambda>e. Failed Crash e OpLive volatile)
           (call_plugin plugin (CallUpdate (rte_deployment_qid (ref_env r) target) (ref_id r) prev_inputs prev_outputs desired))) (\<lambda>res.
         let volatile = is_volatile_markers (sr_markers res) in
         if output_too_large env (sr_outputs res)
         then fail_with (Failed SystemError ''plugin update output exceeds size limit'' OpLive volatile)
         else done_with (sr_inputs res, sr_outputs res, Some (sr_markers res), volatile))))"

definition handle_update_inputs ::
  "('r, 'v) RteEnv \<Rightarrow> string \<Rightarrow> ResourceRef \<Rightarrow> string \<Rightarrow> DeploymentId \<Rightarrow> 'v \<Rightarrow> ResourceRef list \<Rightarrow> SourceTrace
    \<Rightarrow> (('r, 'v) RteState, Exit, bool) op" where
  "handle_update_inputs env operation r owner target desired_inputs deps trace =
    seq (read_complete env r owner ''operation'') (\<lambda>(cur, prev_inputs, prev_outputs).
    let volatile = is_volatile_markers (res_markers cur) in
    if \<not> rte_check_json_size env desired_inputs MAX_INPUT_SIZE_BYTES
    then fail_with (Failed BadConfiguration ''desired inputs exceed size limit'' OpLive volatile)
    else
      seq (map_err (\<lambda>e. Failed BadConfiguration e OpLive volatile) (of_result (rte_from_value env desired_inputs))) (\<lambda>desired.
      seq (update_if_changed env operation r target cur prev_inputs prev_outputs desired) (\<lambda>(inputs, outputs, markers, volatile).
      seq (attempt env r (DeploymentId_short target @ '': Failed to update: '') (\<lambda>e. Failed SystemError e OpLive volatile)
        (rdb_op env (persist_resource_state env r inputs (rte_deployment_qid (ref_env r) target) outputs markers
          (dependencies_from_refs deps) trace))) (\<lambda>_.
      done_with volatile))))"

definition handle_adopt :: "('r, 'v) RteEnv \<Rightarrow> 'v AdoptMessage \<Rightarrow> ('r, 'v) handler" where
  "handle_adopt env msg =
    (let r = am_resource msg; source = am_from_deployment_id msg; target = am_to_deployment_id msg in
     seq (handle_update_inputs env ''adopt'' r (rte_deployment_qid (ref_env r) source)
       target (am_desired_inputs msg) (am_dependencies msg) (am_source_trace msg)) (\<lambda>volatile.
     seq (log_event env r (''Relinquished by '' @ DeploymentId_short source @ '' and adopted by '' @ DeploymentId_short target)) (\<lambda>_.
     done_with (OpLive, False, volatile))))"

definition handle_restore :: "('r, 'v) RteEnv \<Rightarrow> 'v RestoreMessage \<Rightarrow> ('r, 'v) handler" where
  "handle_restore env msg =
    (let r = rm_resource msg; dep = rm_deployment_id msg in
     seq (handle_update_inputs env ''restore'' r (rte_deployment_qid (ref_env r) dep)
       dep (rm_desired_inputs msg) (rm_dependencies msg) (rm_source_trace msg)) (\<lambda>volatile.
     seq (log_event env r (DeploymentId_short dep @ '': Restored'')) (\<lambda>_.
     done_with (OpLive, False, volatile))))"

definition handle_check :: "('r, 'v) RteEnv \<Rightarrow> CheckMessage \<Rightarrow> ('r, 'v) handler" where
  "handle_check env msg =
    (let r = km_resource msg; dep_qid = rte_deployment_qid (ref_env r) (km_deployment_id msg);
         failed = DeploymentId_short (km_deployment_id msg) @ '': Failed to check: '' in
     seq (read_complete env r dep_qid ''check'') (\<lambda>(cur, inputs, outputs).
     let volatile = is_volatile_markers (res_markers cur) in
     case resolve_plugin (rid_typ (ref_id r)) (rte_plugins env) of
       None \<Rightarrow> fail_with (no_plugin r OpLive volatile)
     | Some plugin \<Rightarrow>
         seq (attempt env r failed (\<lambda>e. Failed SystemError e OpLive volatile) (call_plugin plugin (CallCheck dep_qid (ref_id r)
           \<lparr>sr_inputs = inputs, sr_outputs = outputs, sr_dependencies = res_dependencies cur, sr_markers = res_markers cur\<rparr>))) (\<lambda>res.
         let volatile = is_volatile_markers (sr_markers res) in
         if output_too_large env (sr_outputs res)
         then fail_with (Failed SystemError ''plugin check output exceeds size limit'' OpLive volatile)
         else
           seq (attempt env r failed (\<lambda>e. Failed SystemError e OpLive volatile)
             (rdb_op env (set_output (rte_js env) (rte_rdb_net env) (rte_region env) (ref_ns r) (ref_key r) (sr_outputs res)))) (\<lambda>_.
           done_with (OpLive, False, volatile)))))"

section \<open>The worker\<close>

fun handle_message :: "('r, 'v) RteEnv \<Rightarrow> 'v Message \<Rightarrow> ('r, 'v) handler" where
  "handle_message env (Create msg) = handle_create env msg"
| "handle_message env (Destroy msg) = handle_destroy env msg"
| "handle_message env (Adopt msg) = handle_adopt env msg"
| "handle_message env (Restore msg) = handle_restore env msg"
| "handle_message env (Check msg) = handle_check env msg"

text \<open>How a handler ends: its report and its own settlement of the delivery.\<close>

definition conclude :: "('r, 'v) RteEnv \<Rightarrow> 'v Message \<Rightarrow> (('r, 'v) RteState, unit, unit) op" where
  "conclude env msg st =
    (let qid = resource_ref_qid (message_resource msg); home = message_home_region msg in
     case handle_message env msg st of
       (Inr (state, terminal, volatile), st') \<Rightarrow>
         (Inr (), publish_resource_report env home qid Success state terminal volatile st')
     | (Inl Drop, st') \<Rightarrow> settle env Ack st'
     | (Inl (Failed category err state volatile), st') \<Rightarrow>
         settle env (Nack False)
           (publish_resource_report env home qid (Failure category err) state False volatile st'))"

text \<open>
  An iteration ends with an error, or says whether the loop goes on. Each delivery starts unsettled.
\<close>

definition rte_worker_loop_iteration ::
  "('r, 'v) RteEnv \<Rightarrow> unit + 'v Message option \<Rightarrow> (('r, 'v) RteState, unit, bool) op" where
  "rte_worker_loop_iteration env delivered st =
    (case delivered of
       Inl e \<Rightarrow> (Inl e, st)
     | Inr None \<Rightarrow> (Inr False, st)
     | Inr (Some msg) \<Rightarrow>
         seq (conclude env msg) (\<lambda>_. seq (settle env Ack) (\<lambda>_. done_with True)) (st\<lparr>rte_settled := []\<rparr>))"

text \<open>The loop goes on after a failed iteration and ends with the stream.\<close>

fun rte_worker_loop ::
  "(('r, 'v) RteEnv \<times> (unit + 'v Message option)) list \<Rightarrow> ('r, 'v) RteState \<Rightarrow> ('r, 'v) RteState" where
  "rte_worker_loop [] st = st"
| "rte_worker_loop ((env, delivered) # rest) st =
    (case rte_worker_loop_iteration env delivered st of
       (Inr False, st') \<Rightarrow> st'
     | (_, st') \<Rightarrow> rte_worker_loop rest st')"

end
