(* ===== verification/Rte_Transitions.thy ===== *)
theory Rte_Transitions
  imports Rte
begin

text \<open>
  What the handlers of the resource transition engine do to the resource database: which messages
  they drop, what a successful transition stores, how a delivery is settled and reported, and what a
  creation that was cut short leaves behind.
\<close>

section \<open>Logging and settling leave the rest alone\<close>

lemma log_resource_event_frame [simp]:
  "rte_rdb (log_resource_event env r sev msg st) = rte_rdb st"
  "rte_rq (log_resource_event env r sev msg st) = rte_rq st"
  "rte_calls (log_resource_event env r sev msg st) = rte_calls st"
  "rte_settled (log_resource_event env r sev msg st) = rte_settled st"
  by (simp_all add: log_resource_event_def)

lemma publish_resource_report_frame [simp]:
  "rte_rdb (publish_resource_report env home qid out state terminal volatile st) = rte_rdb st"
  "rte_ldb (publish_resource_report env home qid out state terminal volatile st) = rte_ldb st"
  "rte_calls (publish_resource_report env home qid out state terminal volatile st) = rte_calls st"
  "rte_settled (publish_resource_report env home qid out state terminal volatile st) = rte_settled st"
  by (simp_all add: publish_resource_report_def Let_def)

lemma seq_log_event [simp]: "seq (log_event env r msg) k st = k () (log_resource_event env r SevInfo msg st)"
  by (simp add: log_event_def modify_state_def seq_def)

lemma attempt_state:
  "snd (attempt env r prefix f m st) = snd (m st) \<or>
    (\<exists>e. snd (attempt env r prefix f m st) = log_resource_event env r SevError (prefix @ e) (snd (m st)))"
  by (auto simp: attempt_def split: prod.splits sum.splits)

definition quiet :: "(('r, 'v) RteState \<Rightarrow> 'b) \<Rightarrow> bool" where
  "quiet f \<longleftrightarrow> (\<forall>st k. f (st\<lparr>rte_ldb := k\<rparr>) = f st)"

lemma quiet_log: "quiet f \<Longrightarrow> f (log_resource_event env r sev msg st) = f st"
  by (simp add: quiet_def log_resource_event_def)

lemma frames_logged_attempt: "quiet f \<Longrightarrow> frames f m \<Longrightarrow> frames f (attempt env r prefix g m)"
  unfolding frames_def using attempt_state [of env r prefix g m] quiet_log [of f] by metis

lemma frames_log_event: "quiet f \<Longrightarrow> frames f (log_event env r msg)"
  unfolding log_event_def by (rule frames_modify) (rule quiet_log)

section \<open>Handlers leave other resources alone\<close>

lemma frames_cql_read: "frames (\<lambda>d. g (tables d)) (cql_read net e f)"
  by (simp add: frames_def)

lemma frames_cql_write: "(\<And>t. g (h t) = g t) \<Longrightarrow> frames (\<lambda>d. g (tables d)) (cql_write net e h)"
  by (simp add: frames_def cql_write_def exec_def Let_def split: Exec.splits)

lemmas frames_rdb_intros = frames_intros frames_cql_read frames_cql_write

lemma frames_get: "frames (\<lambda>d. g (tables d)) (rdb_get js net region ns key)"
  unfolding rdb_get_def by (intro frames_rdb_intros)

lemma frames_get_after_write: "frames (\<lambda>d. g (tables d)) (get_after_write js net region ns key)"
  unfolding get_after_write_def by (intro frames_rdb_intros frames_get)

definition row_at :: "string \<Rightarrow> string \<times> string \<Rightarrow> ('r, 'v) RteState \<Rightarrow> ResourceRow option" where
  "row_at ns key st = resource_row (tables (rte_rdb st)) ns key"

lemma quiet_row_at: "quiet (row_at ns key)"
  by (simp add: quiet_def row_at_def)

lemma frames_column_write:
  assumes "(ns', key') \<noteq> (ns, key)"
  shows "frames (\<lambda>d. resource_row (tables d) ns' key')
    (seq (of_result x) (\<lambda>text. seq (cql_write net e (update_resource ns key (f text))) (\<lambda>_. get_after_write js net region ns key)))"
  by (intro frames_seq frames_of_result frames_get_after_write frames_cql_write) (use assms in auto)

lemma frames_setters:
  assumes "(ns', key') \<noteq> (ns, key)"
  shows "frames (\<lambda>d. resource_row (tables d) ns' key') (set_input js net region ns key x owner)"
    and "frames (\<lambda>d. resource_row (tables d) ns' key') (set_output js net region ns key x)"
    and "frames (\<lambda>d. resource_row (tables d) ns' key') (set_dependencies js net region ns key deps)"
    and "frames (\<lambda>d. resource_row (tables d) ns' key') (set_markers js net region ns key ms)"
    and "frames (\<lambda>d. resource_row (tables d) ns' key') (set_source_trace js net region ns key tr)"
  unfolding set_input_def set_output_def set_dependencies_def set_markers_def set_source_trace_def
  by (rule frames_column_write [OF assms])+

lemma frames_delete:
  "(ns', key') \<noteq> (ns, key) \<Longrightarrow> frames (\<lambda>d. resource_row (tables d) ns' key') (rdb_delete net ns key)"
  unfolding rdb_delete_def by (rule frames_cql_write) auto

lemma frames_rdb_op:
  "frames (\<lambda>d. resource_row (tables d) ns key) m \<Longrightarrow> frames (row_at ns key) (rdb_op env m)"
  by (simp add: frames_def rdb_op_def row_at_def lift_op_def split_beta)

lemma frames_persist:
  assumes "(ns, key) \<noteq> (ref_ns r, ref_key r)"
  shows "frames (row_at ns key) (rdb_op env (persist_resource_state env r inputs owner outputs markers deps trace))"
  unfolding persist_resource_state_def Let_def
  by (intro frames_rdb_op frames_seq frames_option frames_done frames_setters assms)

lemma frames_call_plugin: "frames (row_at ns key) (call_plugin plugin call)"
  by (simp add: frames_def row_at_def call_plugin_def)

lemma frames_read_resource: "frames (row_at ns key) (read_resource env r state)"
  unfolding read_resource_def by (intro frames_map_err frames_rdb_op frames_get)

lemma frames_read_complete: "frames (row_at ns key) (read_complete env r owner what)"
  unfolding read_complete_def by (intro frames_intros frames_read_resource)

lemmas frames_handler_intros = frames_intros frames_logged_attempt frames_log_event quiet_row_at frames_call_plugin
  frames_read_resource frames_read_complete

lemma frames_update_inputs:
  assumes "(ns, key) \<noteq> (ref_ns r, ref_key r)"
  shows "frames (row_at ns key) (handle_update_inputs env operation r owner target desired deps trace)"
  unfolding handle_update_inputs_def update_if_changed_def Let_def
  by (intro frames_handler_intros frames_persist assms)

lemma other_resources_kept:
  assumes "(ns, key) \<noteq> (ref_ns (message_resource msg), ref_key (message_resource msg))"
  shows "frames (row_at ns key) (handle_message env msg)"
proof (cases msg)
  case (Create c)
  with assms show ?thesis
    by (simp only: handle_message.simps handle_create_def create_absent_def Let_def message_resource.simps)
      (intro frames_handler_intros frames_persist)
next
  case (Destroy c)
  with assms show ?thesis
    by (simp only: handle_message.simps handle_destroy_def Let_def message_resource.simps)
      (intro frames_handler_intros frames_rdb_op frames_delete)
next
  case (Check c)
  with assms show ?thesis
    by (simp only: handle_message.simps handle_check_def Let_def message_resource.simps)
      (intro frames_handler_intros frames_rdb_op frames_setters)
next
  case (Adopt c)
  with assms show ?thesis
    by (simp only: handle_message.simps handle_adopt_def Let_def message_resource.simps)
      (intro frames_handler_intros frames_update_inputs)
next
  case (Restore c)
  with assms show ?thesis
    by (simp only: handle_message.simps handle_restore_def Let_def message_resource.simps)
      (intro frames_handler_intros frames_update_inputs)
qed

section \<open>Creations that were cut short\<close>

lemma map_resource_row_no_outputs:
  "map_resource_row js ns region key row = Inr cur \<Longrightarrow> rr_outputs_json row = None \<Longrightarrow> res_outputs cur = None"
  by (auto simp: map_resource_row_def decode_record_def split: sum.splits)

lemma read_resource_row:
  assumes "row_at (ref_ns r) (ref_key r) st = Some row" "fst (read_resource env r state st) = Inr current"
  obtains cur where "current = Some cur" "map_resource_row (rte_js env) (ref_ns r) (rte_region env) (ref_key r) row = Inr cur"
  using assms
  by (auto simp: read_resource_def rdb_op_def rdb_get_def lift_op_def map_err_def seq_def of_result_def done_with_def
      fail_with_def row_at_def cql_read_def exec_def Let_def
      split: prod.splits sum.splits option.splits Exec.splits)

lemma read_complete_needs_outputs:
  assumes "row_at (ref_ns r) (ref_key r) st = Some row" "rr_outputs_json row = None"
  shows "\<exists>e. fst (read_complete env r owner what st) = Inl e"
proof (cases "read_resource env r OpLive st")
  case (Pair res st')
  show ?thesis
  proof (cases res)
    case (Inr current)
    with Pair assms(1) obtain cur where cur: "current = Some cur"
      "map_resource_row (rte_js env) (ref_ns r) (rte_region env) (ref_key r) row = Inr cur"
      by (metis fst_conv read_resource_row)
    with assms(2) have "res_outputs cur = None" by (blast intro: map_resource_row_no_outputs)
    with Pair Inr cur show ?thesis
      by (simp add: read_complete_def seq_def fail_with_def split: option.splits)
  qed (use Pair in \<open>simp add: read_complete_def seq_def\<close>)
qed

lemma seq_stops: "fst (m s) = Inl e \<Longrightarrow> snd (seq m k s) = snd (m s)"
  by (simp add: seq_def split_beta)

lemma half_created_kept:
  assumes row: "row_at (ref_ns (message_resource msg)) (ref_key (message_resource msg)) st = Some row"
    and "rr_outputs_json row = None"
  shows "row_at (ref_ns (message_resource msg)) (ref_key (message_resource msg)) (snd (handle_message env msg st)) = Some row"
proof -
  let ?r = "message_resource msg"
  have complete: "row_at (ref_ns ?r) (ref_key ?r) (snd (seq (read_complete env ?r owner what) k st)) = Some row" for owner what k
    using read_complete_needs_outputs [OF assms, of env owner what] framesD [OF frames_read_complete] row by (metis seq_stops)
  have update: "row_at (ref_ns ?r) (ref_key ?r) (snd (seq (handle_update_inputs env operation ?r owner target desired deps trace) k st)) = Some row"
    for operation owner target desired deps trace k
    unfolding handle_update_inputs_def seq_assoc by (rule complete)
  show ?thesis
  proof (cases msg)
    case (Create c)
    then have r: "?r = cm_resource c" by simp
    obtain res st' where read: "read_resource env (cm_resource c) OpPending st = (res, st')" by force
    then have kept: "row_at (ref_ns ?r) (ref_key ?r) st' = Some row"
      using framesD [OF frames_read_resource] row by (metis snd_conv)
    have "\<exists>e. res = Inl e \<or> (\<exists>cur. res = Inr (Some cur))"
    proof (cases res)
      case (Inr current)
      with read row r obtain cur where "current = Some cur" by (metis fst_conv read_resource_row)
      with Inr show ?thesis by simp
    qed simp
    with kept read Create show ?thesis by (auto simp: handle_create_def Let_def seq_def fail_with_def)
  qed (use complete update in \<open>simp_all add: handle_destroy_def handle_check_def handle_adopt_def handle_restore_def Let_def\<close>)
qed

lemma half_created_iteration:
  assumes "row_at ns key st = Some row" "rr_outputs_json row = None"
  shows "row_at ns key (snd (rte_worker_loop_iteration env delivered st)) = Some row"
proof (cases "\<exists>msg. delivered = Inr (Some msg)")
  case True
  then obtain msg where msg: "delivered = Inr (Some msg)" by blast
  let ?st = "st\<lparr>rte_settled := []\<rparr>"
  have st: "row_at ns key ?st = Some row" using assms(1) by (simp add: row_at_def)
  have "row_at ns key (snd (handle_message env msg ?st)) = Some row"
  proof (cases "(ns, key) = (ref_ns (message_resource msg), ref_key (message_resource msg))")
    case True
    with st assms(2) half_created_kept show ?thesis by (metis prod.inject)
  next
    case False
    then show ?thesis using framesD [OF other_resources_kept] st by metis
  qed
  then show ?thesis
    using msg by (auto simp: rte_worker_loop_iteration_def conclude_def settle_def seq_def done_with_def row_at_def Let_def
        split: prod.splits sum.splits Exit.splits)
qed (use assms in \<open>auto simp: rte_worker_loop_iteration_def split: sum.splits option.splits\<close>)

text \<open>
  C38. A resource whose creation was cut short after its inputs were stored and before its outputs
  were is stuck: no sequence of messages, from any deployment and for any resource, ever changes or
  removes its row again, whatever the plugins answer and however the network fails.
\<close>

theorem half_created_resource_is_stuck:
  assumes "row_at ns key st = Some row" "rr_outputs_json row = None"
  shows "row_at ns key (rte_worker_loop deliveries st) = Some row"
  using assms(1)
proof (induction deliveries st rule: rte_worker_loop.induct)
  case (2 env delivered rest st)
  obtain res st' where it: "rte_worker_loop_iteration env delivered st = (res, st')" by (cases "rte_worker_loop_iteration env delivered st")
  then have "row_at ns key st' = Some row"
    using half_created_iteration [OF "2.prems" assms(2), of env delivered] by simp
  with "2.IH" it show ?case by (auto split: sum.splits bool.splits)
qed simp

definition example_rte_env :: "network \<Rightarrow> (string, string) RteEnv" where
  "example_rte_env net = \<lparr>rte_region = RegionId ''eu'', rte_js = example_codec, rte_rdb_net = net, rte_rq_net = up,
    rte_ldb_net = up, rte_b64 = example_b64,
    rte_plugins = (\<lambda>_. Some (\<lambda>calls call. Inr \<lparr>sr_inputs = ''in'', sr_outputs = ''out'', sr_dependencies = [], sr_markers = {}\<rparr>)),
    rte_value_len = length, rte_from_value = Inr, rte_to_value = Some, rte_error_text = (\<lambda>_. ''failed''),
    rte_broker = (\<lambda>_. True), rte_now = 5, rte_elapsed = 1\<rparr>"

definition example_rte :: "(string, string) RteState" where
  "example_rte = \<lparr>rte_rdb = \<lparr>executed = 0, tables = empty_rdb\<rparr>, rte_rq = \<lparr>executed = 0, tables = []\<rparr>,
    rte_ldb = \<lparr>executed = 0, tables = Map.empty\<rparr>, rte_calls = [], rte_settled = []\<rparr>"

definition example_create :: "string Message" where
  "example_create = Create \<lparr>cm_resource = example_ref ''seed'', cm_deployment_id = example_did 7,
    cm_home_region = RegionId ''eu'', cm_inputs = ''in'', cm_dependencies = [], cm_source_trace = []\<rparr>"

definition example_destroy :: "string Message" where
  "example_destroy = Destroy \<lparr>dm_resource = example_ref ''seed'', dm_deployment_id = example_did 7,
    dm_home_region = RegionId ''eu''\<rparr>"

definition half_created :: "(string, string) RteState" where
  "half_created = snd (rte_worker_loop_iteration (example_rte_env (\<lambda>n. if n = 3 then ExecLost else ExecOk))
    (Inr (Some example_create)) example_rte)"

lemmas rte_run_simps = rte_worker_loop_iteration_def conclude_def handle_create_def create_absent_def handle_destroy_def Let_def
  read_complete_def read_resource_def rdb_op_def rdb_get_def set_input_def set_output_def set_dependencies_def set_markers_def
  set_source_trace_def get_after_write_def persist_resource_state_def attempt_def call_plugin_def settle_def
  cql_read_def cql_write_def exec_def lift_op_def map_err_def seq_def of_result_def done_with_def fail_with_def encoded_def
  map_resource_row_def decode_record_def decode_dependencies_def decode_markers_def decode_source_trace_def
  decode_column_def check_json_size_def MAX_JSON_SIZE_def rte_check_json_size_def output_too_large_def
  MAX_INPUT_SIZE_BYTES_def MAX_OUTPUT_SIZE_BYTES_def dependencies_from_refs_def log_event_def modify_state_def

lemma example_plugin:
  "resolve_plugin (rid_typ (ref_id (example_ref n))) (rte_plugins (example_rte_env net)) =
    Some (([''Std''], [''Random'']), \<lambda>calls call. Inr \<lparr>sr_inputs = ''in'', sr_outputs = ''out'', sr_dependencies = [], sr_markers = {}\<rparr>)"
  by (simp add: resolve_plugin_def plugin_name_for_resource_type_def parse_module_id_def example_ref_def example_rid_def
      example_rte_env_def starts_with_def)

lemma half_created_row:
  "\<exists>row. row_at (ref_ns (example_ref ''seed'')) (ref_key (example_ref ''seed'')) half_created = Some row \<and> rr_outputs_json row = None"
  using example_plugin [of "''seed''" "\<lambda>n. if n = 3 then ExecLost else ExecOk"]
  by (simp add: half_created_def row_at_def example_create_def rte_run_simps example_rte_def empty_rdb_def
      example_rte_env_def example_codec_def empty_resource_row_def)

theorem half_created_resource_is_stuck_witness:
  "\<exists>row. rr_outputs_json row = None \<and>
    row_at (ref_ns (example_ref ''seed'')) (ref_key (example_ref ''seed''))
      (rte_worker_loop [(example_rte_env up, Inr (Some example_create)), (example_rte_env up, Inr (Some example_destroy))] half_created) =
      Some row"
  using half_created_row half_created_resource_is_stuck [of "ref_ns (example_ref ''seed'')" "ref_key (example_ref ''seed'')" half_created]
  by blast

section \<open>Messages that are dropped\<close>

text \<open>The deployment that must own the resource for the message to be carried out.\<close>

fun claimed_owner :: "'v Message \<Rightarrow> string option" where
  "claimed_owner (Create msg) = None"
| "claimed_owner (Destroy msg) = Some (rte_deployment_qid (ref_env (dm_resource msg)) (dm_deployment_id msg))"
| "claimed_owner (Adopt msg) = Some (rte_deployment_qid (ref_env (am_resource msg)) (am_from_deployment_id msg))"
| "claimed_owner (Restore msg) = Some (rte_deployment_qid (ref_env (rm_resource msg)) (rm_deployment_id msg))"
| "claimed_owner (Check msg) = Some (rte_deployment_qid (ref_env (km_resource msg)) (km_deployment_id msg))"

definition stale :: "'v Message \<Rightarrow> 'r Resource option \<Rightarrow> bool" where
  "stale msg current \<longleftrightarrow>
    (case claimed_owner msg of
       None \<Rightarrow> current \<noteq> None
     | Some owner \<Rightarrow> (case current of None \<Rightarrow> True | Some cur \<Rightarrow> res_owner cur \<noteq> Some owner))"

definition stored :: "('r, 'v) RteEnv \<Rightarrow> ResourceRef \<Rightarrow> ('r, 'v) RteState \<Rightarrow> 'r Resource option" where
  "stored env r st = rdb_abs (rte_js env) (rte_region env) (ref_ns r) (tables (rte_rdb st)) (ref_key r)"

definition rte_ready :: "('r, 'v) RteEnv \<Rightarrow> ResourceRef \<Rightarrow> ('r, 'v) RteState \<Rightarrow> bool" where
  "rte_ready env r st \<longleftrightarrow> rte_rdb_net env = up \<and>
    rdb_readable (rte_js env) (rte_region env) (ref_ns r) (tables (rte_rdb st))"

abbreviation after_read :: "('r, 'v) RteState \<Rightarrow> ('r, 'v) RteState" where
  "after_read st \<equiv> st\<lparr>rte_rdb := \<lparr>executed = Suc (executed (rte_rdb st)), tables = tables (rte_rdb st)\<rparr>\<rparr>"

lemma read_resource_up:
  assumes "rte_ready env r st"
  shows "read_resource env r state st = (Inr (stored env r st), after_read st)"
proof (cases "resource_row (tables (rte_rdb st)) (ref_ns r) (ref_key r)")
  case (Some row)
  with assms obtain cur where "map_resource_row (rte_js env) (ref_ns r) (rte_region env) (ref_key r) row = Inr cur"
    unfolding rte_ready_def rdb_readable_def by blast
  with Some assms show ?thesis
    by (simp add: read_resource_def rdb_op_def rdb_get_def rte_ready_def stored_def rdb_abs_def lift_op_def map_err_def
        of_result_def done_with_def)
qed (use assms in \<open>simp add: read_resource_def rdb_op_def rdb_get_def rte_ready_def stored_def rdb_abs_def lift_op_def map_err_def
      done_with_def\<close>)

lemma seq_read_resource_up: "rte_ready env r st \<Longrightarrow> seq (read_resource env r state) k st = k (stored env r st) (after_read st)"
  by (simp add: seq_def read_resource_up)

lemma read_complete_up:
  assumes "rte_ready env r st"
  shows "stored env r st = None \<Longrightarrow> read_complete env r owner what st = (Inl Drop, after_read st)"
    and "stored env r st = Some cur \<Longrightarrow> res_owner cur \<noteq> Some owner \<Longrightarrow> read_complete env r owner what st = (Inl Drop, after_read st)"
    and "stored env r st = Some cur \<Longrightarrow> res_owner cur = Some owner \<Longrightarrow> res_inputs cur = Some i \<Longrightarrow> res_outputs cur = Some out \<Longrightarrow>
      read_complete env r owner what st = (Inr (cur, i, out), after_read st)"
    and "stored env r st = Some cur \<Longrightarrow> res_owner cur = Some owner \<Longrightarrow> fst (read_complete env r owner what st) \<noteq> Inl Drop"
  using assms by (auto simp: read_complete_def seq_read_resource_up fail_with_def done_with_def split: option.splits)

definition no_drop :: "(('r, 'v) RteState, Exit, 'a) op \<Rightarrow> bool" where
  "no_drop m \<longleftrightarrow> (\<forall>st. fst (m st) \<noteq> Inl Drop)"

lemma no_drop_seq: "no_drop m \<Longrightarrow> (\<And>x. no_drop (k x)) \<Longrightarrow> no_drop (seq m k)"
  unfolding no_drop_def seq_def by (auto split: prod.splits sum.splits) (metis fst_conv)+

lemma no_drop_base:
  "no_drop (done_with x)" "no_drop (log_event env r msg)" "e \<noteq> Drop \<Longrightarrow> no_drop (fail_with e)"
  "(\<And>e. f e \<noteq> Drop) \<Longrightarrow> no_drop (map_err f m)" "(\<And>e. f e \<noteq> Drop) \<Longrightarrow> no_drop (attempt env r prefix f m')"
  by (auto simp: no_drop_def done_with_def log_event_def modify_state_def fail_with_def map_err_def attempt_def
      split: prod.splits sum.splits)

lemma no_drop_split:
  "no_drop m \<Longrightarrow> no_drop m' \<Longrightarrow> no_drop (if b then m else m')"
  "no_drop m \<Longrightarrow> (\<And>y. no_drop (k y)) \<Longrightarrow> no_drop (case x of None \<Rightarrow> m | Some y \<Rightarrow> k y)"
  "(\<And>a b. no_drop (h a b)) \<Longrightarrow> no_drop (case p of (a, b) \<Rightarrow> h a b)"
  by (auto split: option.splits prod.splits)

lemmas no_drop_intros = no_drop_seq no_drop_base no_drop_split

lemma seq_no_drop: "fst (m st) \<noteq> Inl Drop \<Longrightarrow> (\<And>x. no_drop (k x)) \<Longrightarrow> fst (seq m k st) \<noteq> Inl Drop"
  unfolding no_drop_def seq_def by (auto split: prod.splits sum.splits)

lemma update_inputs_no_drop:
  assumes "fst (read_complete env r owner ''operation'' st) \<noteq> Inl Drop"
  shows "fst (handle_update_inputs env operation r owner target desired deps trace st) \<noteq> Inl Drop"
  unfolding handle_update_inputs_def update_if_changed_def Let_def
  by (rule seq_no_drop, rule assms) (intro no_drop_intros; simp add: no_plugin_def)

lemma seq_Drop: "m st = (Inl Drop, st') \<Longrightarrow> seq m k st = (Inl Drop, st')"
  by (simp add: seq_def)

lemma read_complete_stale:
  assumes "rte_ready env r st"
  shows "if (case stored env r st of None \<Rightarrow> True | Some cur \<Rightarrow> res_owner cur \<noteq> Some owner)
    then read_complete env r owner what st = (Inl Drop, after_read st)
    else fst (read_complete env r owner what st) \<noteq> Inl Drop"
  using read_complete_up [OF assms] by (cases "stored env r st") auto

lemma update_inputs_stale:
  assumes "rte_ready env r st"
  shows "if (case stored env r st of None \<Rightarrow> True | Some cur \<Rightarrow> res_owner cur \<noteq> Some owner)
    then handle_update_inputs env operation r owner target desired deps trace st = (Inl Drop, after_read st)
    else fst (handle_update_inputs env operation r owner target desired deps trace st) \<noteq> Inl Drop"
  using read_complete_stale [OF assms, of owner "''operation''"] update_inputs_no_drop [of env r owner st]
  by (auto simp: handle_update_inputs_def seq_Drop)

lemma seq_stale:
  assumes "if b then m st = (Inl Drop, st') else fst (m st) \<noteq> Inl Drop" "\<And>x. no_drop (k x)"
  shows "if b then seq m k st = (Inl Drop, st') else fst (seq m k st) \<noteq> Inl Drop"
  using assms seq_no_drop [of m st k] by (simp add: seq_Drop)

text \<open>
  C29. A message is dropped exactly if it is stale: a creation of a resource that exists, or any other
  message about a resource that is gone or belongs to another deployment. A stale message calls no
  plugin, changes no resource and reports nothing.
\<close>

theorem stale_messages_are_dropped:
  assumes "rte_ready env (message_resource msg) st"
  shows "if stale msg (stored env (message_resource msg) st) then handle_message env msg st = (Inl Drop, after_read st)
    else fst (handle_message env msg st) \<noteq> Inl Drop"
proof (cases msg)
  case (Create c)
  have "no_drop (create_absent env c)"
    unfolding create_absent_def Let_def by (intro no_drop_intros; simp add: no_plugin_def)
  with Create assms show ?thesis
    by (simp add: stale_def handle_create_def seq_read_resource_up fail_with_def no_drop_def)
next
  case (Destroy c)
  with assms show ?thesis
    unfolding stale_def by (simp only: handle_message.simps handle_destroy_def Let_def message_resource.simps claimed_owner.simps option.case)
      (rule seq_stale [OF read_complete_stale], assumption, intro no_drop_intros; simp add: no_plugin_def)
next
  case (Check c)
  with assms show ?thesis
    unfolding stale_def by (simp only: handle_message.simps handle_check_def Let_def message_resource.simps claimed_owner.simps option.case)
      (rule seq_stale [OF read_complete_stale], assumption, intro no_drop_intros; simp add: no_plugin_def)
next
  case (Adopt c)
  with assms show ?thesis
    unfolding stale_def by (simp only: handle_message.simps handle_adopt_def Let_def message_resource.simps claimed_owner.simps option.case)
      (rule seq_stale [OF update_inputs_stale], assumption, intro no_drop_intros)
next
  case (Restore c)
  with assms show ?thesis
    unfolding stale_def by (simp only: handle_message.simps handle_restore_def Let_def message_resource.simps claimed_owner.simps option.case)
      (rule seq_stale [OF update_inputs_stale], assumption, intro no_drop_intros)
qed

theorem stale_messages_are_dropped_witness:
  "handle_message (example_rte_env up) example_destroy example_rte = (Inl Drop, after_read example_rte)"
proof -
  have "rte_ready (example_rte_env up) (message_resource example_destroy) example_rte"
    by (simp add: rte_ready_def example_rte_env_def example_rte_def rdb_readable_def empty_rdb_def)
  moreover have "stale example_destroy (stored (example_rte_env up) (message_resource example_destroy) example_rte)"
    by (simp add: stale_def example_destroy_def stored_def rdb_abs_def example_rte_def empty_rdb_def)
  ultimately show ?thesis using stale_messages_are_dropped by metis
qed

section \<open>What a transition stores\<close>

definition updates ::
  "'r codec \<Rightarrow> RegionId \<Rightarrow> string \<Rightarrow> string \<times> string \<Rightarrow> ('r Resource \<Rightarrow> 'r Resource)
    \<Rightarrow> (RdbTables Db, ResourceError, unit) op \<Rightarrow> RdbTables Db \<Rightarrow> bool" where
  "updates js region ns key g m d \<longleftrightarrow>
    fst (m d) = Inr () \<and>
    rdb_abs js region ns (tables (snd (m d))) = (rdb_abs js region ns (tables d))(key \<mapsto> g (known js region ns (tables d) key)) \<and>
    rdb_readable js region ns (tables (snd (m d)))"

lemma sets_known: "sets js region ns key g m d \<Longrightarrow> known js region ns (tables (snd (m d))) key = g (known js region ns (tables d) key)"
  by (simp add: sets_def known_def [of _ _ _ "tables (snd (m d))"])

lemma sets_readable: "sets js region ns key g m d \<Longrightarrow> rdb_readable js region ns (tables (snd (m d)))"
  by (simp add: sets_def)

lemma updates_done: "sets js region ns key g m d \<Longrightarrow> updates js region ns key g (seq m (\<lambda>_. done_with ())) d"
  by (auto simp: updates_def sets_def seq_def done_with_def split: prod.splits sum.splits)

lemma updates_seq:
  assumes "sets js region ns key g m d" "updates js region ns key h k (snd (m d))"
  shows "updates js region ns key (\<lambda>r. h (g r)) (seq m (\<lambda>_. k)) d"
proof -
  obtain x d' where m: "m d = (Inr x, d')" using assms(1) by (cases "m d") (simp add: sets_def)
  with assms sets_known [OF assms(1)] show ?thesis by (simp add: updates_def sets_def seq_def)
qed

text \<open>The resource after a transition has stored what it has to store.\<close>

definition persisted ::
  "'r \<Rightarrow> string \<Rightarrow> 'r \<Rightarrow> Marker set option \<Rightarrow> ResourceId list \<Rightarrow> SourceTrace \<Rightarrow> 'r Resource \<Rightarrow> 'r Resource" where
  "persisted inputs owner outputs markers deps trace r =
    r\<lparr>res_inputs := Some inputs, res_owner := Some owner, res_dependencies := deps, res_outputs := Some outputs,
      res_markers := (case markers of None \<Rightarrow> res_markers r | Some ms \<Rightarrow> ms), res_source_trace := trace\<rparr>"

definition storable ::
  "'r codec \<Rightarrow> 'r \<Rightarrow> 'r \<Rightarrow> Marker set option \<Rightarrow> ResourceId list \<Rightarrow> SourceTrace \<Rightarrow> bool" where
  "storable js inputs outputs markers deps trace \<longleftrightarrow> json_ok js \<and> column_fits (enc_record js inputs) \<and>
    column_fits (enc_record js outputs) \<and> column_fits (enc_deps js deps) \<and>
    (case markers of None \<Rightarrow> True | Some ms \<Rightarrow> column_fits (enc_markers js ms)) \<and> column_fits (enc_trace js trace)"

lemma persist_markers_updates:
  assumes "storable js inputs outputs markers deps trace" "rdb_readable js region ns (tables d)"
  shows "updates js region ns key (\<lambda>r. r\<lparr>res_markers := (case markers of None \<Rightarrow> res_markers r | Some ms \<Rightarrow> ms), res_source_trace := trace\<rparr>)
    (seq (case markers of None \<Rightarrow> done_with () | Some ms \<Rightarrow> seq (set_markers js up region ns key ms) (\<lambda>_. done_with ()))
      (\<lambda>_. seq (set_source_trace js up region ns key trace) (\<lambda>_. done_with ()))) d"
proof -
  have last: "updates js region ns key (\<lambda>r. r\<lparr>res_source_trace := trace\<rparr>)
      (seq (set_source_trace js up region ns key trace) (\<lambda>_. done_with ())) d'" if "rdb_readable js region ns (tables d')" for d'
    using assms(1) that by (auto simp: storable_def intro: updates_done set_source_trace_sets)
  show ?thesis
  proof (cases markers)
    case None
    with last [OF assms(2)] show ?thesis by simp
  next
    case (Some ms)
    then have sets: "sets js region ns key (\<lambda>r. r\<lparr>res_markers := ms\<rparr>) (set_markers js up region ns key ms) d"
      using assms by (simp add: storable_def set_markers_sets)
    with Some updates_seq [OF sets last [OF sets_readable [OF sets]]] show ?thesis by (simp add: seq_assoc)
  qed
qed

lemma persist_updates:
  assumes "storable (rte_js env) inputs outputs markers deps trace" "rte_rdb_net env = up"
    and "rdb_readable (rte_js env) (rte_region env) (ref_ns r) (tables d)"
  shows "updates (rte_js env) (rte_region env) (ref_ns r) (ref_key r) (persisted inputs owner outputs markers deps trace)
    (persist_resource_state env r inputs owner outputs markers deps trace) d"
proof -
  let ?js = "rte_js env" and ?g = "rte_region env" and ?ns = "ref_ns r" and ?key = "ref_key r"
  note fits = assms(1) [unfolded storable_def]
  let ?d1 = "snd (set_input ?js up ?g ?ns ?key inputs owner d)"
  have s1: "sets ?js ?g ?ns ?key (\<lambda>r. r\<lparr>res_inputs := Some inputs, res_owner := Some owner\<rparr>) (set_input ?js up ?g ?ns ?key inputs owner) d"
    using fits assms(3) by (blast intro: set_input_sets)
  let ?d2 = "snd (set_dependencies ?js up ?g ?ns ?key deps ?d1)"
  have s2: "sets ?js ?g ?ns ?key (\<lambda>r. r\<lparr>res_dependencies := deps\<rparr>) (set_dependencies ?js up ?g ?ns ?key deps) ?d1"
    using fits sets_readable [OF s1] by (blast intro: set_dependencies_sets)
  have s3: "sets ?js ?g ?ns ?key (\<lambda>r. r\<lparr>res_outputs := Some outputs\<rparr>) (set_output ?js up ?g ?ns ?key outputs) ?d2"
    using fits sets_readable [OF s2] by (blast intro: set_output_sets)
  show ?thesis
    using updates_seq [OF s1 updates_seq [OF s2 updates_seq [OF s3 persist_markers_updates [OF assms(1) sets_readable [OF s3]]]]] assms(2)
    by (simp add: persist_resource_state_def persisted_def [abs_def] Let_def cong: option.case_cong)
qed

lemma rdb_op_updates:
  assumes "updates js region ns key g m (rte_rdb st)"
  obtains st' where "rdb_op env m st = (Inr (), st')"
    "rdb_abs js region ns (tables (rte_rdb st')) = (rdb_abs js region ns (tables (rte_rdb st)))(key \<mapsto> g (known js region ns (tables (rte_rdb st)) key))"
    "rte_calls st' = rte_calls st" "rte_rq st' = rte_rq st" "rdb_readable js region ns (tables (rte_rdb st'))"
proof -
  obtain d where d: "m (rte_rdb st) = (Inr (), d)" using assms by (cases "m (rte_rdb st)") (auto simp: updates_def)
  show ?thesis
    by (rule that [of "st\<lparr>rte_rdb := d\<rparr>"]) (use assms d in \<open>simp_all add: rdb_op_def lift_op_def map_err_def updates_def\<close>)
qed

lemma after_read_stored [simp]: "stored env r (after_read st) = stored env r st"
  by (simp add: stored_def)

lemma known_stored: "stored env r st = Some cur \<Longrightarrow> known (rte_js env) (rte_region env) (ref_ns r) (tables (rte_rdb st)) (ref_key r) = cur"
  by (simp add: stored_def known_def)

lemma known_blank:
  "stored env r st = None \<Longrightarrow>
    known (rte_js env) (rte_region env) (ref_ns r) (tables (rte_rdb st)) (ref_key r) = blank_resource (rte_region env) (ref_ns r) (ref_key r)"
  by (simp add: stored_def known_def)

abbreviation rdb_map :: "('r, 'v) RteEnv \<Rightarrow> ResourceRef \<Rightarrow> ('r, 'v) RteState \<Rightarrow> string \<times> string \<rightharpoonup> 'r Resource" where
  "rdb_map env r st \<equiv> rdb_abs (rte_js env) (rte_region env) (ref_ns r) (tables (rte_rdb st))"

lemma persist_op_up:
  assumes "storable (rte_js env) inputs outputs markers deps trace" "rte_ready env r st"
  obtains st' where "rdb_op env (persist_resource_state env r inputs owner outputs markers deps trace) st = (Inr (), st')"
    "rdb_map env r st' = (rdb_map env r st)(ref_key r \<mapsto> persisted inputs owner outputs markers deps trace
      (known (rte_js env) (rte_region env) (ref_ns r) (tables (rte_rdb st)) (ref_key r)))"
    "rte_calls st' = rte_calls st" "rte_rq st' = rte_rq st" "rte_ready env r st'"
proof -
  from assms(2) have up: "rte_rdb_net env = up" and "rdb_readable (rte_js env) (rte_region env) (ref_ns r) (tables (rte_rdb st))"
    by (simp_all add: rte_ready_def)
  from rdb_op_updates [OF persist_updates [OF assms(1) this]] show ?thesis using that up unfolding rte_ready_def by blast
qed

lemma rte_ready_frame [simp]:
  "rte_ready env r (after_read st) = rte_ready env r st"
  "rte_ready env r (log_resource_event env' r' sev msg st) = rte_ready env r st"
  "rte_ready env r (st\<lparr>rte_calls := cs\<rparr>) = rte_ready env r st"
  by (simp_all add: rte_ready_def)

lemma call_plugin_Inr: "snd plugin (rte_calls st) call = Inr res \<Longrightarrow>
    call_plugin plugin call st = (Inr res, st\<lparr>rte_calls := rte_calls st @ [(fst plugin, call)]\<rparr>)"
  by (simp add: call_plugin_def)

lemma seq_attempt: "seq (attempt env r prefix f m) k st =
    (case m st of (Inl e, st') \<Rightarrow> (Inl (f e), log_resource_event env r SevError (prefix @ e) st') | (Inr x, st') \<Rightarrow> k x st')"
  by (simp add: seq_def attempt_def split: prod.splits sum.splits)

lemma map_err_done: "map_err f (done_with x) = done_with x"
  by (simp add: map_err_def done_with_def fun_eq_iff)


text \<open>What an update of the inputs stores, if it goes through: nothing new if the inputs are the same.\<close>

definition update_answer ::
  "('r, 'v) RteEnv \<Rightarrow> ResourceRef \<Rightarrow> DeploymentId \<Rightarrow> (ModuleId \<times> 'r PluginCall) list \<Rightarrow> 'r \<Rightarrow> 'r \<Rightarrow> 'r
    \<Rightarrow> ('r \<times> 'r \<times> Marker set option \<times> (ModuleId \<times> 'r PluginCall) list) option" where
  "update_answer env r target cs inputs outputs desired =
    (if inputs = desired then Some (inputs, outputs, None, [])
     else case resolve_plugin (rid_typ (ref_id r)) (rte_plugins env) of
       None \<Rightarrow> None
     | Some plugin \<Rightarrow>
         (let call = CallUpdate (rte_deployment_qid (ref_env r) target) (ref_id r) inputs outputs desired in
          case snd plugin cs call of
            Inl _ \<Rightarrow> None
          | Inr res \<Rightarrow> if output_too_large env (sr_outputs res) then None
              else Some (sr_inputs res, sr_outputs res, Some (sr_markers res), [(fst plugin, call)])))"

lemma update_if_changed_answer:
  assumes "update_answer env r target (rte_calls st) inputs outputs desired = Some (inputs', outputs', markers, called)" "rte_ready env r st"
  obtains st' where "update_if_changed env operation r target cur inputs outputs desired st =
      (Inr (inputs', outputs', markers, Volatile \<in> (case markers of None \<Rightarrow> res_markers cur | Some ms \<Rightarrow> ms)), st')"
    "rte_rdb st' = rte_rdb st" "rte_calls st' = rte_calls st @ called" "rte_ready env r st'"
proof (cases "inputs = desired")
  case True
  with assms show ?thesis
    by (intro that [of st]) (auto simp: update_answer_def update_if_changed_def done_with_def is_volatile_markers_def)
next
  case False
  define call where "call = CallUpdate (rte_deployment_qid (ref_env r) target) (ref_id r) inputs outputs desired"
  from False assms(1) obtain plugin res where p: "resolve_plugin (rid_typ (ref_id r)) (rte_plugins env) = Some plugin"
    "snd plugin (rte_calls st) call = Inr res" "\<not> output_too_large env (sr_outputs res)"
    "inputs' = sr_inputs res" "outputs' = sr_outputs res" "markers = Some (sr_markers res)" "called = [(fst plugin, call)]"
    by (auto simp: update_answer_def call_def Let_def split: option.splits sum.splits if_splits)
  let ?st1 = "log_resource_event env r SevInfo (DeploymentId_short target @ '': '' @ operation_verb operation) st"
  have "call_plugin plugin call ?st1 = (Inr res, ?st1\<lparr>rte_calls := rte_calls st @ called\<rparr>)"
    using p(2,7) call_plugin_Inr [of plugin ?st1 call res] by simp
  with False p assms(2) show ?thesis
    by (intro that [of "?st1\<lparr>rte_calls := rte_calls st @ called\<rparr>"])
      (simp_all add: update_if_changed_def seq_attempt call_def Let_def done_with_def is_volatile_markers_def)
qed


section \<open>What success means\<close>

text \<open>The deployment that owns the resource after the message has been carried out, if the resource remains.\<close>

fun final_owner :: "'v Message \<Rightarrow> string option" where
  "final_owner (Create msg) = Some (rte_deployment_qid (ref_env (cm_resource msg)) (cm_deployment_id msg))"
| "final_owner (Destroy msg) = None"
| "final_owner (Adopt msg) = Some (rte_deployment_qid (ref_env (am_resource msg)) (am_to_deployment_id msg))"
| "final_owner (Restore msg) = Some (rte_deployment_qid (ref_env (rm_resource msg)) (rm_deployment_id msg))"
| "final_owner (Check msg) = Some (rte_deployment_qid (ref_env (km_resource msg)) (km_deployment_id msg))"

lemma rdb_get_Inr:
  assumes "rdb_get js net region ns key d = (Inr x, d')"
  shows "tables d' = tables d \<and> rdb_abs js region ns (tables d) key = x"
  using assms
  by (auto simp: rdb_get_def seq_def cql_read_def exec_def Let_def of_result_def done_with_def fail_with_def rdb_abs_def
      split: Exec.splits option.splits sum.splits)

lemma setter_Inr:
  assumes "seq (of_result x) (\<lambda>json. seq (cql_write net e (update_resource ns key (f json))) (\<lambda>_. get_after_write js net region ns key)) d
      = (Inr res, d')"
  obtains json where "tables d' = update_resource ns key (f json) (tables d)" "rdb_abs js region ns (tables d') key = Some res"
proof -
  from assms obtain json d1 where w: "cql_write net e (update_resource ns key (f json)) d = (Inr (), d1)"
    "get_after_write js net region ns key d1 = (Inr res, d')"
    by (auto simp: seq_Inr of_result_def done_with_def fail_with_def split: sum.splits)
  then have "tables d1 = update_resource ns key (f json) (tables d)"
    using cql_write_ok [of net e "update_resource ns key (f json)" d "()"] by simp
  moreover obtain found where "rdb_get js net region ns key d1 = (Inr found, d')" "found = Some res"
    using w(2) by (auto simp: get_after_write_def seq_Inr fail_with_def done_with_def split: option.splits)
  then have "tables d' = tables d1 \<and> rdb_abs js region ns (tables d1) key = Some res" using rdb_get_Inr by blast
  ultimately show ?thesis using that by simp
qed

lemmas setter_defs = set_input_def set_output_def set_dependencies_def set_markers_def set_source_trace_def

definition row_owner :: "RdbTables \<Rightarrow> string \<Rightarrow> string \<times> string \<Rightarrow> string option" where
  "row_owner t ns key = (case resource_row t ns key of None \<Rightarrow> None | Some row \<Rightarrow> rr_owner row)"

lemma rdb_abs_owner: "rdb_abs js region ns t key = Some cur \<Longrightarrow> res_owner cur = row_owner t ns key"
  by (auto simp: rdb_abs_def row_owner_def map_resource_row_def split: option.splits sum.splits)

lemma row_owner_update:
  "(\<And>row. rr_owner (f row) = rr_owner row) \<Longrightarrow> row_owner (update_resource ns key f t) ns key = row_owner t ns key"
  by (simp add: row_owner_def empty_resource_row_def split: option.splits)

lemma set_input_owner: "set_input js net region ns key x owner d = (Inr res, d') \<Longrightarrow> row_owner (tables d') ns key = Some owner"
  unfolding set_input_def by (erule setter_Inr) (simp add: row_owner_def)

lemma setters_keep_owner:
  "set_output js net region ns key x d = (Inr res, d') \<Longrightarrow> row_owner (tables d') ns key = row_owner (tables d) ns key"
  "set_dependencies js net region ns key deps d = (Inr res, d') \<Longrightarrow> row_owner (tables d') ns key = row_owner (tables d) ns key"
  "set_markers js net region ns key ms d = (Inr res, d') \<Longrightarrow> row_owner (tables d') ns key = row_owner (tables d) ns key"
  "set_source_trace js net region ns key tr d = (Inr res, d') \<Longrightarrow> row_owner (tables d') ns key = row_owner (tables d) ns key"
  unfolding setter_defs by (erule setter_Inr, simp add: row_owner_update)+

lemma persist_Inr:
  assumes "persist_resource_state env r inputs owner outputs markers deps trace d = (Inr (), d')"
  shows "\<exists>cur. rdb_abs (rte_js env) (rte_region env) (ref_ns r) (tables d') (ref_key r) = Some cur \<and> res_owner cur = Some owner"
proof -
  from assms obtain x1 d1 x2 d2 x3 d3 d4 x5 where
    s: "set_input (rte_js env) (rte_rdb_net env) (rte_region env) (ref_ns r) (ref_key r) inputs owner d = (Inr x1, d1)"
    "set_dependencies (rte_js env) (rte_rdb_net env) (rte_region env) (ref_ns r) (ref_key r) deps d1 = (Inr x2, d2)"
    "set_output (rte_js env) (rte_rdb_net env) (rte_region env) (ref_ns r) (ref_key r) outputs d2 = (Inr x3, d3)"
    "(case markers of None \<Rightarrow> done_with () | Some ms \<Rightarrow>
      seq (set_markers (rte_js env) (rte_rdb_net env) (rte_region env) (ref_ns r) (ref_key r) ms) (\<lambda>_. done_with ())) d3 = (Inr (), d4)"
    "set_source_trace (rte_js env) (rte_rdb_net env) (rte_region env) (ref_ns r) (ref_key r) trace d4 = (Inr x5, d')"
    by (auto simp: persist_resource_state_def Let_def seq_Inr done_with_def)
  have "row_owner (tables d4) (ref_ns r) (ref_key r) = row_owner (tables d3) (ref_ns r) (ref_key r)"
    using s(4) by (cases markers) (auto simp: done_with_def seq_Inr dest: setters_keep_owner(3))
  then have "row_owner (tables d') (ref_ns r) (ref_key r) = Some owner"
    using set_input_owner [OF s(1)] setters_keep_owner(2) [OF s(2)] setters_keep_owner(1) [OF s(3)] setters_keep_owner(4) [OF s(5)]
    by simp
  moreover have "rdb_abs (rte_js env) (rte_region env) (ref_ns r) (tables d') (ref_key r) = Some x5"
    using s(5) unfolding set_source_trace_def by (rule setter_Inr)
  ultimately show ?thesis using rdb_abs_owner by metis
qed

lemma attempt_Inr_iff: "attempt env r prefix f m st = (Inr x, st') \<longleftrightarrow> m st = (Inr x, st')"
  by (auto simp: attempt_def split: prod.splits sum.splits)

lemma rdb_op_Inr_iff: "rdb_op env m st = (Inr x, st') \<longleftrightarrow> (\<exists>d. m (rte_rdb st) = (Inr x, d) \<and> st' = st\<lparr>rte_rdb := d\<rparr>)"
  by (auto simp: rdb_op_def map_err_Inr lift_op_def split: prod.splits)

lemma log_event_Inr: "log_event env r msg st = (Inr u, st') \<longleftrightarrow> st' = log_resource_event env r SevInfo msg st"
  by (auto simp: log_event_def modify_state_def)

definition owned :: "('r, 'v) RteEnv \<Rightarrow> ResourceRef \<Rightarrow> string option \<Rightarrow> ('r, 'v) RteState \<Rightarrow> bool" where
  "owned env r owner st \<longleftrightarrow>
    (case owner of None \<Rightarrow> stored env r st = None | Some q \<Rightarrow> \<exists>cur. stored env r st = Some cur \<and> res_owner cur = Some q)"

lemma stored_log [simp]: "stored env r (log_resource_event env' r' sev msg st) = stored env r st"
  by (simp add: stored_def)

lemma owned_log [simp]: "owned env r owner (log_resource_event env' r' sev msg st) = owned env r owner st"
  by (cases owner) (simp_all add: owned_def)

lemma persist_owned:
  "rdb_op env (persist_resource_state env r inputs owner outputs markers deps trace) st = (Inr u, st') \<Longrightarrow> owned env r (Some owner) st'"
  by (auto simp: rdb_op_Inr_iff owned_def stored_def dest!: persist_Inr)

lemma update_inputs_owned:
  assumes "handle_update_inputs env operation r owner target desired deps trace st = (Inr v, st')"
  shows "owned env r (Some (rte_deployment_qid (ref_env r) target)) st'"
  using assms
  by (auto simp: handle_update_inputs_def seq_Inr Let_def fail_with_def done_with_def attempt_Inr_iff split: if_splits
      dest!: persist_owned)

lemma read_resource_Inr:
  assumes "read_resource env r state st = (Inr current, st')"
  shows "stored env r st = current \<and> tables (rte_rdb st') = tables (rte_rdb st)"
  using assms by (auto simp: read_resource_def map_err_Inr rdb_op_Inr_iff stored_def dest!: rdb_get_Inr)

lemma read_complete_owner:
  assumes "read_complete env r owner what st = (Inr x, st')"
  shows "row_owner (tables (rte_rdb st')) (ref_ns r) (ref_key r) = Some owner"
proof -
  obtain current st1 where read: "read_resource env r OpLive st = (Inr current, st1)"
    using assms unfolding read_complete_def seq_Inr by blast
  with assms obtain cur where cur: "current = Some cur" "res_owner cur = Some owner" "st' = st1"
    by (cases current) (auto simp: read_complete_def seq_def fail_with_def done_with_def split: option.splits if_splits)
  with read_resource_Inr [OF read] have "rdb_abs (rte_js env) (rte_region env) (ref_ns r) (tables (rte_rdb st')) (ref_key r) = Some cur"
    by (simp add: stored_def)
  then show ?thesis using rdb_abs_owner cur(2) by fastforce
qed

lemma call_plugin_rdb: "call_plugin plugin call st = (res, st') \<Longrightarrow> rte_rdb st' = rte_rdb st"
  by (auto simp: call_plugin_def)

lemma check_owned:
  assumes "handle_check env k st = (Inr x, st')"
  shows "owned env (km_resource k) (Some (rte_deployment_qid (ref_env (km_resource k)) (km_deployment_id k))) st'"
proof -
  let ?r = "km_resource k" and ?q = "rte_deployment_qid (ref_env (km_resource k)) (km_deployment_id k)"
  from assms obtain cur i out st1 plugin call res st2 new d where
    c: "read_complete env ?r ?q ''check'' st = (Inr (cur, i, out), st1)" "call_plugin plugin call st1 = (Inr res, st2)"
    "set_output (rte_js env) (rte_rdb_net env) (rte_region env) (ref_ns ?r) (ref_key ?r) (sr_outputs res) (rte_rdb st2) = (Inr new, d)"
    "st' = st2\<lparr>rte_rdb := d\<rparr>"
    by (auto simp: handle_check_def seq_Inr Let_def fail_with_def done_with_def attempt_Inr_iff rdb_op_Inr_iff split: option.splits if_splits)
  have "row_owner (tables d) (ref_ns ?r) (ref_key ?r) = Some ?q"
    using read_complete_owner [OF c(1)] call_plugin_rdb [OF c(2)] setters_keep_owner(1) [OF c(3)] by simp
  moreover have new: "rdb_abs (rte_js env) (rte_region env) (ref_ns ?r) (tables d) (ref_key ?r) = Some new"
    using c(3) unfolding set_output_def by (rule setter_Inr)
  ultimately have "res_owner new = Some ?q" using rdb_abs_owner [OF new] by simp
  with new c(4) show ?thesis by (simp add: owned_def stored_def)
qed

lemma delete_gone: "rdb_delete net ns key d = (Inr u, d') \<Longrightarrow> resource_row (tables d') ns key = None"
  unfolding rdb_delete_def by (auto simp: cql_write_def exec_def Let_def split: Exec.splits)

lemma destroy_owned:
  assumes "handle_destroy env m st = (Inr x, st')"
  shows "owned env (dm_resource m) None st'"
  using assms
  by (auto simp: handle_destroy_def seq_Inr Let_def fail_with_def done_with_def attempt_Inr_iff rdb_op_Inr_iff log_event_Inr
      owned_def stored_def rdb_abs_def split: option.splits dest!: delete_gone)

lemma create_owned:
  assumes "handle_create env c st = (Inr x, st')"
  shows "owned env (cm_resource c) (Some (rte_deployment_qid (ref_env (cm_resource c)) (cm_deployment_id c))) st'"
proof -
  from assms obtain st1 where "create_absent env c st1 = (Inr x, st')"
    by (auto simp: handle_create_def seq_Inr fail_with_def split: if_splits)
  then show ?thesis
    by (auto simp: create_absent_def seq_Inr Let_def fail_with_def done_with_def attempt_Inr_iff log_event_Inr
        split: option.splits if_splits dest!: persist_owned)
qed

lemma adopt_restore_owned:
  "handle_adopt env a st = (Inr x, st') \<Longrightarrow>
    owned env (am_resource a) (Some (rte_deployment_qid (ref_env (am_resource a)) (am_to_deployment_id a))) st'"
  "handle_restore env b st = (Inr x, st') \<Longrightarrow>
    owned env (rm_resource b) (Some (rte_deployment_qid (ref_env (rm_resource b)) (rm_deployment_id b))) st'"
  by (auto simp: handle_adopt_def handle_restore_def seq_Inr Let_def done_with_def log_event_Inr dest!: update_inputs_owned)

lemma owned_stale:
  assumes "owned env (message_resource msg) (final_owner msg) st" "claimed_owner msg \<noteq> final_owner msg"
  shows "stale msg (stored env (message_resource msg) st)"
  using assms by (cases msg) (auto simp: stale_def owned_def)


section \<open>Reports and settlements\<close>

definition unrelated :: "(('r, 'v) RteState \<Rightarrow> 'b) \<Rightarrow> bool" where
  "unrelated f \<longleftrightarrow> quiet f \<and> (\<forall>st d cs. f (st\<lparr>rte_rdb := d\<rparr>) = f st \<and> f (st\<lparr>rte_calls := cs\<rparr>) = f st)"

lemma unrelated_parts: "unrelated rte_rq" "unrelated rte_settled"
  by (simp_all add: unrelated_def quiet_def)

lemma frames_unrelated:
  assumes "unrelated f"
  shows "frames f (rdb_op env m)" "frames f (call_plugin plugin call)" "quiet f"
  using assms by (auto simp: unrelated_def frames_def rdb_op_def lift_op_def call_plugin_def split: prod.splits)

lemma handle_message_frames:
  assumes "unrelated f"
  shows "frames f (handle_message env msg)"
  by (cases msg; simp only: handle_message.simps handle_create_def create_absent_def handle_destroy_def handle_adopt_def
      handle_restore_def handle_check_def handle_update_inputs_def update_if_changed_def read_complete_def read_resource_def Let_def)
    (intro frames_intros frames_logged_attempt frames_log_event frames_unrelated [OF assms])+

definition resource_report ::
  "('r, 'v) RteEnv \<Rightarrow> 'v Message \<Rightarrow> Outcome \<Rightarrow> ResourceOperationalState \<Rightarrow> bool \<Rightarrow> bool \<Rightarrow> 'v Report" where
  "resource_report env msg out state terminal volatile =
    \<lparr>entity_qid = EResource (resource_ref_qid (message_resource msg)), timestamp = rte_now env, outcome = out,
     metrics = wall_time (rte_elapsed env),
     extension = XResource \<lparr>res_state = state, res_terminal = terminal, res_volatile = volatile\<rparr>\<rparr>"

text \<open>
  C39. An iteration publishes one report to the home region of the resource, a success or a failure as
  the handler ended, and none if the handler dropped the message. A delivery that was carried out is
  acknowledged once, but one that was dropped or failed is settled twice: the loop acknowledges it
  again after the handler has acknowledged or rejected it.
\<close>

theorem failed_deliveries_are_settled_twice:
  assumes "rte_rq_net env = up" "\<And>log. rte_broker env log" "handle_message env msg (st\<lparr>rte_settled := []\<rparr>) = (res, st1)"
  shows "\<exists>st'. rte_worker_loop_iteration env (Inr (Some msg)) st = (Inr True, st') \<and>
    (case res of
       Inr (state, terminal, volatile) \<Rightarrow> rte_settled st' = [Ack] \<and>
         tables (rte_rq st') = tables (rte_rq st) @ [(message_home_region msg, resource_report env msg Success state terminal volatile)]
     | Inl Drop \<Rightarrow> rte_settled st' = [Ack, Ack] \<and> tables (rte_rq st') = tables (rte_rq st)
     | Inl (Failed category err state volatile) \<Rightarrow> rte_settled st' = [Nack False, Ack] \<and>
         tables (rte_rq st') = tables (rte_rq st) @ [(message_home_region msg, resource_report env msg (Failure category err) state False volatile)])"
proof -
  have "rte_rq st1 = rte_rq st" "rte_settled st1 = []"
    using framesD [OF handle_message_frames [OF unrelated_parts(1)], of env msg "st\<lparr>rte_settled := []\<rparr>"]
      framesD [OF handle_message_frames [OF unrelated_parts(2)], of env msg "st\<lparr>rte_settled := []\<rparr>"] assms(3) by simp_all
  with assms show ?thesis
    by (auto simp: rte_worker_loop_iteration_def conclude_def settle_def seq_def done_with_def publish_resource_report_def
        resource_report_def Let_def split: sum.splits Exit.splits)
qed

section \<open>Examples\<close>

lemma example_storable: "storable (rte_js (example_rte_env net)) ''in'' ''out'' markers [] []" if "markers = None \<or> markers = Some {}"
  using that example_codec_ok
  by (auto simp: storable_def example_rte_env_def example_codec_def column_fits_def MAX_JSON_SIZE_def split: option.splits)

lemma example_ready: "rte_ready (example_rte_env up) r example_rte"
  by (simp add: rte_ready_def example_rte_env_def example_rte_def rdb_readable_def empty_rdb_def)


definition example_row :: ResourceRow where
  "example_row = \<lparr>rr_inputs_json = Some ''{in'', rr_outputs_json = Some ''{out'', rr_dependencies_json = Some ''[]'',
    rr_markers_json = Some ''[]'', rr_owner = Some (rte_deployment_qid example_env (example_did 7)), rr_source_trace_json = Some ''[]''\<rparr>"

definition example_full :: "(string, string) RteState" where
  "example_full = example_rte\<lparr>rte_rdb := \<lparr>executed = 0, tables = empty_rdb\<lparr>resources := \<lambda>_. [(ref_key (example_ref ''seed''), example_row)]\<rparr>\<rparr>\<rparr>"

definition example_resource :: "string \<Rightarrow> string Resource" where
  "example_resource ns = \<lparr>res_namespace = ns, res_region = RegionId ''eu'', res_resource_type = ''Std/Random.Int'', res_name = ''seed'',
    res_inputs = Some ''in'', res_outputs = Some ''out'', res_dependencies = [], res_markers = {},
    res_owner = Some (rte_deployment_qid example_env (example_did 7)), res_source_trace = []\<rparr>"

lemma example_row_decodes: "map_resource_row example_codec ns region key example_row =
    Inr (example_resource ns\<lparr>res_region := region, res_resource_type := fst key, res_name := snd key\<rparr>)"
  by (simp add: map_resource_row_def example_row_def decode_record_def decode_dependencies_def decode_markers_def
      decode_source_trace_def decode_column_def check_json_size_def MAX_JSON_SIZE_def example_codec_def example_resource_def)

lemma example_full_ready: "rte_ready (example_rte_env up) r example_full"
  by (auto simp: rte_ready_def example_rte_env_def example_full_def rdb_readable_def example_row_decodes get_row_def split: if_splits)

lemma example_full_stored: "stored (example_rte_env up) (example_ref ''seed'') example_full = Some (example_resource (ref_ns (example_ref ''seed'')))"
  by (simp add: stored_def rdb_abs_def example_full_def example_rte_env_def example_row_decodes example_resource_def
      example_ref_def example_rid_def)

definition example_adopt :: "string AdoptMessage" where
  "example_adopt = \<lparr>am_resource = example_ref ''seed'', am_from_deployment_id = example_did 7, am_to_deployment_id = example_did 8,
    am_home_region = RegionId ''eu'', am_desired_inputs = ''in'', am_dependencies = [], am_source_trace = []\<rparr>"



theorem failed_deliveries_are_settled_twice_witness:
  "\<exists>st'. rte_worker_loop_iteration (example_rte_env up) (Inr (Some example_destroy)) example_rte = (Inr True, st') \<and>
    rte_settled st' = [Ack, Ack]"
proof -
  have "handle_message (example_rte_env up) example_destroy (example_rte\<lparr>rte_settled := []\<rparr>) = (Inl Drop, after_read example_rte)"
    by (simp add: example_destroy_def rte_run_simps example_rte_def empty_rdb_def example_rte_env_def)
  from failed_deliveries_are_settled_twice [OF _ _ this] show ?thesis by (simp add: example_rte_env_def) blast
qed

end
