(* ===== verification/Teardown.thy ===== *)
theory Teardown
  imports De_Reconcile Rte_Transitions
begin

text \<open>
  The deployment engine and the transition engine together: the messages a teardown sends are delivered
  to a worker of the transition engine in the same region, which works on the same resource database.
\<close>

section \<open>Delivering the messages of a region\<close>

definition for_region :: "RegionId \<Rightarrow> (RegionId \<times> 'v Message) list \<Rightarrow> 'v Message list" where
  "for_region region q = map snd (filter (\<lambda>(r, m). r = region) q)"

definition transition_engine :: "('r, 'v) RteEnv \<Rightarrow> 'v Message list \<Rightarrow> ('r, 'v) RteState \<Rightarrow> ('r, 'v) RteState" where
  "transition_engine renv msgs = rte_worker_loop (map (\<lambda>m. (renv, Inr (Some m))) msgs)"

definition deliver ::
  "('r, 'v) DeEnv \<Rightarrow> ('r, 'v) RteEnv \<Rightarrow> 'v DeState \<times> ('r, 'v) RteState \<Rightarrow> 'v DeState \<times> ('r, 'v) RteState" where
  "deliver env renv = (\<lambda>(st, w).
    let region = de_region env;
        w' = transition_engine renv (for_region region (tables (de_rtq st))) (w\<lparr>rte_rdb := de_rdb st region\<rparr>)
    in (st\<lparr>de_rdb := (de_rdb st)(region := rte_rdb w'),
           de_rtq := (de_rtq st)\<lparr>tables := filter (\<lambda>(r, m). r \<noteq> region) (tables (de_rtq st))\<rparr>\<rparr>, w'))"

fun teardown_rounds ::
  "nat \<Rightarrow> ('r, 'v) DeEnv \<Rightarrow> ('r, 'v) RteEnv \<Rightarrow> Deployment \<Rightarrow> int \<Rightarrow> 'v DeState \<times> ('r, 'v) RteState
    \<Rightarrow> 'v DeState \<times> ('r, 'v) RteState" where
  "teardown_rounds 0 env renv d now s = s"
| "teardown_rounds (Suc n) env renv d now (st, w) =
    teardown_rounds n env renv d now (deliver env renv (snd (run_undesired env d now st), w))"

section \<open>One destruction\<close>

text \<open>A plugin that answers every request to delete.\<close>

definition deletes_anything :: "'r plugin \<Rightarrow> bool" where
  "deletes_anything p \<longleftrightarrow> (\<forall>hist owner rid i out. \<exists>res. p hist (CallDelete owner rid i out) = Inr res)"

definition without :: "string \<Rightarrow> string \<times> string \<Rightarrow> RdbTables \<Rightarrow> RdbTables" where
  "without ns key t = t\<lparr>resources := (resources t)(ns := delete_row key (resources t ns))\<rparr>"

definition destroyable :: "('r, 'v) RteEnv \<Rightarrow> 'r Resource \<Rightarrow> bool" where
  "destroyable renv x \<longleftrightarrow> res_inputs x \<noteq> None \<and> res_outputs x \<noteq> None \<and>
    (\<exists>p. resolve_plugin (res_resource_type x) (rte_plugins renv) = Some p \<and> deletes_anything (snd p))"

lemma handle_destroy_up:
  assumes "rte_ready renv r w" "stored renv r w = Some x" "destroyable renv x"
    "res_owner x = Some (rte_deployment_qid (ref_env r) dep)" "res_resource_type x = rid_typ (ref_id r)"
  shows "\<exists>w'. handle_destroy renv \<lparr>dm_resource = r, dm_deployment_id = dep, dm_home_region = home\<rparr> w =
      (Inr (OpDestroyed, True, is_volatile_markers (res_markers x)), w') \<and>
    tables (rte_rdb w') = without (ref_ns r) (ref_key r) (tables (rte_rdb w))"
proof -
  obtain i out p where x: "res_inputs x = Some i" "res_outputs x = Some out"
    "resolve_plugin (rid_typ (ref_id r)) (rte_plugins renv) = Some p" "deletes_anything (snd p)"
    using assms(3,5) by (auto simp: destroyable_def)
  have answer: "\<exists>res. call_plugin p (CallDelete owner rid i out) w2 = (Inr res, w2\<lparr>rte_calls := rte_calls w2 @ [(fst p, CallDelete owner rid i out)]\<rparr>)"
    for owner rid w2 using x(4) call_plugin_Inr [of p w2] by (fastforce simp: deletes_anything_def)
  let ?w1 = "log_resource_event renv r SevInfo (DeploymentId_short dep @ '': Destroying'') (after_read w)"
  obtain res where res: "call_plugin p (CallDelete (rte_deployment_qid (ref_env r) dep) (ref_id r) i out) ?w1 =
      (Inr res, ?w1\<lparr>rte_calls := rte_calls ?w1 @ [(fst p, CallDelete (rte_deployment_qid (ref_env r) dep) (ref_id r) i out)]\<rparr>)"
    using answer by blast
  have net: "rte_rdb_net renv = up" using assms(1) by (simp add: rte_ready_def)
  note read = read_complete_up(3) [OF assms(1,2,4) x(1,2)]
  show ?thesis
    unfolding handle_destroy_def Let_def
    by (simp add: seq_def [of "read_complete _ _ _ _"] read x(3) seq_attempt res net rdb_op_def rdb_delete_def lift_op_def map_err_def
        done_with_def without_def)
qed

lemma settle_frame [simp]: "rte_rdb (snd (settle renv s w)) = rte_rdb w"
  by (simp add: settle_def)

lemma destroy_iteration_up:
  assumes "rte_ready renv r w" "stored renv r w = Some x" "destroyable renv x"
    "res_owner x = Some (rte_deployment_qid (ref_env r) dep)" "res_resource_type x = rid_typ (ref_id r)"
  shows "\<exists>res w'. rte_worker_loop_iteration renv
      (Inr (Some (Destroy \<lparr>dm_resource = r, dm_deployment_id = dep, dm_home_region = home\<rparr>))) w = (res, w') \<and>
    res \<noteq> Inr False \<and> tables (rte_rdb w') = without (ref_ns r) (ref_key r) (tables (rte_rdb w))"
proof -
  let ?w = "w\<lparr>rte_settled := []\<rparr>"
  have "rte_ready renv r ?w" "stored renv r ?w = Some x" using assms(1,2) by (simp_all add: rte_ready_def stored_def)
  from handle_destroy_up [OF this assms(3-5), of home] obtain w' where w':
    "handle_destroy renv \<lparr>dm_resource = r, dm_deployment_id = dep, dm_home_region = home\<rparr> ?w =
      (Inr (OpDestroyed, True, is_volatile_markers (res_markers x)), w')"
    "tables (rte_rdb w') = without (ref_ns r) (ref_key r) (tables (rte_rdb w))" by auto
  then show ?thesis
    by (simp add: rte_worker_loop_iteration_def seq_def conclude_def Let_def settle_def done_with_def)
qed

section \<open>All the destructions of a turn\<close>

abbreviation key_of :: "'r Resource \<Rightarrow> string \<times> string" where
  "key_of x \<equiv> (res_resource_type x, res_name x)"

text \<open>The rows of the environment, each of which can be read, with their keys distinct as primary keys are.\<close>

definition rows_hold :: "('r, 'v) DeEnv \<Rightarrow> RdbTables \<Rightarrow> 'r Resource list \<Rightarrow> bool" where
  "rows_hold env t all \<longleftrightarrow>
    collect_rows (map (\<lambda>(key, row). map_resource_row (de_js env) (de_ns env) (de_region env) key row)
      (resources t (de_ns env))) = Inr all \<and> distinct (map fst (resources t (de_ns env)))"

lemma collect_rows_each: "collect_rows rows = Inr xs \<Longrightarrow> y \<in> set rows \<Longrightarrow> \<exists>x \<in> set xs. y = Inr x"
  by (induction rows arbitrary: xs rule: collect_rows.induct) (auto split: sum.splits)

lemma row_key: "map_resource_row js ns region key row = Inr x \<Longrightarrow> key_of x = key \<and> res_region x = region"
  by (auto simp: map_resource_row_def split: sum.splits)

lemma rows_hold_readable: "rows_hold env t all \<Longrightarrow> rdb_readable (de_js env) (de_region env) (de_ns env) t"
  by (fastforce simp: rows_hold_def rdb_readable_def get_row_def dest!: map_of_SomeD collect_rows_each)

lemma rows_hold_row:
  assumes "rows_hold env t all" "x \<in> set all"
  shows "rdb_abs (de_js env) (de_region env) (de_ns env) t (key_of x) = Some x" "res_region x = de_region env"
proof -
  obtain key row where row: "(key, row) \<in> set (resources t (de_ns env))"
    "map_resource_row (de_js env) (de_ns env) (de_region env) key row = Inr x"
    using collect_rows_member [of _ all x] assms by (fastforce simp: rows_hold_def)
  then have "key = key_of x" "res_region x = de_region env" using row_key by metis+
  with row assms(1) show "rdb_abs (de_js env) (de_region env) (de_ns env) t (key_of x) = Some x"
    "res_region x = de_region env"
    by (simp_all add: rows_hold_def rdb_abs_def get_row_def map_of_is_SomeI)
qed

lemma rows_hold_without:
  assumes "rows_hold env t all"
  shows "rows_hold env (without (de_ns env) (key_of x) t) (filter (\<lambda>y. key_of y \<noteq> key_of x) all)"
proof -
  have "collect_rows (map (\<lambda>(key, row). map_resource_row (de_js env) (de_ns env) (de_region env) key row)
      (filter (\<lambda>r. fst r \<noteq> key_of x) (resources t (de_ns env)))) = Inr (filter (\<lambda>y. key_of y \<noteq> key_of x) all)"
    using assms unfolding rows_hold_def by (intro collect_rows_filter) (auto dest!: row_key)
  moreover have "distinct (map fst (filter (\<lambda>r. fst r \<noteq> key_of x) (resources t (de_ns env))))"
    using assms by (auto simp: rows_hold_def intro: distinct_map_filter)
  ultimately show ?thesis by (simp add: rows_hold_def without_def delete_row_def)
qed

text \<open>The transition engine that serves the home region of the deployment engine.\<close>

definition serves :: "('r, 'v) RteEnv \<Rightarrow> ('r, 'v) DeEnv \<Rightarrow> bool" where
  "serves renv env \<longleftrightarrow> rte_region renv = de_region env \<and> rte_js renv = de_js env \<and> rte_rdb_net renv = up"

lemma destroy_served:
  assumes "serves renv env" "rows_hold env (tables (rte_rdb w)) all" "x \<in> set all" "res_owner x = Some (de_owner env)"
    "destroyable renv x"
  shows "\<exists>res w'. rte_worker_loop_iteration renv
      (Inr (Some (destroy_message env (dep_id (de_client env)) (resource_id_from x)))) w = (res, w') \<and>
    res \<noteq> Inr False \<and> tables (rte_rdb w') = without (de_ns env) (key_of x) (tables (rte_rdb w))"
proof -
  let ?r = "resource_ref (dep_env (de_client env)) (resource_id_from x)"
  have r: "ref_ns ?r = de_ns env" "ref_key ?r = key_of x" "ref_env ?r = dep_env (de_client env)"
    "rid_typ (ref_id ?r) = res_resource_type x"
    by (simp_all add: resource_ref_def resource_id_from_def)
  have "rte_ready renv ?r w" "stored renv ?r w = Some x"
    using assms(1) rows_hold_readable [OF assms(2)] rows_hold_row(1) [OF assms(2,3)] r
    by (simp_all add: serves_def rte_ready_def stored_def)
  moreover have "res_owner x = Some (rte_deployment_qid (ref_env ?r) (dep_id (de_client env)))"
    using assms(4) r(3) by (cases "de_client env") (simp add: rte_deployment_qid_def)
  ultimately show ?thesis
    using destroy_iteration_up [of renv ?r w x "dep_id (de_client env)" "de_region env"] assms(5) r
    unfolding destroy_message_def by simp
qed

lemma transition_engine_Cons:
  "rte_worker_loop_iteration renv (Inr (Some m)) w = (res, w') \<Longrightarrow> res \<noteq> Inr False \<Longrightarrow>
    transition_engine renv (m # ms) w = transition_engine renv ms w'"
  by (cases res) (auto simp: transition_engine_def split: bool.splits)

lemma destroys_served:
  assumes "serves renv env" "rows_hold env (tables (rte_rdb w)) all" "set xs \<subseteq> set all" "distinct (map key_of xs)"
    "\<forall>x \<in> set xs. res_owner x = Some (de_owner env) \<and> destroyable renv x"
  shows "rows_hold env (tables (rte_rdb (transition_engine renv
      (map (\<lambda>x. destroy_message env (dep_id (de_client env)) (resource_id_from x)) xs) w)))
    (filter (\<lambda>y. key_of y \<notin> key_of ` set xs) all)"
  using assms(2-)
proof (induction xs arbitrary: w all)
  case (Cons x xs)
  let ?m = "destroy_message env (dep_id (de_client env)) (resource_id_from x)" and ?rest = "filter (\<lambda>y. key_of y \<noteq> key_of x) all"
  obtain res w' where w': "rte_worker_loop_iteration renv (Inr (Some ?m)) w = (res, w')" "res \<noteq> Inr False"
    "tables (rte_rdb w') = without (de_ns env) (key_of x) (tables (rte_rdb w))"
    using destroy_served [OF assms(1) Cons.prems(1), of x] Cons.prems(2,4) by auto
  have rest: "rows_hold env (tables (rte_rdb w')) ?rest"
    unfolding w'(3) by (rule rows_hold_without [OF Cons.prems(1)])
  have "filter (\<lambda>y. key_of y \<notin> key_of ` set xs) ?rest = filter (\<lambda>y. key_of y \<notin> key_of ` set (x # xs)) all"
    by (auto intro: filter_cong)
  moreover have "key_of y \<noteq> key_of x" if "y \<in> set xs" for y using Cons.prems(3) imageI [OF that, of key_of] by auto
  then have "set xs \<subseteq> set ?rest" using Cons.prems(2) by auto
  ultimately show ?case
    using Cons.IH [OF rest] Cons.prems(3,4) transition_engine_Cons [OF w'(1,2)] by simp
qed (simp add: transition_engine_def)

section \<open>One round\<close>

lemma rows_hold_home: "rows_hold env (tables (de_rdb st (de_region env))) all \<Longrightarrow> home_holds env st all"
  by (simp add: rows_hold_def home_holds_def)

lemma collect_rows_keys:
  "collect_rows (map (\<lambda>(key, row). map_resource_row js ns region key row) rows) = Inr all \<Longrightarrow> map key_of all = map fst rows"
proof (induction rows arbitrary: all)
  case (Cons r rows)
  obtain key row where r: "r = (key, row)" by (cases r)
  then obtain x xs where x: "map_resource_row js ns region key row = Inr x" "all = x # xs"
    "collect_rows (map (\<lambda>(key, row). map_resource_row js ns region key row) rows) = Inr xs"
    using Cons.prems by (cases "map_resource_row js ns region key row") (auto split: sum.splits)
  then show ?case using Cons.IH [OF x(3)] row_key [OF x(1)] r by simp
qed simp

lemma rows_hold_distinct: "rows_hold env t all \<Longrightarrow> distinct (map key_of all)"
  unfolding rows_hold_def by (auto dest!: collect_rows_keys)

text \<open>What holds before and after every round: nothing waits for the region and every resource can be destroyed.\<close>

definition ready_to_tear_down ::
  "('r, 'v) DeEnv \<Rightarrow> ('r, 'v) RteEnv \<Rightarrow> (ResourceId \<Rightarrow> nat) \<Rightarrow> Registry \<Rightarrow> 'r Resource list \<Rightarrow> 'v DeState \<Rightarrow> bool" where
  "ready_to_tear_down env renv rank r all st \<longleftrightarrow>
    rows_hold env (tables (de_rdb st (de_region env))) all \<and> for_region (de_region env) (tables (de_rtq st)) = [] \<and>
    represents r (tables (de_cdb st)) \<and> can_tear_down (de_owner env) rank all \<and>
    (\<forall>x \<in> set all. to_destroy (de_owner env) x \<longrightarrow> destroyable renv x)"

definition teardown_up :: "('r, 'v) DeEnv \<Rightarrow> bool" where
  "teardown_up env \<longleftrightarrow> de_rdb_net env (de_region env) = up \<and> de_rtq_net env = up \<and> de_cdb_net env = up \<and>
    DeploymentQid_wf (de_client env)"

lemma for_region_all: "\<forall>x \<in> set xs. f x = region \<Longrightarrow> for_region region (map (\<lambda>x. (f x, g x)) xs) = map g xs"
  by (induction xs) (auto simp: for_region_def)

lemma for_region_append: "for_region region (xs @ ys) = for_region region xs @ for_region region ys"
  by (simp add: for_region_def)

abbreviation spared :: "string \<Rightarrow> 'r Resource list \<Rightarrow> 'r Resource list" where
  "spared owner all \<equiv> filter (\<lambda>x. \<not> to_destroy owner x) all"

lemma deliver_parts:
  assumes "deliver env renv (st, w) = (st', w')"
  shows "de_cdb st' = de_cdb st" "for_region (de_region env) (tables (de_rtq st')) = []"
    "de_rdb st' (de_region env) = rte_rdb (transition_engine renv (for_region (de_region env) (tables (de_rtq st)))
      (w\<lparr>rte_rdb := de_rdb st (de_region env)\<rparr>))"
  using assms by (auto simp: deliver_def Let_def for_region_def filter_empty_conv)

lemma teardown_round:
  assumes "teardown_up env" "serves renv env" "deployment_qid d = de_client env" "ready_to_tear_down env renv rank r all st"
  obtains st' w' where "deliver env renv (snd (run_undesired env d now st), w) = (st', w')"
    "represents (if \<forall>x\<in>set all. res_owner x = Some (de_owner env) \<longrightarrow> Sticky \<in> res_markers x
       then abs_set (de_client env) now Down r else r) (tables (de_cdb st'))"
    "rows_hold env (tables (de_rdb st' (de_region env))) (filter (\<lambda>y. key_of y \<notin> key_of ` set (doomed (de_owner env) all)) all)"
    "for_region (de_region env) (tables (de_rtq st')) = []"
proof -
  let ?o = "de_owner env" and ?region = "de_region env" and ?xs = "doomed (de_owner env) all"
  let ?msgs = "map (\<lambda>x. destroy_message env (dep_id (de_client env)) (resource_id_from x)) ?xs"
  note ready = assms(4) [unfolded ready_to_tear_down_def]
  have rows: "rows_hold env (tables (de_rdb st ?region)) all" using ready by blast
  from run_undesired_up [OF rows_hold_home [OF rows], of r d now] assms(1,3) ready obtain cdb where run:
    "run_undesired env d now st =
      (Inr (), (sent (destroys env (dep_id (de_client env)) ?xs) (looked_up env st))\<lparr>de_cdb := cdb\<rparr>)"
    "represents (if \<forall>x\<in>set all. res_owner x = Some ?o \<longrightarrow> Sticky \<in> res_markers x
       then abs_set (de_client env) now Down r else r) (tables cdb)" unfolding teardown_up_def by blast
  let ?st1 = "snd (run_undesired env d now st)"
  have doomed: "set ?xs \<subseteq> set all" "\<forall>x \<in> set ?xs. to_destroy ?o x" by (auto simp: doomed_def to_destroy_def)
  have msgs: "for_region ?region (tables (de_rtq ?st1)) = ?msgs"
    using ready doomed(1) rows_hold_row(2) [OF rows]
    by (auto simp: run(1) sent_def looked_up_def for_region_append intro!: for_region_all)
  let ?w = "w\<lparr>rte_rdb := de_rdb ?st1 ?region\<rparr>"
  have "rows_hold env (tables (rte_rdb ?w)) all" using rows by (simp add: run(1) sent_def looked_up_def)
  moreover have "distinct (map key_of ?xs)" using rows_hold_distinct [OF rows] by (simp add: doomed_def distinct_map_filter)
  moreover have "\<forall>x \<in> set ?xs. res_owner x = Some ?o \<and> destroyable renv x"
    using doomed ready by (auto simp: to_destroy_def)
  ultimately have "rows_hold env (tables (rte_rdb (transition_engine renv ?msgs ?w)))
      (filter (\<lambda>y. key_of y \<notin> key_of ` set ?xs) all)"
    using destroys_served [OF assms(2)] doomed(1) by blast
  then have served: "rows_hold env (tables (rte_rdb (transition_engine renv (for_region ?region (tables (de_rtq ?st1))) ?w)))
      (filter (\<lambda>y. key_of y \<notin> key_of ` set ?xs) all)" unfolding msgs .
  obtain st' w' where delivered: "deliver env renv (?st1, w) = (st', w')" by (cases "deliver env renv (?st1, w)")
  have cdb: "de_cdb ?st1 = cdb" by (simp add: run(1))
  show ?thesis
  proof (rule that [OF delivered])
    show "for_region ?region (tables (de_rtq st')) = []" by (rule deliver_parts(2) [OF delivered])
    show "rows_hold env (tables (de_rdb st' ?region)) (filter (\<lambda>y. key_of y \<notin> key_of ` set ?xs) all)"
      unfolding deliver_parts(3) [OF delivered] by (rule served)
    show "represents (if \<forall>x\<in>set all. res_owner x = Some ?o \<longrightarrow> Sticky \<in> res_markers x
       then abs_set (de_client env) now Down r else r) (tables (de_cdb st'))"
      unfolding deliver_parts(1) [OF delivered] cdb by (rule run(2))
  qed
qed

lemma teardown_round_progress:
  assumes "teardown_up env" "serves renv env" "deployment_qid d = de_client env" "ready_to_tear_down env renv rank r all st"
    "remaining (de_owner env) all \<noteq> 0"
  obtains st' w' all' where "deliver env renv (snd (run_undesired env d now st), w) = (st', w')"
    "ready_to_tear_down env renv rank r all' st'" "remaining (de_owner env) all' < remaining (de_owner env) all"
    "spared (de_owner env) all' = spared (de_owner env) all"
proof -
  let ?o = "de_owner env" and ?alive = "\<lambda>y. key_of y \<notin> key_of ` set (doomed (de_owner env) all)"
  note ready = assms(4) [unfolded ready_to_tear_down_def]
  obtain x where x: "x \<in> set all" "to_destroy ?o x" using assms(5) by (auto simp: filter_empty_conv)
  then have loose: "\<not> (\<forall>x\<in>set all. res_owner x = Some ?o \<longrightarrow> Sticky \<in> res_markers x)" by (auto simp: to_destroy_def)
  obtain st' w' where st': "deliver env renv (snd (run_undesired env d now st), w) = (st', w')"
    "represents (if \<forall>x\<in>set all. res_owner x = Some ?o \<longrightarrow> Sticky \<in> res_markers x
       then abs_set (de_client env) now Down r else r) (tables (de_cdb st'))"
    "rows_hold env (tables (de_rdb st' (de_region env))) (filter ?alive all)"
    "for_region (de_region env) (tables (de_rtq st')) = []"
    by (rule teardown_round [OF assms(1-4)])
  have "can_tear_down ?o rank (filter ?alive all)" by (rule can_tear_down_mono) (use ready in auto)
  then have "ready_to_tear_down env renv rank r (filter ?alive all) st'"
    using st'(2-4) ready unfolding if_not_P [OF loose] ready_to_tear_down_def by simp
  moreover obtain y where y: "y \<in> set (doomed ?o all)" "to_destroy ?o y"
    using doomed_progress [OF _ x] ready by blast
  then have "length (filter ?alive (filter (to_destroy ?o) all)) < remaining ?o all"
    by (intro length_filter_less [of y]) (auto simp: doomed_def)
  then have "remaining ?o (filter ?alive all) < remaining ?o all" by (simp add: conj_commute)
  moreover have "key_of y \<notin> key_of ` set (doomed ?o all)" if "y \<in> set all" "\<not> to_destroy ?o y" for y
  proof
    assume "key_of y \<in> key_of ` set (doomed ?o all)"
    then obtain z where z: "z \<in> set (doomed ?o all)" "key_of y = key_of z" by blast
    then have "z \<in> set all" "to_destroy ?o z" by (auto simp: doomed_def to_destroy_def)
    moreover have "inj_on key_of (set all)" using rows_hold_distinct ready by (auto simp: distinct_map)
    ultimately show False using that z(2) by (auto dest: inj_onD)
  qed
  then have "spared ?o (filter ?alive all) = spared ?o all"
    unfolding filter_filter by (intro filter_cong refl) blast
  ultimately show ?thesis by (rule that [OF st'(1)])
qed

text \<open>The deployment is down and what was to be destroyed is gone.\<close>

definition torn_down :: "('r, 'v) DeEnv \<Rightarrow> int \<Rightarrow> Registry \<Rightarrow> 'r Resource list \<Rightarrow> 'v DeState \<Rightarrow> bool" where
  "torn_down env now r all st \<longleftrightarrow> represents (abs_set (de_client env) now Down r) (tables (de_cdb st)) \<and>
    rows_hold env (tables (de_rdb st (de_region env))) (spared (de_owner env) all)"

lemma teardown_round_last:
  assumes "teardown_up env" "serves renv env" "deployment_qid d = de_client env" "ready_to_tear_down env renv rank r all st"
    "remaining (de_owner env) all = 0"
  shows "torn_down env now r all (fst (teardown_rounds 1 env renv d now (st, w)))"
proof -
  have none: "\<not> to_destroy (de_owner env) x" if "x \<in> set all" for x
    using assms(5) that by (auto simp: filter_empty_conv)
  then have sticky: "\<forall>x\<in>set all. res_owner x = Some (de_owner env) \<longrightarrow> Sticky \<in> res_markers x"
    by (auto simp: to_destroy_def)
  have "doomed (de_owner env) all = []" using sticky by (auto simp: doomed_def filter_empty_conv)
  moreover have "spared (de_owner env) all = all" using none by simp
  moreover obtain st' w' where st': "deliver env renv (snd (run_undesired env d now st), w) = (st', w')"
    "represents (if \<forall>x\<in>set all. res_owner x = Some (de_owner env) \<longrightarrow> Sticky \<in> res_markers x
       then abs_set (de_client env) now Down r else r) (tables (de_cdb st'))"
    "rows_hold env (tables (de_rdb st' (de_region env))) (filter (\<lambda>y. key_of y \<notin> key_of ` set (doomed (de_owner env) all)) all)"
    "for_region (de_region env) (tables (de_rtq st')) = []"
    by (rule teardown_round [OF assms(1-4)])
  ultimately show ?thesis using st'(2) [unfolded if_P [OF sticky]] by (simp add: torn_down_def)
qed

end
