(* ===== verification/Sclc_Types.thy ===== *)
theory Sclc_Types
  imports Amqp "HOL-Library.AList" "HOL-Library.List_Lexorder"
begin

text \<open>
  The types of the configuration language, \<^verbatim>\<open>crates/sclc/src/ty.rs\<close>: substitution, unfolding of recursive
  types, assignability, inference of type arguments and printing. The identifier and the display name
  of a type take no part in its equality and are left out. A type error carries the chain of mismatches
  that is shown to the user; the model keeps that there is an error. The checks recurse without a bound
  on recursive types, so they run on fuel, and running out of it is a result of its own.
\<close>

section \<open>Types\<close>

datatype Ty =
    TAny | TInt | TFloat | TBool | TStr | TPath | TNever
  | TOptional Ty
  | TList Ty
  | TFn "(nat \<times> Ty) list" "Ty list" Ty
  | TRecord "(string \<times> Ty) list"
  | TDict Ty Ty
  | TIsoRec nat Ty
  | TVar nat
  | TException "64 word"

text \<open>The fields of a record are a sorted map, kept in the order of their names.\<close>

fun record_insert :: "string \<Rightarrow> 'a \<Rightarrow> (string \<times> 'a) list \<Rightarrow> (string \<times> 'a) list" where
  "record_insert name x [] = [(name, x)]"
| "record_insert name x ((k, y) # rest) =
    (if name < k then (name, x) # (k, y) # rest
     else if name = k then (name, x) # rest
     else (k, y) # record_insert name x rest)"

abbreviation record_get :: "(string \<times> 'a) list \<Rightarrow> string \<Rightarrow> 'a option" where
  "record_get fs name \<equiv> map_of fs name"

fun substitute :: "(nat \<times> Ty) list \<Rightarrow> Ty \<Rightarrow> Ty" where
  "substitute rs (TVar i) = (case map_of rs i of Some t \<Rightarrow> t | None \<Rightarrow> TVar i)"
| "substitute rs (TOptional t) = TOptional (substitute rs t)"
| "substitute rs (TList t) = TList (substitute rs t)"
| "substitute rs (TFn tps ps ret) =
    TFn (map (\<lambda>(i, b). (i, substitute rs b)) tps) (map (substitute rs) ps) (substitute rs ret)"
| "substitute rs (TRecord fs) = TRecord (map (\<lambda>(k, t). (k, substitute rs t)) fs)"
| "substitute rs (TDict k v) = TDict (substitute rs k) (substitute rs v)"
| "substitute rs (TIsoRec i t) = TIsoRec i (substitute rs t)"
| "substitute rs t = t"

fun contains_var :: "nat \<Rightarrow> Ty \<Rightarrow> bool" where
  "contains_var v (TVar i) \<longleftrightarrow> i = v"
| "contains_var v (TOptional t) \<longleftrightarrow> contains_var v t"
| "contains_var v (TList t) \<longleftrightarrow> contains_var v t"
| "contains_var v (TFn tps ps ret) \<longleftrightarrow>
    list_ex (\<lambda>(i, b). contains_var v b) tps \<or> list_ex (contains_var v) ps \<or> contains_var v ret"
| "contains_var v (TRecord fs) \<longleftrightarrow> list_ex (\<lambda>(k, t). contains_var v t) fs"
| "contains_var v (TDict k w) \<longleftrightarrow> contains_var v k \<or> contains_var v w"
| "contains_var v (TIsoRec i t) \<longleftrightarrow> i \<noteq> v \<and> contains_var v t"
| "contains_var v t \<longleftrightarrow> False"

fun unfold_ty :: "Ty \<Rightarrow> Ty" where
  "unfold_ty (TIsoRec i body) =
    (if \<not> contains_var i body then unfold_ty body else substitute [(i, TIsoRec i body)] body)"
| "unfold_ty t = t"

section \<open>Assignability\<close>

datatype 'a Judged = OutOfFuel | Rejected | Accepted 'a

fun judged_then :: "'a Judged \<Rightarrow> ('a \<Rightarrow> 'b Judged) \<Rightarrow> 'b Judged" where
  "judged_then OutOfFuel k = OutOfFuel"
| "judged_then Rejected k = Rejected"
| "judged_then (Accepted x) k = k x"

fun judge_all :: "unit Judged list \<Rightarrow> unit Judged" where
  "judge_all [] = Accepted ()"
| "judge_all (j # js) = judged_then j (\<lambda>_. judge_all js)"

type_synonym ty_bounds = "nat \<rightharpoonup> Ty"

type_synonym assigner = "ty_bounds \<Rightarrow> Ty \<Rightarrow> Ty \<Rightarrow> unit Judged"

datatype Variance = Covariant | Contravariant

fun flip_variance :: "Variance \<Rightarrow> Variance" where
  "flip_variance Covariant = Contravariant"
| "flip_variance Contravariant = Covariant"

text \<open>The lower and the upper bound collected for each type parameter.\<close>

type_synonym assertions = "(nat \<times> Ty \<times> Ty) list"

definition tighten_upper :: "assigner \<Rightarrow> Ty \<Rightarrow> Ty \<Rightarrow> Ty Judged" where
  "tighten_upper asg current new_bound =
    (case asg Map.empty current new_bound of
       OutOfFuel \<Rightarrow> OutOfFuel
     | Accepted _ \<Rightarrow> Accepted new_bound
     | Rejected \<Rightarrow>
         (case asg Map.empty new_bound current of
            OutOfFuel \<Rightarrow> OutOfFuel
          | Accepted _ \<Rightarrow> Accepted current
          | Rejected \<Rightarrow> Rejected))"

definition tighten_lower :: "assigner \<Rightarrow> Ty \<Rightarrow> Ty \<Rightarrow> Ty Judged" where
  "tighten_lower asg current new_bound =
    (case asg Map.empty new_bound current of
       OutOfFuel \<Rightarrow> OutOfFuel
     | Accepted _ \<Rightarrow> Accepted new_bound
     | Rejected \<Rightarrow>
         (case asg Map.empty current new_bound of
            OutOfFuel \<Rightarrow> OutOfFuel
          | Accepted _ \<Rightarrow> Accepted current
          | Rejected \<Rightarrow> Accepted TAny))"

definition note_bound :: "assigner \<Rightarrow> Variance \<Rightarrow> nat \<Rightarrow> Ty \<times> Ty \<Rightarrow> Ty \<Rightarrow> assertions \<Rightarrow> assertions Judged" where
  "note_bound asg variance i entry lhs as =
    (case variance of
       Covariant \<Rightarrow> judged_then (tighten_upper asg (snd entry) lhs) (\<lambda>upper. Accepted (AList.update i (fst entry, upper) as))
     | Contravariant \<Rightarrow> judged_then (tighten_lower asg (fst entry) lhs) (\<lambda>lower. Accepted (AList.update i (lower, snd entry) as)))"

fun collect_all :: "('a \<Rightarrow> assertions \<Rightarrow> assertions Judged) \<Rightarrow> 'a list \<Rightarrow> assertions \<Rightarrow> assertions Judged" where
  "collect_all f [] as = Accepted as"
| "collect_all f (x # xs) as = judged_then (f x as) (collect_all f xs)"

definition compare_for :: "assigner \<Rightarrow> Variance \<Rightarrow> Ty \<Rightarrow> Ty \<Rightarrow> assertions \<Rightarrow> assertions Judged" where
  "compare_for asg variance lhs rhs as =
    (case variance of
       Covariant \<Rightarrow> judged_then (asg Map.empty lhs rhs) (\<lambda>_. Accepted as)
     | Contravariant \<Rightarrow> judged_then (asg Map.empty rhs lhs) (\<lambda>_. Accepted as))"

text \<open>The free variables are the type parameters that have an entry among the assertions.\<close>

fun collect_bounds :: "nat \<Rightarrow> assigner \<Rightarrow> Variance \<Rightarrow> Ty \<Rightarrow> Ty \<Rightarrow> assertions \<Rightarrow> assertions Judged" where
  "collect_bounds 0 asg variance lhs0 rhs0 as = OutOfFuel"
| "collect_bounds (Suc n) asg variance lhs0 rhs0 as =
    (let lhs = unfold_ty lhs0; rhs = unfold_ty rhs0;
         entry = (case rhs of TVar i \<Rightarrow> map_option (Pair i) (map_of as i) | _ \<Rightarrow> None) in
     case entry of
       Some (i, e) \<Rightarrow> note_bound asg variance i e lhs as
     | None \<Rightarrow>
         (case (lhs, rhs) of
            (TOptional l, TOptional r) \<Rightarrow> collect_bounds n asg variance l r as
          | (TList l, TList r) \<Rightarrow> collect_bounds n asg variance l r as
          | (TRecord ls, TRecord rs) \<Rightarrow>
              collect_all (\<lambda>(name, r) as. case record_get ls name of
                  None \<Rightarrow> Accepted as
                | Some l \<Rightarrow> collect_bounds n asg variance l r as) rs as
          | (TDict lk lv, TDict rk rv) \<Rightarrow>
              judged_then (collect_bounds n asg variance lk rk as) (collect_bounds n asg variance lv rv)
          | (TFn ltps lps lret, TFn rtps rps rret) \<Rightarrow>
              if length lps = length rps then
                judged_then (collect_all (\<lambda>(l, r). collect_bounds n asg (flip_variance variance) l r) (zip lps rps) as)
                  (collect_bounds n asg variance lret rret)
              else compare_for asg variance lhs rhs as
          | (_, TOptional r) \<Rightarrow>
              if variance = Covariant then collect_bounds n asg variance lhs r as
              else compare_for asg variance lhs rhs as
          | _ \<Rightarrow> compare_for asg variance lhs rhs as))"

definition initial_assertions :: "(nat \<times> Ty) list \<Rightarrow> assertions" where
  "initial_assertions tps = fold (\<lambda>(i, b). AList.update i (TNever, b)) tps []"

definition check_assertions :: "assigner \<Rightarrow> ty_bounds \<Rightarrow> assertions \<Rightarrow> unit Judged" where
  "check_assertions asg bounds as = judge_all (map (\<lambda>(i, lower, upper). asg bounds upper lower) as)"

definition unify_generic_fn ::
  "nat \<Rightarrow> assigner \<Rightarrow> ty_bounds \<Rightarrow> Ty list \<Rightarrow> Ty \<Rightarrow> (nat \<times> Ty) list \<Rightarrow> Ty list \<Rightarrow> Ty \<Rightarrow> unit Judged" where
  "unify_generic_fn n asg bounds lps lret tps rps rret =
    judged_then (collect_all (\<lambda>(l, r). collect_bounds n asg Contravariant l r) (zip lps rps) (initial_assertions tps)) (\<lambda>as.
    judged_then (collect_bounds n asg Covariant lret rret as) (check_assertions asg bounds))"

definition assign_plain_fn :: "assigner \<Rightarrow> ty_bounds \<Rightarrow> Ty list \<Rightarrow> Ty \<Rightarrow> Ty list \<Rightarrow> Ty \<Rightarrow> unit Judged" where
  "assign_plain_fn asg bounds lps lret rps rret =
    judged_then (judge_all (map (\<lambda>(l, r). asg bounds r l) (zip lps rps))) (\<lambda>_. asg bounds lret rret)"

text \<open>The recursive calls of the source are on functions without type parameters of their own.\<close>

definition assign_fn_type ::
  "nat \<Rightarrow> assigner \<Rightarrow> ty_bounds \<Rightarrow> (nat \<times> Ty) list \<Rightarrow> Ty list \<Rightarrow> Ty \<Rightarrow> (nat \<times> Ty) list \<Rightarrow> Ty list \<Rightarrow> Ty \<Rightarrow> unit Judged" where
  "assign_fn_type n asg bounds ltps lps lret rtps rps rret =
    (if length lps \<noteq> length rps then Rejected
     else if ltps = [] \<and> rtps = [] then assign_plain_fn asg bounds lps lret rps rret
     else if ltps = [] then unify_generic_fn n asg bounds lps lret rtps rps rret
     else if rtps = [] then
       assign_plain_fn asg bounds (map (substitute ltps) lps) (substitute ltps lret) rps rret
     else if length ltps \<noteq> length rtps then Rejected
     else
       judged_then (judge_all (map (\<lambda>((_, lb), (_, rb)). asg bounds rb lb) (zip ltps rtps))) (\<lambda>_.
       let renaming = map (\<lambda>((li, _), (ri, _)). (li, TVar ri)) (zip ltps rtps);
           extended = fold (\<lambda>(i, b) m. m(i \<mapsto> b)) rtps bounds
       in assign_plain_fn asg extended (map (substitute renaming) lps) (substitute renaming lret) rps rret))"

fun assign_fields :: "(Ty \<Rightarrow> Ty \<Rightarrow> unit Judged) \<Rightarrow> (string \<times> Ty) list \<Rightarrow> (string \<times> Ty) list \<Rightarrow> unit Judged" where
  "assign_fields f [] rs = Accepted ()"
| "assign_fields f ((name, l) # ls) rs =
    (case record_get rs name of
       None \<Rightarrow> (case l of TOptional _ \<Rightarrow> assign_fields f ls rs | _ \<Rightarrow> Rejected)
     | Some r \<Rightarrow> judged_then (f l r) (\<lambda>_. assign_fields f ls rs))"

definition var_bound :: "ty_bounds \<Rightarrow> Ty \<Rightarrow> Ty option" where
  "var_bound bounds t = (case t of TVar i \<Rightarrow> bounds i | _ \<Rightarrow> None)"

definition assign_type_impl :: "nat \<Rightarrow> assigner \<Rightarrow> ty_bounds \<Rightarrow> Ty \<Rightarrow> Ty \<Rightarrow> unit Judged" where
  "assign_type_impl n asg bounds lhs rhs =
    (if lhs = rhs \<or> lhs = TAny \<or> rhs = TNever then Accepted ()
     else case lhs of
       TOptional l \<Rightarrow>
         (case rhs of
            TOptional r \<Rightarrow> asg bounds l r
          | _ \<Rightarrow> (case var_bound bounds rhs of Some (TOptional b) \<Rightarrow> asg bounds lhs (TOptional b) | _ \<Rightarrow> asg bounds l rhs))
     | _ \<Rightarrow>
         (case var_bound bounds rhs of
            Some upper_bound \<Rightarrow> asg bounds lhs upper_bound
          | None \<Rightarrow>
              (case (lhs, rhs) of
                 (TRecord ls, TRecord rs) \<Rightarrow> assign_fields (asg bounds) ls rs
               | (TDict lk lv, TDict rk rv) \<Rightarrow> judged_then (asg bounds lk rk) (\<lambda>_. asg bounds lv rv)
               | (TList l, TList r) \<Rightarrow> asg bounds l r
               | (TFn ltps lps lret, TFn rtps rps rret) \<Rightarrow> assign_fn_type n asg bounds ltps lps lret rtps rps rret
               | _ \<Rightarrow> Rejected)))"

fun assign_type_with_bounds :: "nat \<Rightarrow> ty_bounds \<Rightarrow> Ty \<Rightarrow> Ty \<Rightarrow> unit Judged" where
  "assign_type_with_bounds 0 bounds lhs rhs = OutOfFuel"
| "assign_type_with_bounds (Suc n) bounds lhs rhs =
    assign_type_impl n (assign_type_with_bounds n) bounds (unfold_ty lhs) (unfold_ty rhs)"

definition is_assignable_from :: "nat \<Rightarrow> Ty \<Rightarrow> Ty \<Rightarrow> unit Judged" where
  "is_assignable_from n lhs rhs = assign_type_with_bounds n Map.empty lhs rhs"

definition is_disjoint_from :: "nat \<Rightarrow> Ty \<Rightarrow> Ty \<Rightarrow> bool Judged" where
  "is_disjoint_from n t other =
    (case is_assignable_from n t other of
       OutOfFuel \<Rightarrow> OutOfFuel
     | Accepted _ \<Rightarrow> Accepted False
     | Rejected \<Rightarrow>
         (case is_assignable_from n other t of
            OutOfFuel \<Rightarrow> OutOfFuel
          | Accepted _ \<Rightarrow> Accepted False
          | Rejected \<Rightarrow> Accepted True))"

definition infer_type_args ::
  "nat \<Rightarrow> (nat \<times> Ty) list \<Rightarrow> Ty list \<Rightarrow> Ty list \<Rightarrow> ty_bounds \<Rightarrow> (nat \<times> Ty) list Judged" where
  "infer_type_args n tps ps args bounds =
    judged_then (collect_all (\<lambda>(a, p). collect_bounds n (assign_type_with_bounds n) Contravariant a p) (zip args ps)
      (initial_assertions tps)) (\<lambda>as.
    judged_then (check_assertions (assign_type_with_bounds n) bounds as) (\<lambda>_.
    Accepted (map (\<lambda>(i, _). (i, fst (the (map_of as i)))) tps)))"

section \<open>Printing\<close>

definition typevar_name :: "nat \<Rightarrow> string" where
  "typevar_name index =
    char_of (65 + index mod 26) # (if index div 26 = 0 then [] else dec_digits (index div 26))"

text \<open>The position of a type variable among the parameters that are in scope.\<close>

fun position :: "nat \<Rightarrow> nat list \<Rightarrow> nat option" where
  "position v [] = None"
| "position v (x # xs) = (if v = x then Some 0 else map_option Suc (position v xs))"

definition var_display :: "nat list \<Rightarrow> nat \<Rightarrow> string" where
  "var_display stack i =
    (case position i stack of Some k \<Rightarrow> typevar_name k | None \<Rightarrow> CHR ''T'' # dec_digits i)"

fun join_with :: "string \<Rightarrow> string list \<Rightarrow> string" where
  "join_with sep [] = []"
| "join_with sep [x] = x"
| "join_with sep (x # y # xs) = x @ sep @ join_with sep (y # xs)"

fun ty_display :: "nat list \<Rightarrow> Ty \<Rightarrow> string" where
  "ty_display stack TAny = ''Any''"
| "ty_display stack TInt = ''Int''"
| "ty_display stack TFloat = ''Float''"
| "ty_display stack TBool = ''Bool''"
| "ty_display stack TStr = ''Str''"
| "ty_display stack TPath = ''Path''"
| "ty_display stack TNever = ''Never''"
| "ty_display stack (TOptional t) = ty_display stack t @ ''?''"
| "ty_display stack (TList t) = ''['' @ ty_display stack t @ '']''"
| "ty_display stack (TFn tps ps ret) =
    (let inner = stack @ map fst tps in
     ''fn'' @
     (if tps = [] then []
      else ''<'' @ join_with '', '' (map (\<lambda>(i, b). var_display inner i @
        (if b = TAny then [] else '' <: '' @ ty_display inner b)) tps) @ ''>'') @
     ''('' @ join_with '', '' (map (ty_display inner) ps) @ '') '' @ ty_display inner ret)"
| "ty_display stack (TRecord fs) = ''{'' @ join_with '', '' (map (\<lambda>(k, t). k @ '': '' @ ty_display stack t) fs) @ ''}''"
| "ty_display stack (TDict k v) = ''#{'' @ ty_display stack k @ '': '' @ ty_display stack v @ ''}''"
| "ty_display stack (TIsoRec i t) =
    (if \<not> contains_var i t then ty_display stack t
     else [CHR 0xC2, CHR 0xB5] @ typevar_name (length stack) @ ''.'' @ ty_display (stack @ [i]) t)"
| "ty_display stack (TVar i) = var_display stack i"
| "ty_display stack (TException i) = ''Exception#'' @ hex_padded 8 (unat i mod 2 ^ 32)"

end
