(* ===== verification/Sclc_Values.thy ===== *)
theory Sclc_Values
  imports Ids Sclc_Types
begin

text \<open>
  The values of the configuration language, \<^verbatim>\<open>crates/sclc/src/value.rs\<close>, with the dependencies they carry.
  A function value is opaque (\<open>'f\<close>), closures and native functions alike: they belong to the evaluator.
  Integers are 64 bits wide and floats, which are never NaN, are kept as their bit pattern.
\<close>

record PathValue =
  pv_path :: string
  pv_package :: "string list"
  pv_hash :: ObjId

datatype 'f Val =
    VNil | VPending
  | VInt "64 word"
  | VFloat "64 word"
  | VBool bool
  | VStr string
  | VPath PathValue
  | VList "'f Val list"
  | VExternFn 'f
  | VFn 'f
  | VRecord "(string \<times> 'f Val) list"
  | VDict "('f Val \<times> 'f Val) list"
  | VException "64 word" "'f Val"

text \<open>
  Equality as the source derives it: the two zeros of a float are equal, a native function equals nothing,
  not even itself, and closures are compared by \<open>feq\<close>.
\<close>

definition float_eq :: "64 word \<Rightarrow> 64 word \<Rightarrow> bool" where
  "float_eq a b \<longleftrightarrow> a = b \<or> (2 * a = 0 \<and> 2 * b = 0)"

fun val_eq :: "('f \<Rightarrow> 'f \<Rightarrow> bool) \<Rightarrow> 'f Val \<Rightarrow> 'f Val \<Rightarrow> bool" where
  "val_eq feq VNil other \<longleftrightarrow> (case other of VNil \<Rightarrow> True | _ \<Rightarrow> False)"
| "val_eq feq VPending other \<longleftrightarrow> (case other of VPending \<Rightarrow> True | _ \<Rightarrow> False)"
| "val_eq feq (VInt a) other \<longleftrightarrow> (case other of VInt b \<Rightarrow> a = b | _ \<Rightarrow> False)"
| "val_eq feq (VFloat a) other \<longleftrightarrow> (case other of VFloat b \<Rightarrow> float_eq a b | _ \<Rightarrow> False)"
| "val_eq feq (VBool a) other \<longleftrightarrow> (case other of VBool b \<Rightarrow> a = b | _ \<Rightarrow> False)"
| "val_eq feq (VStr a) other \<longleftrightarrow> (case other of VStr b \<Rightarrow> a = b | _ \<Rightarrow> False)"
| "val_eq feq (VPath a) other \<longleftrightarrow> (case other of VPath b \<Rightarrow> a = b | _ \<Rightarrow> False)"
| "val_eq feq (VList as) other \<longleftrightarrow> (case other of VList bs \<Rightarrow> list_all2 (val_eq feq) as bs | _ \<Rightarrow> False)"
| "val_eq feq (VFn a) other \<longleftrightarrow> (case other of VFn b \<Rightarrow> feq a b | _ \<Rightarrow> False)"
| "val_eq feq (VRecord as) other \<longleftrightarrow> (case other of VRecord bs \<Rightarrow> list_all2 (\<lambda>(k, v) (l, w). k = l \<and> val_eq feq v w) as bs | _ \<Rightarrow> False)"
| "val_eq feq (VDict as) other \<longleftrightarrow> (case other of VDict bs \<Rightarrow> list_all2 (\<lambda>(k, v) (l, w). val_eq feq k l \<and> val_eq feq v w) as bs | _ \<Rightarrow> False)"
| "val_eq feq (VException i a) other \<longleftrightarrow> (case other of VException j b \<Rightarrow> i = j \<and> val_eq feq a b | _ \<Rightarrow> False)"
| "val_eq feq (VExternFn f) other \<longleftrightarrow> False"

text \<open>A missing field of a record reads as nil, and a dictionary finds the entry inserted first.\<close>

definition val_record_get :: "(string \<times> 'f Val) list \<Rightarrow> string \<Rightarrow> 'f Val" where
  "val_record_get r name = (case record_get r name of None \<Rightarrow> VNil | Some v \<Rightarrow> v)"

definition dict_insert :: "'f Val \<Rightarrow> 'f Val \<Rightarrow> ('f Val \<times> 'f Val) list \<Rightarrow> ('f Val \<times> 'f Val) list" where
  "dict_insert k v d = d @ [(k, v)]"

definition dict_get :: "('f \<Rightarrow> 'f \<Rightarrow> bool) \<Rightarrow> ('f Val \<times> 'f Val) list \<Rightarrow> 'f Val \<Rightarrow> 'f Val option" where
  "dict_get feq d key = map_option snd (find (\<lambda>(k, _). val_eq feq k key) d)"

fun has_pending :: "'f Val \<Rightarrow> bool" where
  "has_pending VPending \<longleftrightarrow> True"
| "has_pending (VList vs) \<longleftrightarrow> list_ex has_pending vs"
| "has_pending (VRecord r) \<longleftrightarrow> list_ex (\<lambda>(k, v). has_pending v) r"
| "has_pending (VDict d) \<longleftrightarrow> list_ex (\<lambda>(k, v). has_pending k \<or> has_pending v) d"
| "has_pending v \<longleftrightarrow> False"

section \<open>Values with their dependencies\<close>

record 'f TrackedValue =
  tv_value :: "'f Val"
  tv_dependencies :: "ResourceId set"

definition tracked_new :: "'f Val \<Rightarrow> 'f TrackedValue" where
  "tracked_new v = \<lparr>tv_value = v, tv_dependencies = {}\<rparr>"

definition tracked_pending :: "'f TrackedValue" where
  "tracked_pending = tracked_new VPending"

definition with_dependencies :: "ResourceId set \<Rightarrow> 'f TrackedValue \<Rightarrow> 'f TrackedValue" where
  "with_dependencies ds t = t\<lparr>tv_dependencies := tv_dependencies t \<union> ds\<rparr>"

definition with_dependency :: "ResourceId \<Rightarrow> 'f TrackedValue \<Rightarrow> 'f TrackedValue" where
  "with_dependency d t = t\<lparr>tv_dependencies := insert d (tv_dependencies t)\<rparr>"

definition tracked_map :: "('f Val \<Rightarrow> 'f Val) \<Rightarrow> 'f TrackedValue \<Rightarrow> 'f TrackedValue" where
  "tracked_map f t = t\<lparr>tv_value := f (tv_value t)\<rparr>"

definition tracked_flat_map :: "('f Val \<Rightarrow> 'f TrackedValue) \<Rightarrow> 'f TrackedValue \<Rightarrow> 'f TrackedValue" where
  "tracked_flat_map f t = (let mapped = f (tv_value t) in mapped\<lparr>tv_dependencies := tv_dependencies mapped \<union> tv_dependencies t\<rparr>)"

definition tracked_try_map :: "('f Val \<Rightarrow> 'e + 'f Val) \<Rightarrow> 'f TrackedValue \<Rightarrow> 'e + 'f TrackedValue" where
  "tracked_try_map f t = (case f (tv_value t) of Inl e \<Rightarrow> Inl e | Inr v \<Rightarrow> Inr (t\<lparr>tv_value := v\<rparr>))"

definition tracked_try_flat_map :: "('f Val \<Rightarrow> 'e + 'f TrackedValue) \<Rightarrow> 'f TrackedValue \<Rightarrow> 'e + 'f TrackedValue" where
  "tracked_try_flat_map f t =
    (case f (tv_value t) of
       Inl e \<Rightarrow> Inl e
     | Inr mapped \<Rightarrow> Inr (mapped\<lparr>tv_dependencies := tv_dependencies mapped \<union> tv_dependencies t\<rparr>))"

section \<open>Values of a type\<close>

text \<open>
  The values of a type. A value that is not known yet may turn out to be of any type. Function values
  are left out, so function types have no values here. A record value may have fields its type does not
  name, unless the values are asked to be exact, as those of a literal are for the type of the literal.
\<close>

inductive conforms :: "bool \<Rightarrow> 'f Val \<Rightarrow> Ty \<Rightarrow> bool" for exact :: bool where
  conforms_any: "conforms exact v TAny"
| conforms_pending: "conforms exact VPending t"
| conforms_int: "conforms exact (VInt i) TInt"
| conforms_float: "conforms exact (VFloat f) TFloat"
| conforms_bool: "conforms exact (VBool b) TBool"
| conforms_str: "conforms exact (VStr s) TStr"
| conforms_path: "conforms exact (VPath p) TPath"
| conforms_nil: "conforms exact VNil (TOptional t)"
| conforms_some: "conforms exact v t \<Longrightarrow> conforms exact v (TOptional t)"
| conforms_list: "(\<And>v. v \<in> set vs \<Longrightarrow> conforms exact v t) \<Longrightarrow> conforms exact (VList vs) (TList t)"
| conforms_record: "(\<And>name t. (name, t) \<in> set fs \<Longrightarrow> conforms exact (val_record_get r name) t) \<Longrightarrow>
    (exact \<Longrightarrow> fst ` set r \<subseteq> fst ` set fs) \<Longrightarrow> conforms exact (VRecord r) (TRecord fs)"
| conforms_dict: "(\<And>k v. (k, v) \<in> set d \<Longrightarrow> conforms exact k kt \<and> conforms exact v vt) \<Longrightarrow>
    conforms exact (VDict d) (TDict kt vt)"
| conforms_exception: "conforms exact (VException i v) (TException i)"
| conforms_isorec: "conforms exact v (unfold_ty (TIsoRec i t)) \<Longrightarrow> conforms exact v (TIsoRec i t)"

inductive_simps conforms_never_iff: "conforms exact v TNever"
inductive_simps conforms_optional_iff: "conforms exact v (TOptional t)"
inductive_simps conforms_list_iff: "conforms exact v (TList t)"
inductive_simps conforms_record_iff: "conforms exact v (TRecord fs)"
inductive_simps conforms_dict_iff: "conforms exact v (TDict kt vt)"
inductive_simps conforms_isorec_iff: "conforms exact v (TIsoRec i t)"
inductive_simps conforms_fn_iff: "conforms exact v (TFn tps ps ret)"
inductive_simps conforms_int_iff: "conforms exact v TInt"
inductive_simps conforms_str_iff: "conforms exact v TStr"

declare conforms_any [intro, simp] conforms_pending [intro, simp]

lemma conforms_unfold: "conforms exact v (unfold_ty t) \<longleftrightarrow> conforms exact v t"
proof (cases t)
  case (TIsoRec i b)
  then show ?thesis by (auto simp: conforms_isorec_iff)
qed simp_all

lemma conforms_inexact: "conforms exact v t \<Longrightarrow> conforms False v t"
  by (induction rule: conforms.induct) (auto intro: conforms.intros)

end
