(* ===== verification/Sclc_Soundness.thy ===== *)
theory Sclc_Soundness
  imports Sclc_Values
begin

text \<open>
  What assignability promises: the answer does not depend on the fuel, types without recursion are always
  decided, every value of an accepted type is a value of the type it is assigned to, and where the rules
  of \<^verbatim>\<open>crates/sclc/src/ty.rs\<close> fall short of that.
\<close>

section \<open>More fuel keeps the answer\<close>

definition settled :: "'a Judged \<Rightarrow> 'a Judged \<Rightarrow> bool" where
  "settled a b \<longleftrightarrow> a = OutOfFuel \<or> a = b"

named_theorems settled_intros

lemma settled_refl [simp, settled_intros]: "settled a a"
  by (simp add: settled_def)

lemma settled_OutOfFuel [simp]: "settled OutOfFuel a"
  by (simp add: settled_def)

lemma settled_then [settled_intros]:
  assumes "settled a b" "\<And>x. settled (k x) (l x)"
  shows "settled (judged_then a k) (judged_then b l)"
proof (cases a)
  case (Accepted x)
  then show ?thesis using assms(1) assms(2) [of x] by (auto simp: settled_def)
qed (use assms(1) in \<open>auto simp: settled_def\<close>)

lemma settled_if [settled_intros]:
  "settled a a' \<Longrightarrow> settled b b' \<Longrightarrow> settled (if c then a else b) (if c then a' else b')"
  by simp

lemma settled_case_option [settled_intros]:
  "settled a a' \<Longrightarrow> (\<And>x. settled (f x) (f' x)) \<Longrightarrow> settled (case_option a f x) (case_option a' f' x)"
  by (cases x) simp_all

lemma settled_case_prod [settled_intros]:
  "(\<And>x y. settled (f x y) (f' x y)) \<Longrightarrow> settled (case_prod f p) (case_prod f' p)"
  by (cases p) simp

lemma settled_case_prod_app [settled_intros]:
  "(\<And>x y. settled (f x y as) (f' x y as)) \<Longrightarrow> settled (case_prod f p as) (case_prod f' p as)"
  by (cases p) simp

lemma settled_case_Ty [settled_intros]:
  assumes "settled a1 b1" "settled a2 b2" "settled a3 b3" "settled a4 b4" "settled a5 b5" "settled a6 b6" "settled a7 b7"
    "\<And>t. settled (a8 t) (b8 t)" "\<And>t. settled (a9 t) (b9 t)" "\<And>tps ps t. settled (a10 tps ps t) (b10 tps ps t)"
    "\<And>fs. settled (a11 fs) (b11 fs)" "\<And>k v. settled (a12 k v) (b12 k v)" "\<And>i t. settled (a13 i t) (b13 i t)"
    "\<And>i. settled (a14 i) (b14 i)" "\<And>i. settled (a15 i) (b15 i)"
  shows "settled (case_Ty a1 a2 a3 a4 a5 a6 a7 a8 a9 a10 a11 a12 a13 a14 a15 t)
    (case_Ty b1 b2 b3 b4 b5 b6 b7 b8 b9 b10 b11 b12 b13 b14 b15 t)"
  using assms by (cases t) simp_all

lemma settled_judge_all [settled_intros]:
  "(\<And>x. settled (f x) (g x)) \<Longrightarrow> settled (judge_all (map f xs)) (judge_all (map g xs))"
  by (induction xs) (auto intro: settled_then)

lemma settled_collect_all [settled_intros]:
  "(\<And>x as. settled (f x as) (g x as)) \<Longrightarrow> settled (collect_all f xs as) (collect_all g xs as)"
  by (induction xs arbitrary: as) (auto intro: settled_then)

lemma settled_assign_fields [settled_intros]:
  "(\<And>l r. settled (f l r) (g l r)) \<Longrightarrow> settled (assign_fields f ls rs) (assign_fields g ls rs)"
  by (induction f ls rs rule: assign_fields.induct) (auto intro: settled_then split: option.splits Ty.splits)

text \<open>The operations that take the recursive check as an argument follow it.\<close>

locale settled_assigner =
  fixes asg asg' :: assigner
  assumes more: "settled (asg bounds lhs rhs) (asg' bounds lhs rhs)"
begin

lemma tighten_upper_settled: "settled (tighten_upper asg t u) (tighten_upper asg' t u)"
  using more [of Map.empty t u] more [of Map.empty u t]
  by (auto simp: tighten_upper_def settled_def split: Judged.splits)

lemma tighten_lower_settled: "settled (tighten_lower asg t u) (tighten_lower asg' t u)"
  using more [of Map.empty t u] more [of Map.empty u t]
  by (auto simp: tighten_lower_def settled_def split: Judged.splits)

lemma note_bound_settled: "settled (note_bound asg variance i e t as) (note_bound asg' variance i e t as)"
  by (cases variance)
    (auto simp: note_bound_def intro!: settled_then tighten_upper_settled tighten_lower_settled)

lemma compare_for_settled: "settled (compare_for asg variance lhs rhs as) (compare_for asg' variance lhs rhs as)"
  by (cases variance) (auto simp: compare_for_def intro!: settled_then more)

lemma assign_plain_fn_settled: "settled (assign_plain_fn asg bounds lps lret rps rret) (assign_plain_fn asg' bounds lps lret rps rret)"
  unfolding assign_plain_fn_def by (intro settled_intros more)

lemma check_assertions_settled: "settled (check_assertions asg bounds as) (check_assertions asg' bounds as)"
  unfolding check_assertions_def by (intro settled_intros more)

lemma collect_bounds_settled:
  "settled (collect_bounds n asg variance lhs rhs as) (collect_bounds (Suc n) asg' variance lhs rhs as)"
proof (induction n arbitrary: variance lhs rhs as)
  case (Suc n)
  show ?case
    unfolding collect_bounds.simps(2) [of n asg variance lhs rhs as]
      collect_bounds.simps(2) [of "Suc n" asg' variance lhs rhs as] Let_def
    by (intro settled_intros Suc.IH note_bound_settled compare_for_settled)
qed simp

lemma unify_generic_fn_settled:
  "settled (unify_generic_fn n asg bounds lps lret tps rps rret) (unify_generic_fn (Suc n) asg' bounds lps lret tps rps rret)"
  unfolding unify_generic_fn_def
  by (intro settled_intros check_assertions_settled collect_bounds_settled)

lemma assign_fn_type_settled:
  "settled (assign_fn_type n asg bounds ltps lps lret rtps rps rret) (assign_fn_type (Suc n) asg' bounds ltps lps lret rtps rps rret)"
  unfolding assign_fn_type_def Let_def
  by (intro settled_intros assign_plain_fn_settled unify_generic_fn_settled more)

lemma assign_type_impl_settled:
  "settled (assign_type_impl n asg bounds lhs rhs) (assign_type_impl (Suc n) asg' bounds lhs rhs)"
  unfolding assign_type_impl_def
  by (intro settled_intros assign_fn_type_settled more)

end

lemma assign_type_settled: "settled (assign_type_with_bounds n bounds lhs rhs) (assign_type_with_bounds (Suc n) bounds lhs rhs)"
proof (induction n arbitrary: bounds lhs rhs)
  case (Suc n)
  have "settled_assigner (assign_type_with_bounds n) (assign_type_with_bounds (Suc n))"
    by unfold_locales (rule Suc)
  then show ?case
    unfolding assign_type_with_bounds.simps(2) [of n bounds lhs rhs] assign_type_with_bounds.simps(2) [of "Suc n" bounds lhs rhs]
    by (rule settled_assigner.assign_type_impl_settled)
qed simp

interpretation fuelled: settled_assigner "assign_type_with_bounds n" "assign_type_with_bounds (Suc n)" for n
  by unfold_locales (rule assign_type_settled)

lemma assign_type_more_fuel:
  assumes "assign_type_with_bounds n bounds lhs rhs = r" "r \<noteq> OutOfFuel" "n \<le> m"
  shows "assign_type_with_bounds m bounds lhs rhs = r"
  using assms(3)
proof (induction m rule: dec_induct)
  case (step m)
  then show ?case using assms(2) assign_type_settled [of m bounds lhs rhs] by (simp add: settled_def)
qed (rule assms(1))

section \<open>Types that are always decided\<close>

text \<open>No recursive type and no function with type parameters of its own.\<close>

fun plain :: "Ty \<Rightarrow> bool" where
  "plain (TOptional t) \<longleftrightarrow> plain t"
| "plain (TList t) \<longleftrightarrow> plain t"
| "plain (TFn tps ps ret) \<longleftrightarrow> tps = [] \<and> list_all plain ps \<and> plain ret"
| "plain (TRecord fs) \<longleftrightarrow> list_all (\<lambda>(k, t). plain t) fs"
| "plain (TDict k v) \<longleftrightarrow> plain k \<and> plain v"
| "plain (TIsoRec i t) \<longleftrightarrow> False"
| "plain t \<longleftrightarrow> True"

lemma unfold_plain [simp]: "plain t \<Longrightarrow> unfold_ty t = t"
  by (cases t) simp_all

lemma judge_all_decided: "(\<And>j. j \<in> set js \<Longrightarrow> j \<noteq> OutOfFuel) \<Longrightarrow> judge_all js \<noteq> OutOfFuel"
proof (induction js)
  case (Cons j js)
  then show ?case by (cases j) auto
qed simp

lemma judged_then_decided: "j \<noteq> OutOfFuel \<Longrightarrow> (\<And>x. k x \<noteq> OutOfFuel) \<Longrightarrow> judged_then j k \<noteq> OutOfFuel"
  by (cases j) auto

lemma assign_fields_decided:
  "(\<And>name l r. (name, l) \<in> set ls \<Longrightarrow> (name, r) \<in> set rs \<Longrightarrow> f l r \<noteq> OutOfFuel) \<Longrightarrow> assign_fields f ls rs \<noteq> OutOfFuel"
proof (induction ls)
  case (Cons field ls)
  obtain name l where field: "field = (name, l)" by (cases field)
  have rest: "assign_fields f ls rs \<noteq> OutOfFuel"
    by (rule Cons.IH, rule Cons.prems) auto
  show ?case
  proof (cases "record_get rs name")
    case (Some r)
    then have "f l r \<noteq> OutOfFuel" using Cons.prems [of name l r] by (simp add: map_of_SomeD field)
    then show ?thesis using Some rest by (simp add: judged_then_decided field)
  qed (cases l, simp_all add: rest field)
qed simp

lemma var_bound_empty [simp]: "var_bound Map.empty t = None"
  by (simp add: var_bound_def split: Ty.split)

lemma size_in_list: "x \<in> set xs \<Longrightarrow> size x < size_list size xs"
  by (induction xs) auto

lemma size_in_fields: "(name, t) \<in> set fs \<Longrightarrow> size (t :: Ty) < size_list (size_prod (\<lambda>_. 0) size) fs"
  by (induction fs) auto

lemma zip_member: "(x, y) \<in> set (zip xs ys) \<Longrightarrow> x \<in> set xs \<and> y \<in> set ys"
  by (auto dest: set_zip_leftD set_zip_rightD)

lemma assign_fn_type_decided:
  assumes "plain (TFn ltps lps lret)" "plain (TFn rtps rps rret)"
    and "\<And>l r. size l + size r < size (TFn ltps lps lret) + size (TFn rtps rps rret) \<Longrightarrow> plain l \<Longrightarrow> plain r \<Longrightarrow>
      asg bounds l r \<noteq> OutOfFuel"
  shows "assign_fn_type n asg bounds ltps lps lret rtps rps rret \<noteq> OutOfFuel"
proof -
  have params: "asg bounds r l \<noteq> OutOfFuel" if "(l, r) \<in> set (zip lps rps)" for l r
    using zip_member [OF that] assms(1,2) size_in_list [of l lps] size_in_list [of r rps]
    by (intro assms(3)) (auto simp: list_all_iff)
  have ret: "asg bounds lret rret \<noteq> OutOfFuel"
    using assms(1,2) by (intro assms(3)) auto
  have "judge_all (map (\<lambda>(l, r). asg bounds r l) (zip lps rps)) \<noteq> OutOfFuel"
    by (rule judge_all_decided) (use params in auto)
  then have "assign_plain_fn asg bounds lps lret rps rret \<noteq> OutOfFuel"
    unfolding assign_plain_fn_def using ret by (rule judged_then_decided)
  then show ?thesis
    using assms(1,2) by (simp add: assign_fn_type_def)
qed

lemma assign_decided:
  "size lhs + size rhs < n \<Longrightarrow> plain lhs \<Longrightarrow> plain rhs \<Longrightarrow> assign_type_with_bounds n Map.empty lhs rhs \<noteq> OutOfFuel"
proof (induction n arbitrary: lhs rhs)
  case (Suc n)
  have smaller: "assign_type_with_bounds n Map.empty l r \<noteq> OutOfFuel"
    if "size l + size r < size lhs + size rhs" "plain l" "plain r" for l r
    using that Suc.prems(1) by (intro Suc.IH) auto
  have fields: "assign_fields (assign_type_with_bounds n Map.empty) ls rs \<noteq> OutOfFuel"
    if "lhs = TRecord ls" "rhs = TRecord rs" for ls rs
  proof (rule assign_fields_decided)
    fix name l r assume "(name, l) \<in> set ls" "(name, r) \<in> set rs"
    then show "assign_type_with_bounds n Map.empty l r \<noteq> OutOfFuel"
      using that Suc.prems(2,3) size_in_fields [of name l ls] size_in_fields [of name r rs]
      by (intro smaller) (auto simp: list_all_iff)
  qed
  have fns: "assign_fn_type n (assign_type_with_bounds n) Map.empty ltps lps lret rtps rps rret \<noteq> OutOfFuel"
    if "lhs = TFn ltps lps lret" "rhs = TFn rtps rps rret" for ltps lps lret rtps rps rret
    using Suc.prems(2,3) smaller unfolding that by (rule assign_fn_type_decided)
  have "assign_type_impl n (assign_type_with_bounds n) Map.empty lhs rhs \<noteq> OutOfFuel"
  proof (cases lhs)
    case (TOptional l)
    then have "assign_type_with_bounds n Map.empty l rhs \<noteq> OutOfFuel"
      "rhs = TOptional r \<Longrightarrow> assign_type_with_bounds n Map.empty l r \<noteq> OutOfFuel" for r
      using Suc.prems(2,3) smaller [of l rhs] smaller [of l r] by simp_all
    then show ?thesis using TOptional by (cases rhs) (simp_all add: assign_type_impl_def)
  next
    case (TList l)
    have "rhs = TList r \<Longrightarrow> assign_type_with_bounds n Map.empty l r \<noteq> OutOfFuel" for r
      using TList Suc.prems(2,3) smaller [of l r] by simp
    then show ?thesis using TList by (cases rhs) (simp_all add: assign_type_impl_def)
  next
    case (TDict k v)
    have "rhs = TDict k' v' \<Longrightarrow> assign_type_with_bounds n Map.empty k k' \<noteq> OutOfFuel \<and>
      assign_type_with_bounds n Map.empty v v' \<noteq> OutOfFuel" for k' v'
      using TDict Suc.prems(2,3) smaller [of k k'] smaller [of v v'] by simp
    then show ?thesis using TDict by (cases rhs) (simp_all add: assign_type_impl_def judged_then_decided)
  next
    case (TRecord ls)
    then show ?thesis using fields [of ls] by (cases rhs) (simp_all add: assign_type_impl_def)
  next
    case (TFn ltps lps lret)
    then show ?thesis using fns [of ltps lps lret] by (cases rhs) (simp_all add: assign_type_impl_def)
  qed (simp_all add: assign_type_impl_def)
  then show ?case using Suc.prems(2,3) by simp
qed simp

text \<open>
  C28. Assignability of types without recursion and without generic functions is always decided: the check
  makes at most as many nested calls as the two types have constructors, and further fuel does not
  change its answer.
\<close>

theorem plain_types_are_decided:
  assumes "plain lhs" "plain rhs"
  shows "\<exists>answer \<in> {Rejected, Accepted ()}. \<forall>n > size lhs + size rhs. is_assignable_from n lhs rhs = answer"
proof -
  let ?answer = "is_assignable_from (Suc (size lhs + size rhs)) lhs rhs"
  have decided: "?answer \<noteq> OutOfFuel"
    unfolding is_assignable_from_def using assms by (intro assign_decided) auto
  then have "is_assignable_from n lhs rhs = ?answer" if "n > size lhs + size rhs" for n
    using that assign_type_more_fuel [OF refl, of "Suc (size lhs + size rhs)" Map.empty lhs rhs n]
    unfolding is_assignable_from_def by simp
  moreover have "?answer \<in> {Rejected, Accepted ()}" using decided by (cases ?answer) auto
  ultimately show ?thesis by blast
qed

theorem plain_types_are_decided_witness:
  "\<exists>answer \<in> {Rejected, Accepted ()}. \<forall>n > 9.
    is_assignable_from n (TRecord [(''size'', TOptional TInt)]) (TRecord [(''name'', TStr), (''size'', TInt)]) = answer"
  using plain_types_are_decided [of "TRecord [(''size'', TOptional TInt)]" "TRecord [(''name'', TStr), (''size'', TInt)]"]
  by (simp add: eval_nat_numeral)

section \<open>Accepted assignments keep values in their types\<close>

text \<open>No field of a record type is declared optional.\<close>

fun required_fields :: "Ty \<Rightarrow> bool" where
  "required_fields (TOptional t) \<longleftrightarrow> required_fields t"
| "required_fields (TList t) \<longleftrightarrow> required_fields t"
| "required_fields (TRecord fs) \<longleftrightarrow> list_all (\<lambda>(k, t). (\<forall>u. t \<noteq> TOptional u) \<and> required_fields t) fs"
| "required_fields (TDict k v) \<longleftrightarrow> required_fields k \<and> required_fields v"
| "required_fields (TIsoRec i t) \<longleftrightarrow> required_fields t"
| "required_fields t \<longleftrightarrow> True"

lemma substitute_optional:
  "substitute [(i, TIsoRec j b)] t = TOptional u \<Longrightarrow> \<exists>v. t = TOptional v"
  by (cases t) (auto split: if_splits)

lemma required_fields_substitute:
  "required_fields b \<Longrightarrow> required_fields t \<Longrightarrow> required_fields (substitute [(i, TIsoRec j b)] t)"
proof (induction t rule: required_fields.induct)
  case (3 fs)
  then show ?case by (fastforce simp: list_all_iff dest: substitute_optional)
qed auto

lemma required_fields_unfold: "required_fields t \<Longrightarrow> required_fields (unfold_ty t)"
  by (induction t rule: unfold_ty.induct) (auto intro: required_fields_substitute)

lemma assign_fields_Accepted:
  "assign_fields f ls rs = Accepted () \<Longrightarrow> (name, l) \<in> set ls \<Longrightarrow>
    (case record_get rs name of None \<Rightarrow> \<exists>t. l = TOptional t | Some r \<Rightarrow> f l r = Accepted ())"
proof (induction ls)
  case (Cons field ls)
  obtain k t where field: "field = (k, t)" by (cases field)
  have "assign_fields f ls rs = Accepted () \<and> (case record_get rs k of None \<Rightarrow> \<exists>u. t = TOptional u | Some r \<Rightarrow> f t r = Accepted ())"
  proof (cases "record_get rs k")
    case None
    then show ?thesis using Cons.prems(1) field by (cases t) simp_all
  next
    case (Some r)
    then show ?thesis using Cons.prems(1) field by (cases "f t r") simp_all
  qed
  then show ?case using Cons field by auto
qed simp

lemma judged_then_Accepted: "judged_then j k = Accepted y \<longleftrightarrow> (\<exists>x. j = Accepted x \<and> k x = Accepted y)"
  by (cases j) auto

lemma missing_field_is_nil:
  "fst ` set r \<subseteq> fst ` set rs \<Longrightarrow> record_get rs name = None \<Longrightarrow> val_record_get r name = VNil"
  by (force simp: val_record_get_def map_of_eq_None_iff split: option.split dest!: map_of_SomeD)

text \<open>One step of the check, given that the nested checks are sound.\<close>

locale sound_assigner =
  fixes asg :: assigner and exact :: bool
  assumes sound: "asg Map.empty lhs rhs = Accepted () \<Longrightarrow> exact \<or> required_fields lhs \<Longrightarrow> conforms exact v rhs \<Longrightarrow>
    conforms False (v :: 'f Val) lhs"
begin

lemma record_sound:
  assumes accepted: "assign_fields (asg Map.empty) ls rs = Accepted ()"
    and restricted: "exact \<or> required_fields (TRecord ls)"
    and value_of: "conforms exact (v :: 'f Val) (TRecord rs)"
  shows "conforms False v (TRecord ls)"
proof (cases "v = VPending")
  case False
  then obtain r where r: "v = VRecord r" "\<And>name t. (name, t) \<in> set rs \<Longrightarrow> conforms exact (val_record_get r name) t"
    "exact \<Longrightarrow> fst ` set r \<subseteq> fst ` set rs"
    using value_of by (auto simp: conforms_record_iff)
  have "conforms False (val_record_get r name) l" if member: "(name, l) \<in> set ls" for name l
  proof (cases "record_get rs name")
    case None
    then obtain t where l: "l = TOptional t" using assign_fields_Accepted [OF accepted member] by auto
    then have exact using restricted member by (auto simp: list_all_iff)
    then have "val_record_get r name = VNil" using r(3) None by (intro missing_field_is_nil) auto
    then show ?thesis using l by (simp add: conforms_nil)
  next
    case (Some t)
    then have "asg Map.empty l t = Accepted ()" using assign_fields_Accepted [OF accepted member] by simp
    moreover have "exact \<or> required_fields l" using restricted member by (auto simp: list_all_iff)
    moreover have "conforms exact (val_record_get r name) t" using r(2) map_of_SomeD [OF Some] by blast
    ultimately show ?thesis by (rule sound)
  qed
  then show ?thesis unfolding r(1) by (auto intro: conforms_record)
qed simp

lemma optional_sound:
  assumes "asg Map.empty l r = Accepted ()" "exact \<or> required_fields l" "conforms exact (v :: 'f Val) (TOptional r)"
  shows "conforms False v (TOptional l)"
  using assms(3) sound [OF assms(1,2)] unfolding conforms_optional_iff by auto

lemma list_sound:
  assumes "asg Map.empty l r = Accepted ()" "exact \<or> required_fields l" "conforms exact (v :: 'f Val) (TList r)"
  shows "conforms False v (TList l)"
  using assms(3) sound [OF assms(1,2)] unfolding conforms_list_iff by auto

lemma dict_sound:
  assumes "asg Map.empty lk rk = Accepted ()" "asg Map.empty lv rv = Accepted ()"
    and "exact \<or> required_fields (TDict lk lv)" "conforms exact (v :: 'f Val) (TDict rk rv)"
  shows "conforms False v (TDict lk lv)"
  using assms(3,4) sound [OF assms(1)] sound [OF assms(2)] unfolding conforms_dict_iff by fastforce

lemma fn_sound: "conforms exact (v :: 'f Val) (TFn tps ps ret) \<Longrightarrow> conforms False v t"
  by (simp add: conforms_fn_iff)

lemma never_sound: "conforms exact (v :: 'f Val) TNever \<Longrightarrow> conforms False v t"
  by (simp add: conforms_never_iff)

lemma impl_sound:
  assumes accepted: "assign_type_impl n asg Map.empty lhs rhs = Accepted ()"
    and restricted: "exact \<or> required_fields lhs"
    and value_of: "conforms exact (v :: 'f Val) rhs"
  shows "conforms False v lhs"
proof (cases "lhs = rhs \<or> lhs = TAny \<or> rhs = TNever")
  case True
  then show ?thesis using value_of by (auto intro: conforms_inexact never_sound)
next
  case False
  note structural = accepted [unfolded assign_type_impl_def, simplified False if_False var_bound_empty option.case]
  show ?thesis
  proof (cases lhs)
    case (TOptional l)
    show ?thesis
    proof (cases "\<exists>r. rhs = TOptional r")
      case True
      then show ?thesis using TOptional structural restricted value_of by (auto intro: optional_sound)
    next
      case False
      then have "asg Map.empty l rhs = Accepted ()" using TOptional structural by (cases rhs) simp_all
      then show ?thesis using TOptional restricted value_of by (auto intro: conforms_some sound)
    qed
  next
    case (TRecord ls)
    then show ?thesis using structural restricted value_of by (cases rhs) (auto intro: record_sound)
  next
    case (TList l)
    then show ?thesis using structural restricted value_of by (cases rhs) (auto intro: list_sound)
  next
    case (TDict lk lv)
    then show ?thesis using structural restricted value_of by (cases rhs) (auto simp: judged_then_Accepted intro: dict_sound)
  next
    case (TFn ltps lps lret)
    then show ?thesis using structural value_of by (cases rhs) (auto intro: fn_sound)
  qed (use structural in simp_all)
qed

end

lemma assign_sound:
  assumes "assign_type_with_bounds n Map.empty lhs rhs = Accepted ()" "exact \<or> required_fields lhs"
    and "conforms exact (v :: 'f Val) rhs"
  shows "conforms False v lhs"
  using assms
proof (induction n arbitrary: lhs rhs v)
  case (Suc n)
  have nested: "sound_assigner TYPE('f) (assign_type_with_bounds n) exact"
    by unfold_locales (rule Suc.IH)
  have "exact \<or> required_fields (unfold_ty lhs)" "conforms exact v (unfold_ty rhs)"
    using Suc.prems(2,3) by (auto simp: required_fields_unfold conforms_unfold)
  with nested Suc.prems(1) [unfolded assign_type_with_bounds.simps]
  have "conforms False v (unfold_ty lhs)" by (rule sound_assigner.impl_sound)
  then show ?case by (simp add: conforms_unfold)
qed simp

interpretation checked: sound_assigner "assign_type_with_bounds n" exact for n exact
  by unfold_locales (rule assign_sound)


definition list_of :: "nat \<Rightarrow> Ty \<Rightarrow> Ty" where
  "list_of i t = TIsoRec i (TRecord [(''head'', t), (''tail'', TOptional (TVar i))])"

text \<open>A linked list of two numbers that leaves out the end of the list.\<close>

definition two_numbers :: "unit Val" where
  "two_numbers = VRecord [(''head'', VInt 1), (''tail'', VRecord [(''head'', VInt 2)])]"

lemma unfold_list_of [simp]:
  "contains_var i t = False \<Longrightarrow> unfold_ty (list_of i t) = TRecord [(''head'', substitute [(i, list_of i t)] t), (''tail'', TOptional (list_of i t))]"
  by (simp add: list_of_def)


section \<open>Where the rules fall short\<close>

text \<open>
  Forgetting a field and adding it back as optional changes its type. A record with a text \<open>a\<close> is accepted
  as an empty record, an empty record is accepted as one with an optional number \<open>a\<close>, and the same value
  is then read at a type it does not have. The direct assignment is rejected, so assignability is
  not transitive.
\<close>

theorem optional_fields_forget_types:
  "is_assignable_from (Suc (Suc (Suc n))) (TRecord []) (TRecord [(''a'', TStr)]) = Accepted () \<and>
   is_assignable_from (Suc (Suc (Suc n))) (TRecord [(''a'', TOptional TInt)]) (TRecord []) = Accepted () \<and>
   is_assignable_from (Suc (Suc (Suc n))) (TRecord [(''a'', TOptional TInt)]) (TRecord [(''a'', TStr)]) = Rejected \<and>
   conforms True (VRecord [(''a'', VStr s)] :: 'f Val) (TRecord [(''a'', TStr)]) \<and>
   \<not> conforms False (VRecord [(''a'', VStr s)] :: 'f Val) (TRecord [(''a'', TOptional TInt)])"
proof (intro conjI)
  show "conforms True (VRecord [(''a'', VStr s)] :: 'f Val) (TRecord [(''a'', TStr)])"
    by (auto simp: val_record_get_def intro!: conforms_record conforms_str)
  show "\<not> conforms False (VRecord [(''a'', VStr s)] :: 'f Val) (TRecord [(''a'', TOptional TInt)])"
    by (auto simp: conforms_record_iff conforms_optional_iff conforms_int_iff val_record_get_def)
qed (simp_all add: is_assignable_from_def assign_type_impl_def)



end
