(* ===== verification/Sclc_Props.thy ===== *)
theory Sclc_Props
  imports Sclc_Types
begin

text \<open>
  The derivation engine behind flow-sensitive types, \<^verbatim>\<open>crates/sclc/src/prop.rs\<close>: propositions about the types of
  expressions are added, implications fire when their antecedent is proven, and proven refinements are
  collected. It derives exactly what follows by modus ponens. Applying the refinements to a type needs
  the identifier of every part of the type and is not modelled.
\<close>

section \<open>Propositions\<close>

text \<open>The target of a refinement is a type together with its identifier.\<close>

datatype Prop =
    IsTrue nat
  | RefinesTo nat nat Ty
  | NotProp Prop
  | Implies Prop Prop

text \<open>The source compares the target of a refinement by its identifier.\<close>

fun prop_eq :: "Prop \<Rightarrow> Prop \<Rightarrow> bool" where
  "prop_eq (IsTrue a) (IsTrue b) \<longleftrightarrow> a = b"
| "prop_eq (RefinesTo a i t) (RefinesTo b j u) \<longleftrightarrow> a = b \<and> i = j"
| "prop_eq (NotProp p) (NotProp q) \<longleftrightarrow> prop_eq p q"
| "prop_eq (Implies p c) (Implies q d) \<longleftrightarrow> prop_eq p q \<and> prop_eq c d"
| "prop_eq _ _ \<longleftrightarrow> False"

text \<open>The index of implications, a multimap from antecedents, lists its entries in the order they were added.\<close>

record ProvenSet =
  ps_proven :: "Prop list"
  ps_implications :: "(Prop \<times> Prop) list"
  ps_refines_to :: "nat \<rightharpoonup> Ty"

definition ProvenSet_new :: ProvenSet where
  "ProvenSet_new = \<lparr>ps_proven = [], ps_implications = [], ps_refines_to = Map.empty\<rparr>"

definition is_proven :: "ProvenSet \<Rightarrow> Prop \<Rightarrow> bool" where
  "is_proven ps p \<longleftrightarrow> list_ex (\<lambda>q. prop_eq q p) (ps_proven ps)"

definition get_refinement :: "ProvenSet \<Rightarrow> nat \<Rightarrow> Ty option" where
  "get_refinement ps i = ps_refines_to ps i"

definition index_implication :: "Prop \<Rightarrow> Prop \<Rightarrow> ProvenSet \<Rightarrow> ProvenSet" where
  "index_implication ante cons ps = ps\<lparr>ps_implications := ps_implications ps @ [(ante, cons)]\<rparr>"

definition consequents :: "ProvenSet \<Rightarrow> Prop \<Rightarrow> Prop list" where
  "consequents ps p = map snd (filter (\<lambda>(a, c). prop_eq a p) (ps_implications ps))"

text \<open>Record a proposition that is no implication, and drop the implications it fires from the index.\<close>

definition record_proven :: "Prop \<Rightarrow> ProvenSet \<Rightarrow> ProvenSet" where
  "record_proven p ps =
    \<lparr>ps_proven = ps_proven ps @ [p],
     ps_implications = filter (\<lambda>(a, c). \<not> prop_eq a p) (ps_implications ps),
     ps_refines_to = (case p of RefinesTo i j t \<Rightarrow> (ps_refines_to ps)(i \<mapsto> t) | _ \<Rightarrow> ps_refines_to ps)\<rparr>"

text \<open>
  The source proves the consequents of a proposition by nested calls, before it goes on. The list holds
  the calls still to be made, the innermost first.
\<close>

function (sequential) prove :: "Prop list \<Rightarrow> ProvenSet \<Rightarrow> ProvenSet" where
  "prove [] ps = ps"
| "prove (Implies ante cons # rest) ps =
    (if is_proven ps ante then prove (cons # rest) ps
     else prove rest (index_implication ante cons ps))"
| "prove (p # rest) ps =
    (if is_proven ps p then prove rest ps
     else prove (consequents ps p @ rest) (record_proven p ps))"
  by pat_completeness auto

fun prop_weight :: "Prop \<Rightarrow> nat" where
  "prop_weight (Implies a c) = Suc (prop_weight c)"
| "prop_weight p = 1"

abbreviation pending_weight :: "ProvenSet \<Rightarrow> nat" where
  "pending_weight ps \<equiv> sum_list (map (prop_weight \<circ> snd) (ps_implications ps))"

lemma weight_split:
  "sum_list (map (prop_weight \<circ> snd) (filter P xs)) + sum_list (map (prop_weight \<circ> snd) (filter (\<lambda>x. \<not> P x) xs)) =
    sum_list (map (prop_weight \<circ> snd) xs)"
  by (induction xs) auto

lemma weight_record_proven:
  "sum_list (map prop_weight (consequents ps p)) + pending_weight (record_proven p ps) = pending_weight ps"
  using weight_split [of "\<lambda>(a, c). prop_eq a p" "ps_implications ps"]
  by (simp add: consequents_def record_proven_def comp_def case_prod_unfold)

termination prove
proof (relation "measure (\<lambda>(ps, s). sum_list (map prop_weight ps) + pending_weight s)", goal_cases)
  case (3 ante cons rest ps)
  then show ?case by (simp add: index_implication_def)
next
  case (5 i rest ps)
  then show ?case using weight_record_proven [of ps "IsTrue i"] by simp
next
  case (7 i j t rest ps)
  then show ?case using weight_record_proven [of ps "RefinesTo i j t"] by simp
next
  case (9 p rest ps)
  then show ?case using weight_record_proven [of ps "NotProp p"] by simp
qed simp_all

definition add_proposition :: "Prop \<Rightarrow> ProvenSet \<Rightarrow> ProvenSet" where
  "add_proposition p ps = prove [p] ps"

definition with_propositions :: "ProvenSet \<Rightarrow> Prop list \<Rightarrow> ProvenSet" where
  "with_propositions ps new_props = fold add_proposition new_props ps"

section \<open>What is derived\<close>

lemma prop_eq_refl [simp]: "prop_eq p p"
  by (induction p) auto

lemma prop_eq_sym: "prop_eq p q \<Longrightarrow> prop_eq q p"
  by (induction p q rule: prop_eq.induct) auto

lemma prop_eq_trans: "prop_eq p q \<Longrightarrow> prop_eq q r \<Longrightarrow> prop_eq p r"
proof (induction p arbitrary: q r)
  case (Implies p c)
  then obtain q1 q2 where "q = Implies q1 q2" by (cases q) auto
  with Implies show ?case by (cases r) auto
next
  case (NotProp p)
  then obtain q1 where "q = NotProp q1" by (cases q) auto
  with NotProp show ?case by (cases r) auto
next
  case (IsTrue i)
  then show ?case by (cases q; cases r) auto
next
  case (RefinesTo i j t)
  then show ?case by (cases q; cases r) auto
qed

definition atomic :: "Prop \<Rightarrow> bool" where
  "atomic p \<longleftrightarrow> (case p of Implies a c \<Rightarrow> False | _ \<Rightarrow> True)"

lemma atomic_simps [simp]:
  "atomic (IsTrue i)" "atomic (RefinesTo i j t)" "atomic (NotProp p)" "\<not> atomic (Implies a c)"
  by (simp_all add: atomic_def)

lemma atomic_prop_eq: "prop_eq p q \<Longrightarrow> atomic p \<longleftrightarrow> atomic q"
  by (cases p; cases q) auto

lemma prove_atomic:
  "atomic p \<Longrightarrow> prove (p # rest) ps =
    (if is_proven ps p then prove rest ps else prove (consequents ps p @ rest) (record_proven p ps))"
  by (cases p) simp_all

lemma prove_induct [case_names Nil Implies Atomic]:
  assumes "\<And>ps. P [] ps"
    and "\<And>ante cons rest ps. (is_proven ps ante \<Longrightarrow> P (cons # rest) ps) \<Longrightarrow>
      (\<not> is_proven ps ante \<Longrightarrow> P rest (index_implication ante cons ps)) \<Longrightarrow> P (Implies ante cons # rest) ps"
    and "\<And>p rest ps. atomic p \<Longrightarrow> (is_proven ps p \<Longrightarrow> P rest ps) \<Longrightarrow>
      (\<not> is_proven ps p \<Longrightarrow> P (consequents ps p @ rest) (record_proven p ps)) \<Longrightarrow> P (p # rest) ps"
  shows "P wl ps"
  by (induction wl ps rule: prove.induct) (rule assms; simp)+

lemma is_proven_prop_eq: "is_proven ps p \<Longrightarrow> prop_eq p q \<Longrightarrow> is_proven ps q"
  by (auto simp: is_proven_def list_ex_iff intro: prop_eq_trans)

lemma is_proven_index [simp]: "is_proven (index_implication a c ps) p = is_proven ps p"
  by (simp add: is_proven_def index_implication_def)

lemma is_proven_record: "is_proven (record_proven p ps) q \<longleftrightarrow> is_proven ps q \<or> prop_eq p q"
  by (auto simp: is_proven_def record_proven_def)

text \<open>Modus ponens, up to the equality of propositions.\<close>

inductive derives :: "Prop set \<Rightarrow> Prop \<Rightarrow> bool" for given :: "Prop set" where
  derives_given: "p \<in> given \<Longrightarrow> derives given p"
| derives_mp: "derives given (Implies ante cons) \<Longrightarrow> derives given p \<Longrightarrow> prop_eq p ante \<Longrightarrow> derives given cons"

definition derived_only :: "Prop set \<Rightarrow> ProvenSet \<Rightarrow> bool" where
  "derived_only given ps \<longleftrightarrow>
    (\<forall>p \<in> set (ps_proven ps). derives given p) \<and>
    (\<forall>(a, c) \<in> set (ps_implications ps). derives given (Implies a c)) \<and>
    (\<forall>i t. ps_refines_to ps i = Some t \<longrightarrow> (\<exists>j. derives given (RefinesTo i j t)))"

lemma derived_only_index:
  "derived_only given ps \<Longrightarrow> derives given (Implies a c) \<Longrightarrow> derived_only given (index_implication a c ps)"
  by (auto simp: derived_only_def index_implication_def)

lemma derived_only_record: "derived_only given ps \<Longrightarrow> derives given p \<Longrightarrow> derived_only given (record_proven p ps)"
  by (cases p) (auto simp: derived_only_def record_proven_def split: if_splits)

lemma derived_only_consequents:
  assumes "derived_only given ps" "derives given p" "c \<in> set (consequents ps p)"
  shows "derives given c"
proof -
  obtain a where "(a, c) \<in> set (ps_implications ps)" "prop_eq a p"
    using assms(3) by (auto simp: consequents_def)
  then show ?thesis using assms(1,2) derives_mp prop_eq_sym unfolding derived_only_def by fastforce
qed

lemma derived_only_proven: "derived_only given ps \<Longrightarrow> is_proven ps p \<Longrightarrow> \<exists>q. derives given q \<and> prop_eq q p"
  by (auto simp: derived_only_def is_proven_def list_ex_iff)

lemma prove_derived_only:
  "derived_only given ps \<Longrightarrow> \<forall>p \<in> set wl. derives given p \<Longrightarrow> derived_only given (prove wl ps)"
proof (induction wl ps rule: prove_induct)
  case (Implies ante cons rest ps)
  have implication: "derives given (Implies ante cons)" using Implies.prems(2) by simp
  show ?case
  proof (cases "is_proven ps ante")
    case True
    then have "derives given cons"
      using derived_only_proven [OF Implies.prems(1)] implication by (auto intro: derives_mp)
    then show ?thesis using Implies True by simp
  next
    case False
    then show ?thesis using Implies derived_only_index [OF Implies.prems(1) implication] by simp
  qed
next
  case (Atomic p rest ps)
  have "derives given p" using Atomic.prems(2) by simp
  then show ?case
    using Atomic derived_only_record [OF Atomic.prems(1)] derived_only_consequents [OF Atomic.prems(1)]
    by (auto simp: prove_atomic)
qed simp

lemma with_propositions_derived_only:
  "derived_only given ps \<Longrightarrow> set props \<subseteq> given \<Longrightarrow> derived_only given (with_propositions ps props)"
proof (induction props arbitrary: ps)
  case (Cons p props)
  have "derived_only given (add_proposition p ps)"
    unfolding add_proposition_def using Cons.prems by (intro prove_derived_only) (auto intro: derives_given)
  then show ?case using Cons by (simp add: with_propositions_def)
qed (simp add: with_propositions_def)

text \<open>
  What was given is accounted for: it is still to be proven, it is proven, or it is an implication that
  waits in the index for its antecedent.
\<close>

fun secured :: "ProvenSet \<Rightarrow> Prop list \<Rightarrow> Prop \<Rightarrow> bool" where
  "secured ps wl (Implies a c) \<longleftrightarrow>
    Implies a c \<in> set wl \<or> (if is_proven ps a then secured ps wl c else c \<in> set (consequents ps a))"
| "secured ps wl p \<longleftrightarrow> p \<in> set wl \<or> is_proven ps p"

lemma secured_member: "p \<in> set wl \<Longrightarrow> secured ps wl p"
  by (cases p) auto

lemma secured_atomic: "atomic p \<Longrightarrow> secured ps wl p \<longleftrightarrow> p \<in> set wl \<or> is_proven ps p"
  by (cases p) auto

lemma secured_step_fire:
  "is_proven ps ante \<Longrightarrow> secured ps (Implies ante cons # rest) p \<Longrightarrow> secured ps (cons # rest) p"
  by (induction p) (auto simp: secured_member)

lemma secured_step_index:
  "\<not> is_proven ps ante \<Longrightarrow> secured ps (Implies ante cons # rest) p \<Longrightarrow> secured (index_implication ante cons ps) rest p"
  by (induction p) (auto simp: consequents_def index_implication_def is_proven_def split: if_splits)

lemma secured_step_known: "is_proven ps q \<Longrightarrow> atomic q \<Longrightarrow> secured ps (q # rest) p \<Longrightarrow> secured ps rest p"
  by (induction p) (auto split: if_splits)

lemma consequents_record:
  assumes "c \<in> set (consequents ps a)"
  shows "prop_eq q a \<Longrightarrow> c \<in> set (consequents ps q)"
    and "\<not> prop_eq q a \<Longrightarrow> c \<in> set (consequents (record_proven q ps) a)"
proof -
  obtain k where k: "(k, c) \<in> set (ps_implications ps)" "prop_eq k a"
    using assms by (auto simp: consequents_def)
  show "c \<in> set (consequents ps q)" if "prop_eq q a"
    using k prop_eq_trans [OF k(2) prop_eq_sym [OF that]] by (force simp: consequents_def)
  show "c \<in> set (consequents (record_proven q ps) a)" if "\<not> prop_eq q a"
    using k that prop_eq_trans [OF prop_eq_sym k(2)] by (force simp: consequents_def record_proven_def)
qed

lemma secured_step_record:
  "atomic q \<Longrightarrow> secured ps (q # rest) p \<Longrightarrow> secured (record_proven q ps) (consequents ps q @ rest) p"
proof (induction p)
  case (Implies a c)
  show ?case
  proof (cases "is_proven ps a \<or> Implies a c \<in> set rest")
    case True
    then show ?thesis using Implies by (auto simp: is_proven_record)
  next
    case False
    then have waiting: "c \<in> set (consequents ps a)" using Implies.prems by auto
    then show ?thesis
      using False consequents_record [OF waiting, of q] by (auto simp: is_proven_record secured_member)
  qed
qed (auto simp: is_proven_record)

lemma prove_secured: "secured ps wl p \<Longrightarrow> secured (prove wl ps) [] p"
proof (induction wl ps rule: prove_induct)
  case (Implies ante cons rest ps)
  then show ?case
    using secured_step_fire [of ps ante cons rest p] secured_step_index [of ps ante cons rest p] by simp
next
  case (Atomic q rest ps)
  then show ?case
    using secured_step_known [of ps q rest p] secured_step_record [of q ps rest p] by (simp add: prove_atomic)
qed simp

lemma secured_more: "secured ps [] p \<Longrightarrow> secured ps wl p"
  by (induction p) auto

lemma with_propositions_secured:
  "secured ps [] p \<or> p \<in> set props \<Longrightarrow> secured (with_propositions ps props) [] p"
proof (induction props arbitrary: ps)
  case (Cons q props)
  have "secured (add_proposition q ps) [] p \<or> p \<in> set props"
    using Cons.prems by (auto simp: add_proposition_def intro!: prove_secured intro: secured_more secured_member)
  then show ?case using Cons.IH by (simp add: with_propositions_def)
qed (simp add: with_propositions_def)

text \<open>Antecedents that are implications themselves are never proven, so they are set apart.\<close>

fun atomic_antecedents :: "Prop \<Rightarrow> bool" where
  "atomic_antecedents (Implies a c) \<longleftrightarrow> atomic a \<and> atomic_antecedents c"
| "atomic_antecedents p \<longleftrightarrow> True"

lemma derives_secured:
  assumes "\<And>p. p \<in> given \<Longrightarrow> secured ps [] p \<and> atomic_antecedents p" "derives given p"
  shows "secured ps [] p \<and> atomic_antecedents p"
  using assms(2)
proof induction
  case (derives_mp ante cons p)
  then have "atomic p" using atomic_prop_eq by auto
  then have "is_proven ps p" using derives_mp by (simp add: secured_atomic)
  then have "is_proven ps ante" using derives_mp is_proven_prop_eq by blast
  then show ?case using derives_mp by simp
qed (rule assms(1))

text \<open>
  C14. The engine is sound and complete: starting from nothing it proves exactly the propositions that follow
  from the given ones by modus ponens, in whatever order they are given, and every refinement it reports
  is one of them.
\<close>

theorem derivation_is_modus_ponens:
  assumes "list_all atomic_antecedents props" "atomic p"
  shows "(is_proven (with_propositions ProvenSet_new props) p \<longleftrightarrow> (\<exists>q. derives (set props) q \<and> prop_eq q p)) \<and>
    (get_refinement (with_propositions ProvenSet_new props) i = Some t \<longrightarrow> (\<exists>j. derives (set props) (RefinesTo i j t)))"
proof -
  let ?ps = "with_propositions ProvenSet_new props"
  have sound: "derived_only (set props) ?ps"
    by (rule with_propositions_derived_only) (simp_all add: derived_only_def ProvenSet_new_def)
  have "is_proven ?ps p" if "derives (set props) q" "prop_eq q p" for q
  proof -
    have "secured ?ps [] q"
      using derives_secured [OF _ that(1), of ?ps] with_propositions_secured assms(1) by (auto simp: list_all_iff)
    moreover have "atomic q" using that(2) assms(2) atomic_prop_eq by blast
    ultimately show ?thesis using that(2) is_proven_prop_eq by (auto simp: secured_atomic)
  qed
  then show ?thesis
    using derived_only_proven [OF sound] sound by (auto simp: derived_only_def get_refinement_def)
qed

theorem derivation_is_modus_ponens_witness:
  "(is_proven (with_propositions ProvenSet_new
      [Implies (IsTrue 1) (Implies (IsTrue 2) (RefinesTo 3 4 TInt)), IsTrue 2, IsTrue 1]) (RefinesTo 3 4 TInt) \<longleftrightarrow>
    (\<exists>q. derives {Implies (IsTrue 1) (Implies (IsTrue 2) (RefinesTo 3 4 TInt)), IsTrue 2, IsTrue 1} q \<and>
      prop_eq q (RefinesTo 3 4 TInt))) \<and>
   get_refinement (with_propositions ProvenSet_new
      [Implies (IsTrue 1) (Implies (IsTrue 2) (RefinesTo 3 4 TInt)), IsTrue 2, IsTrue 1]) 3 = Some TInt"
proof -
  let ?props = "[Implies (IsTrue 1) (Implies (IsTrue 2) (RefinesTo 3 4 TInt)), IsTrue 2, IsTrue 1]"
  have "get_refinement (with_propositions ProvenSet_new ?props) 3 = Some TInt"
    by (simp add: with_propositions_def add_proposition_def get_refinement_def is_proven_def record_proven_def
        index_implication_def consequents_def ProvenSet_new_def)
  then show ?thesis using derivation_is_modus_ponens [of ?props "RefinesTo 3 4 TInt" 3 TInt] by simp
qed

end
