(* ===== verification/Spec2Isabelle.thy ===== *)
theory Spec2Isabelle
  imports Ids Rq Rtq Sdb_Lifecycle Re_Outcomes Cdb_Registry De_Rollout De_Daemon Teardown Sclc_Soundness Sclc_Props
begin

text \<open>
  A verification development for Skyr, a platform that runs infrastructure described in a configuration
  language. Paths are relative to \<^verbatim>\<open>src/crates\<close>.

  \<^bold>\<open>The program.\<close> A push to a repository makes a commit the desired deployment of an environment. The
  deployment engine (\<^verbatim>\<open>de\<close>) runs a worker for every active deployment: it compiles and evaluates the
  configuration and turns the effects of the evaluation into transition messages. The messages go through a sharded
  queue (\<^verbatim>\<open>rtq\<close>) to the transition engine (\<^verbatim>\<open>rte\<close>), which calls plugins and keeps the resource database
  (\<^verbatim>\<open>rdb\<close>). Both engines write logs (\<^verbatim>\<open>ldb\<close>) and send reports through a second sharded queue (\<^verbatim>\<open>rq\<close>) to the
  reporting engine (\<^verbatim>\<open>re\<close>), which keeps incidents and status summaries in the status database (\<^verbatim>\<open>sdb\<close>) and
  asks for notifications (\<^verbatim>\<open>nq\<close>). Deployments and their supersession live in the configuration database
  (\<^verbatim>\<open>cdb\<close>). All of them name things by the identifiers of \<^verbatim>\<open>ids\<close>. The configuration language is \<^verbatim>\<open>sclc\<close>.

  \<^bold>\<open>How it is modelled.\<close> A string is the list of its bytes. A fallible operation on a state is a function
  from the state to an error or a result and the new state; an early return of the source is sequencing with
  \<open>seq\<close> (\<open>Skyr_Prelude\<close>). A database session is a counter of executed statements and the tables; a \<open>network\<close>
  says of each statement whether it is carried out, refused, or carried out without an answer (\<open>Cql\<close>), so a
  theorem that quantifies over networks covers every pattern of failures, and \<open>up\<close> is the network without
  failures. Machine integers keep their width where they can wrap. Time, hash map order, JSON and Base64
  codecs, the message broker, plugins, the compiler and the evaluator are parameters.

  \<^bold>\<open>The theories.\<close>
  \<^item> \<open>Skyr_Prelude\<close>: operations of Rust strings, sequencing, the triples \<open>op_ok\<close>, the frame rules \<open>frames\<close>, and the
    contract \<open>string_codec\<close> of an identifier that prints and parses.
  \<^item> \<open>Ids\<close> (\<^verbatim>\<open>ids/src/lib.rs\<close>): every identifier type, each an instance of the contract; parsing accepts exactly what is
    printed, and Git refs convert back except branches named like tags.
  \<^item> \<open>Amqp\<close>, \<open>Rq\<close>, \<open>Rtq\<close> (\<^verbatim>\<open>rq\<close>, \<^verbatim>\<open>rtq\<close>): calls to the broker, SipHash, the contract \<open>sharded_queue\<close> and its two
    instances; every message has exactly one worker queue.
  \<^item> \<open>Cql\<close>: statements and rows in clustering order, the contract \<open>clustering_order\<close>.
  \<^item> \<open>Sdb\<close>, \<open>Sdb_Lifecycle\<close> (\<^verbatim>\<open>sdb/src\<close>): the client, and a step relation whose steps are whole calls under any
    failures; closing is permanent, the registry of open incidents is exact without failures, and what a
    close that fails halfway leaves behind.
  \<^item> \<open>Nq\<close>, \<open>Thresholds\<close>, \<open>Pipeline\<close>, \<open>Watchdog\<close>, \<open>Re_Notifications\<close>, \<open>Re_Outcomes\<close> (\<^verbatim>\<open>nq\<close>, \<^verbatim>\<open>re/src\<close>): the pipeline of a report,
    the sliding window, the heartbeat cache, the sweep and the worker loop; idempotency keys are never used
    twice, a success closes everything, the watchdog catches exactly the silent.
  \<^item> \<open>Rdb\<close> (\<^verbatim>\<open>rdb/src/lib.rs\<close>): the client refines a map from keys to resources.
  \<^item> \<open>Cdb\<close>, \<open>Cdb_Registry\<close> (\<^verbatim>\<open>cdb/src\<close>): the client refines a registry of deployments and supersessions; promotion leaves
    one desired deployment, two interleaved ones leave two.
  \<^item> \<open>De\<close>, \<open>De_Reconcile\<close>, \<open>De_Rollout\<close>, \<open>De_Daemon\<close> (\<^verbatim>\<open>de/src\<close>): the worker in each deployment state and the daemon; one
    report per iteration, lingering, teardown, the end of a rollout, which workers are kept.
  \<^item> \<open>Ldb\<close> (\<^verbatim>\<open>ldb/src/lib.rs\<close>): record format, topics, publishing and tailing; a tail yields what was logged.
  \<^item> \<open>Rte\<close>, \<open>Rte_Transitions\<close> (\<^verbatim>\<open>rte/src/main.rs\<close>): the handlers and the worker loop; which messages are dropped, what a
    transition stores, who owns a resource after a success, how a delivery is settled.
  \<^item> \<open>Sclc_Types\<close>, \<open>Sclc_Values\<close>, \<open>Sclc_Soundness\<close> (\<^verbatim>\<open>sclc/src/ty.rs\<close>, \<^verbatim>\<open>value.rs\<close>): assignability is sound for values, decided
    for types without recursion, and where it is neither.
  \<^item> \<open>Sclc_Props\<close> (\<^verbatim>\<open>sclc/src/prop.rs\<close>): the derivation engine proves exactly what follows by modus ponens.
  \<^item> \<open>Teardown\<close>: both engines on the resource database of one region; what the messages of a teardown do when the
    transition engine serves them.

  \<^bold>\<open>Across components.\<close> \<open>teardown_completes\<close> below: rounds of the deployment engine and the transition engine take a
  deployment down.

  \<^bold>\<open>Fuel and bounds.\<close> The walk along supersessions has as much fuel as the repository owner has supersession rows, and two more, and
  \<open>lingering_walk_terminates\<close> shows that it is never used up. The stream of a log has fuel for its fetches, because one that follows
  the log never ends; \<open>tail_reads_what_was_logged\<close> gives the number that is enough for one that does not. Loops that serve messages run over the list of
  what they are given. Assignability runs on fuel because the source recurses without a bound: more fuel never
  changes an answer, the sizes of the types are enough without recursion, and
  \<open>recursive_types_are_not_decided\<close> shows that for recursive types no fuel is enough. Everything else is
  total by structural recursion or a measure.

  \<^bold>\<open>Not modelled.\<close> Connecting to databases and brokers and creating tables; the git object store of \<^verbatim>\<open>cdb\<close> and
  the git protocol of \<^verbatim>\<open>scs\<close>; the parser, the checker and the evaluator of \<^verbatim>\<open>sclc\<close>, which work on a syntax tree this
  development does not have; the notification engine \<^verbatim>\<open>ne\<close>; the services \<^verbatim>\<open>api\<close>, \<^verbatim>\<open>cli\<close>, \<^verbatim>\<open>ias\<close>, \<^verbatim>\<open>lsp\<close>, which decode
  requests and call the clients above; accounts and storage (\<^verbatim>\<open>adb\<close>, \<^verbatim>\<open>udb\<close>, \<^verbatim>\<open>gddb\<close>, \<^verbatim>\<open>auth_token\<close>); the plugins and the container
  services, whose effects are outside the program; the web client.
\<close>

text \<open>
  C5. A teardown completes. Both engines serve one region, the statements of the two databases and of the queue are
  answered and the plugins delete what they are asked to. When every dependency leads downwards,
  nothing of another deployment depends on what is to be destroyed, and the resources to be destroyed
  are complete, then after at most as many rounds as there are such resources, and one more, the
  deployment is down and exactly the resources that were not to be destroyed are left.
\<close>

theorem teardown_completes:
  assumes "teardown_up env" "serves renv env" "deployment_qid d = de_client env" "ready_to_tear_down env renv rank r all st"
  shows "\<exists>k \<le> Suc (remaining (de_owner env) all). torn_down env now r all (fst (teardown_rounds k env renv d now (st, w)))"
  using assms(4)
proof (induction "remaining (de_owner env) all" arbitrary: st w all rule: less_induct)
  case less
  show ?case
  proof (cases "remaining (de_owner env) all = 0")
    case True
    then have "torn_down env now r all (fst (teardown_rounds 1 env renv d now (st, w)))"
      by (rule teardown_round_last [OF assms(1-3) less.prems])
    then show ?thesis by (intro exI [of _ 1]) simp
  next
    case False
    obtain st' w' all' where step: "deliver env renv (snd (run_undesired env d now st), w) = (st', w')"
      "ready_to_tear_down env renv rank r all' st'" "remaining (de_owner env) all' < remaining (de_owner env) all"
      "spared (de_owner env) all' = spared (de_owner env) all"
      by (rule teardown_round_progress [OF assms(1-3) less.prems False])
    from less.hyps [OF step(3,2), of w'] obtain k where k: "k \<le> Suc (remaining (de_owner env) all')"
      "torn_down env now r all' (fst (teardown_rounds k env renv d now (st', w')))" by blast
    have "torn_down env now r all (fst (teardown_rounds (Suc k) env renv d now (st, w)))"
      using k(2) by (simp add: step(1) torn_down_def step(4))
    then show ?thesis using k(1) step(3) by (intro exI [of _ "Suc k"]) simp
  qed
qed

theorem teardown_completes_witness:
  "\<exists>st d. \<exists>k \<le> 2. torn_down (example_de_env up) 9 example_rollout [example_resource (EnvironmentQid_display example_env)]
    (fst (teardown_rounds k (example_de_env up) (example_rte_env up) d 9 (st, example_rte)))"
proof -
  obtain d0 :: "CdbTables Db" where d0: "represents example_rollout (tables d0)" using example_rollout_represented by blast
  let ?st = "example_de d0 (tables (rte_rdb example_full))" and ?env = "example_de_env up" and ?renv = "example_rte_env up"
  let ?x = "example_resource (EnvironmentQid_display example_env)"
  obtain d where d: "deployment_qid d = de_client ?env"
    using d0 by_id_okD(1) example_rollout_chain(2) by (fastforce simp: represents_def example_de_env_def)
  have "destroyable ?renv ?x"
    using example_plugin [of "''seed''" up]
    by (simp add: destroyable_def deletes_anything_def example_resource_def example_ref_def example_rid_def)
  moreover have "rows_hold ?env (tables (rte_rdb example_full)) [?x]"
    by (simp add: rows_hold_def example_full_def example_de_env_def example_row_decodes example_dep_def example_resource_def
        example_ref_def example_rid_def)
  ultimately have "ready_to_tear_down ?env ?renv (\<lambda>_. 0) example_rollout [?x] ?st"
    using d0 by (simp add: ready_to_tear_down_def for_region_def can_tear_down_def example_de_def example_resource_def)
  moreover have "teardown_up ?env" "serves ?renv ?env"
    using example_deps(1) by (simp_all add: teardown_up_def serves_def example_de_env_def example_rte_env_def)
  ultimately obtain k where k: "k \<le> Suc (remaining (de_owner ?env) [?x])"
    "torn_down ?env 9 example_rollout [?x] (fst (teardown_rounds k ?env ?renv d 9 (?st, example_rte)))"
    using teardown_completes [of ?env ?renv d "\<lambda>_. 0" example_rollout "[?x]" ?st 9 example_rte] d by blast
  moreover have "remaining (de_owner ?env) [?x] \<le> 1" by simp
  ultimately show ?thesis by (intro exI [of _ ?st] exI [of _ d] exI [of _ k]) auto
qed

end
